(* ===== verification/Go_Strings.thy ===== *)
theory Go_Strings
  imports Prelude Unicode_Case
begin

text \<open>
  The functions of Go's packages \<open>strings\<close>, \<open>unicode\<close> and \<open>unicode/utf8\<close> that the program
  uses, on byte strings: UTF-8 decoding as in \<open>utf8.DecodeRuneInString\<close> (an invalid byte is the
  rune U+FFFD of width 1), \<open>ToLower\<close>, \<open>ToUpper\<close>, \<open>TrimSpace\<close>, \<open>ReplaceAll\<close> of one byte by
  nothing, \<open>HasPrefix\<close> and \<open>Split\<close> at one byte. A rune is a \<open>nat\<close>.
\<close>

section \<open>UTF-8\<close>

type_synonym rune = nat

definition rune_error :: rune where
  "rune_error = 65533"

definition is_cont :: "char \<Rightarrow> bool" where
  "is_cont c \<longleftrightarrow> 128 \<le> code c \<and> code c \<le> 191"

text \<open>The accepted second bytes after a given first byte of a longer sequence.\<close>

definition second_ok :: "nat \<Rightarrow> char \<Rightarrow> bool" where
  "second_ok b0 c \<longleftrightarrow> is_cont c \<and>
     (b0 = 224 \<longrightarrow> 160 \<le> code c) \<and> (b0 = 237 \<longrightarrow> code c \<le> 159) \<and>
     (b0 = 240 \<longrightarrow> 144 \<le> code c) \<and> (b0 = 244 \<longrightarrow> code c \<le> 143)"

fun decode2 :: "nat \<Rightarrow> string \<Rightarrow> rune \<times> nat" where
  "decode2 b0 (c1 # s) =
     (if second_ok b0 c1 then ((b0 mod 32) * 64 + code c1 mod 64, 2) else (rune_error, 1))"
| "decode2 b0 s = (rune_error, 1)"

fun decode3 :: "nat \<Rightarrow> string \<Rightarrow> rune \<times> nat" where
  "decode3 b0 (c1 # c2 # s) =
     (if second_ok b0 c1 \<and> is_cont c2
      then ((b0 mod 16) * 4096 + (code c1 mod 64) * 64 + code c2 mod 64, 3)
      else (rune_error, 1))"
| "decode3 b0 s = (rune_error, 1)"

fun decode4 :: "nat \<Rightarrow> string \<Rightarrow> rune \<times> nat" where
  "decode4 b0 (c1 # c2 # c3 # s) =
     (if second_ok b0 c1 \<and> is_cont c2 \<and> is_cont c3
      then ((b0 mod 8) * 262144 + (code c1 mod 64) * 4096 + (code c2 mod 64) * 64
            + code c3 mod 64, 4)
      else (rune_error, 1))"
| "decode4 b0 s = (rune_error, 1)"

fun decode_rune :: "string \<Rightarrow> rune \<times> nat" where
  "decode_rune [] = (rune_error, 0)"
| "decode_rune (c # s) =
     (let b0 = code c in
      if b0 < 128 then (b0, 1)
      else if 194 \<le> b0 \<and> b0 \<le> 223 then decode2 b0 s
      else if 224 \<le> b0 \<and> b0 \<le> 239 then decode3 b0 s
      else if 240 \<le> b0 \<and> b0 \<le> 244 then decode4 b0 s
      else (rune_error, 1))"

fun runes :: "string \<Rightarrow> rune list" where
  "runes [] = []"
| "runes (c # s) = (let (r, n) = decode_rune (c # s) in r # runes (drop (n - 1) s))"

definition encode_rune :: "rune \<Rightarrow> string" where
  "encode_rune r =
     (let r = (if r > 1114111 \<or> (55296 \<le> r \<and> r \<le> 57343) then rune_error else r) in
      if r < 128 then [char_of r]
      else if r < 2048 then [char_of (192 + r div 64), char_of (128 + r mod 64)]
      else if r < 65536 then
        [char_of (224 + r div 4096), char_of (128 + r div 64 mod 64), char_of (128 + r mod 64)]
      else
        [char_of (240 + r div 262144), char_of (128 + r div 4096 mod 64),
         char_of (128 + r div 64 mod 64), char_of (128 + r mod 64)])"

definition ascii :: "string \<Rightarrow> bool" where
  "ascii s \<longleftrightarrow> (\<forall>c \<in> set s. code c < 128)"

lemma ascii_simps [simp]:
  "ascii []" "ascii (c # s) \<longleftrightarrow> code c < 128 \<and> ascii s" "ascii (s @ t) \<longleftrightarrow> ascii s \<and> ascii t"
  by (auto simp: ascii_def)

lemma decode_rune_ascii [simp]: "code c < 128 \<Longrightarrow> decode_rune (c # s) = (code c, 1)"
  by simp

declare decode_rune.simps(2) [simp del]

lemma runes_ascii: "ascii s \<Longrightarrow> runes s = map code s"
  by (induction s) auto

text \<open>A decoded sequence is decided by its own bytes.\<close>

lemma decode2_append: "decode2 b s = (r, n) \<Longrightarrow> n \<noteq> 1 \<Longrightarrow> decode2 b (s @ t) = (r, n)"
  by (cases "(b, s)" rule: decode2.cases) auto

lemma decode3_append: "decode3 b s = (r, n) \<Longrightarrow> n \<noteq> 1 \<Longrightarrow> decode3 b (s @ t) = (r, n)"
  by (cases "(b, s)" rule: decode3.cases) auto

lemma decode4_append: "decode4 b s = (r, n) \<Longrightarrow> n \<noteq> 1 \<Longrightarrow> decode4 b (s @ t) = (r, n)"
  by (cases "(b, s)" rule: decode4.cases) auto

lemma decode2_width1: "decode2 b s = (r, Suc 0) \<Longrightarrow> r = rune_error"
  by (cases "(b, s)" rule: decode2.cases) (auto split: if_splits)

lemma decode3_width1: "decode3 b s = (r, Suc 0) \<Longrightarrow> r = rune_error"
  by (cases "(b, s)" rule: decode3.cases) (auto split: if_splits)

lemma decode4_width1: "decode4 b s = (r, Suc 0) \<Longrightarrow> r = rune_error"
  by (cases "(b, s)" rule: decode4.cases) (auto split: if_splits)

lemma decode_rune_append:
  assumes "decode_rune s = (r, n)" "r \<noteq> rune_error"
  shows "decode_rune (s @ t) = (r, n)"
proof (cases s)
  case Nil
  then show ?thesis using assms by simp
next
  case (Cons c u)
  then show ?thesis using assms
    by (cases "n = 1")
      (auto simp: decode_rune.simps(2) Let_def decode2_append decode3_append decode4_append
        dest!: decode2_width1 decode3_width1 decode4_width1 split: if_splits)
qed

lemma decode_rune_pos [simp]: "s \<noteq> [] \<Longrightarrow> 0 < snd (decode_rune s)"
proof (cases s)
  case (Cons c u)
  have "0 < snd (decode2 b u)" for b by (cases "(b, u)" rule: decode2.cases) simp_all
  moreover have "0 < snd (decode3 b u)" for b by (cases "(b, u)" rule: decode3.cases) simp_all
  moreover have "0 < snd (decode4 b u)" for b by (cases "(b, u)" rule: decode4.cases) simp_all
  ultimately show ?thesis using Cons by (simp add: decode_rune.simps(2) Let_def)
qed simp

section \<open>Case conversion\<close>

definition rune_to_lower :: "rune \<Rightarrow> rune" where
  "rune_to_lower r =
     (if r < 128 then (if 65 \<le> r \<and> r \<le> 90 then r + 32 else r) else case_map lower_ranges r)"

definition rune_to_upper :: "rune \<Rightarrow> rune" where
  "rune_to_upper r =
     (if r < 128 then (if 97 \<le> r \<and> r \<le> 122 then r - 32 else r) else case_map upper_ranges r)"

definition to_lower :: "string \<Rightarrow> string" where
  "to_lower s = concat (map (encode_rune \<circ> rune_to_lower) (runes s))"

definition to_upper :: "string \<Rightarrow> string" where
  "to_upper s = concat (map (encode_rune \<circ> rune_to_upper) (runes s))"

text \<open>On ASCII strings both work byte by byte.\<close>

definition lower_char :: "char \<Rightarrow> char" where
  "lower_char c = (if 65 \<le> code c \<and> code c \<le> 90 then char_of (code c + 32) else c)"

definition upper_char :: "char \<Rightarrow> char" where
  "upper_char c = (if 97 \<le> code c \<and> code c \<le> 122 then char_of (code c - 32) else c)"

lemma code_lower_char: "code c < 128 \<Longrightarrow> code (lower_char c) < 128"
  by (auto simp: lower_char_def)

lemma encode_rune_ascii: "r < 128 \<Longrightarrow> encode_rune r = [char_of r]"
  by (simp add: encode_rune_def Let_def)

lemma encode_lower_ascii [simp]:
  "code c < 128 \<Longrightarrow> encode_rune (rune_to_lower (code c)) = [lower_char c]"
  by (auto simp: encode_rune_ascii rune_to_lower_def lower_char_def)

lemma encode_upper_ascii [simp]:
  "code c < 128 \<Longrightarrow> encode_rune (rune_to_upper (code c)) = [upper_char c]"
  by (auto simp: encode_rune_ascii rune_to_upper_def upper_char_def)

lemma to_lower_Nil [simp]: "to_lower [] = []"
  by (simp add: to_lower_def)

lemma to_upper_Nil [simp]: "to_upper [] = []"
  by (simp add: to_upper_def)

lemma to_lower_Cons_ascii [go_string]:
  "code c < 128 \<Longrightarrow> to_lower (c # s) = lower_char c # to_lower s"
  by (simp add: to_lower_def)

lemma to_upper_Cons_ascii [go_string]:
  "code c < 128 \<Longrightarrow> to_upper (c # s) = upper_char c # to_upper s"
  by (simp add: to_upper_def)

lemma to_lower_ascii: "ascii s \<Longrightarrow> to_lower s = map lower_char s"
  by (induction s) (auto simp: to_lower_Cons_ascii)

lemma to_upper_ascii: "ascii s \<Longrightarrow> to_upper s = map upper_char s"
  by (induction s) (auto simp: to_upper_Cons_ascii)

lemma to_lower_append_ascii: "ascii s \<Longrightarrow> to_lower (s @ t) = to_lower s @ to_lower t"
  by (induction s) (auto simp: to_lower_Cons_ascii)

lemma to_upper_append_ascii: "ascii s \<Longrightarrow> to_upper (s @ t) = to_upper s @ to_upper t"
  by (induction s) (auto simp: to_upper_Cons_ascii)

section \<open>TrimSpace\<close>

text \<open>\<open>unicode.IsSpace\<close>: the white space of Latin-1 and the property White\_Space above it.\<close>

definition is_space :: "rune \<Rightarrow> bool" where
  "is_space r \<longleftrightarrow> r \<in> {9, 10, 11, 12, 13, 32, 133, 160, 5760, 8232, 8233, 8239, 8287, 12288} \<or>
     (8192 \<le> r \<and> r \<le> 8202)"

lemma rune_error_not_space [simp]: "\<not> is_space rune_error"
  by (simp add: is_space_def rune_error_def)

function trim_left :: "string \<Rightarrow> string" where
  "trim_left s =
     (if s \<noteq> [] \<and> is_space (fst (decode_rune s))
      then trim_left (drop (snd (decode_rune s)) s) else s)"
  by pat_completeness auto
termination
  by (relation "measure length") auto

declare trim_left.simps [simp del]

text \<open>
  \<open>utf8.DecodeLastRuneInString\<close>: the last 2, 3 or 4 bytes when they are one encoded rune, else
  the last byte, which is its own rune below 128 and an error above.
\<close>

definition suffix_rune :: "nat \<Rightarrow> string \<Rightarrow> rune option" where
  "suffix_rune n s =
     (if n \<le> length s \<and> snd (decode_rune (drop (length s - n) s)) = n
      then Some (fst (decode_rune (drop (length s - n) s))) else None)"

definition decode_last_rune :: "string \<Rightarrow> rune \<times> nat" where
  "decode_last_rune s =
     (if s = [] then (rune_error, 0)
      else if code (last s) < 128 then (code (last s), 1)
      else case suffix_rune 2 s of Some r \<Rightarrow> (r, 2)
      | None \<Rightarrow> (case suffix_rune 3 s of Some r \<Rightarrow> (r, 3)
      | None \<Rightarrow> (case suffix_rune 4 s of Some r \<Rightarrow> (r, 4)
      | None \<Rightarrow> (rune_error, 1))))"

lemma decode_last_rune_pos [simp]: "s \<noteq> [] \<Longrightarrow> 0 < snd (decode_last_rune s)"
  by (simp add: decode_last_rune_def split: option.split)

function trim_right :: "string \<Rightarrow> string" where
  "trim_right s =
     (if s \<noteq> [] \<and> is_space (fst (decode_last_rune s))
      then trim_right (take (length s - snd (decode_last_rune s)) s) else s)"
  by pat_completeness auto
termination
  by (relation "measure length") auto

declare trim_right.simps [simp del]

definition trim_space :: "string \<Rightarrow> string" where
  "trim_space s = trim_right (trim_left s)"

lemma trim_left_Nil [simp]: "trim_left [] = []"
  by (simp add: trim_left.simps)

lemma trim_right_Nil [simp]: "trim_right [] = []"
  by (simp add: trim_right.simps)

lemma trim_space_Nil [simp]: "trim_space [] = []"
  by (simp add: trim_space_def)

text \<open>What is left is a piece of the string that starts and ends with no white space.\<close>

lemma decode_last_rune_Nil [simp]: "decode_last_rune [] = (rune_error, 0)"
  by (simp add: decode_last_rune_def)

lemma trim_left_done: "\<not> is_space (fst (decode_rune s)) \<Longrightarrow> trim_left s = s"
  by (simp add: trim_left.simps)

lemma trim_left_step:
  "is_space (fst (decode_rune s)) \<Longrightarrow> trim_left s = trim_left (drop (snd (decode_rune s)) s)"
  by (cases "s = []") (simp_all add: trim_left.simps [of s])

lemma trim_right_done: "\<not> is_space (fst (decode_last_rune s)) \<Longrightarrow> trim_right s = s"
  by (simp add: trim_right.simps)

lemma trim_right_step:
  "is_space (fst (decode_last_rune s)) \<Longrightarrow>
     trim_right s = trim_right (take (length s - snd (decode_last_rune s)) s)"
  by (cases "s = []") (simp_all add: trim_right.simps [of s])

lemma trim_left_start: "\<not> is_space (fst (decode_rune (trim_left s)))"
proof (induction s rule: trim_left.induct)
  case (1 s)
  show ?case
  proof (cases "is_space (fst (decode_rune s))")
    case True
    then have "s \<noteq> []" by auto
    then show ?thesis using True "1.IH" by (simp add: trim_left_step [of s])
  qed (simp add: trim_left_done)
qed

lemma trim_right_end: "\<not> is_space (fst (decode_last_rune (trim_right s)))"
proof (induction s rule: trim_right.induct)
  case (1 s)
  show ?case
  proof (cases "is_space (fst (decode_last_rune s))")
    case True
    then have "s \<noteq> []" by auto
    then show ?thesis using True "1.IH" by (simp add: trim_right_step [of s])
  qed (simp add: trim_right_done)
qed

lemma trim_right_prefix: "\<exists>t. s = trim_right s @ t"
proof (induction s rule: trim_right.induct)
  case (1 s)
  let ?k = "length s - snd (decode_last_rune s)"
  show ?case
  proof (cases "is_space (fst (decode_last_rune s))")
    case True
    then have "s \<noteq> []" by auto
    then obtain t where "take ?k s = trim_right (take ?k s) @ t"
      using True "1.IH" by blast
    then have "s = trim_right (take ?k s) @ t @ drop ?k s"
      by (metis append.assoc append_take_drop_id)
    then show ?thesis using True by (metis trim_right_step)
  qed (simp add: trim_right_done)
qed

lemma trim_left_trim_right: "trim_left (trim_right (trim_left s)) = trim_right (trim_left s)"
proof -
  let ?u = "trim_right (trim_left s)"
  obtain t where t: "trim_left s = ?u @ t" using trim_right_prefix by blast
  have "\<not> is_space (fst (decode_rune ?u))"
  proof
    assume sp: "is_space (fst (decode_rune ?u))"
    obtain r n where rn: "decode_rune ?u = (r, n)" by fastforce
    have "r \<noteq> rune_error" using sp rn by auto
    then have "decode_rune (trim_left s) = (r, n)"
      using decode_rune_append [OF rn, of t] t by simp
    then show False using sp rn trim_left_start [of s] by simp
  qed
  then show ?thesis by (rule trim_left_done)
qed

lemma trim_space_idem [simp]: "trim_space (trim_space s) = trim_space s"
  by (simp add: trim_space_def trim_left_trim_right trim_right_done [OF trim_right_end])

text \<open>A string that starts and ends with an ASCII byte other than white space stays.\<close>

definition solid :: "char \<Rightarrow> bool" where
  "solid c \<longleftrightarrow> code c < 128 \<and> \<not> is_space (code c)"

lemma is_space_ascii: "r < 128 \<Longrightarrow> is_space r \<longleftrightarrow> 9 \<le> r \<and> r \<le> 13 \<or> r = 32"
  by (auto simp: is_space_def)

lemma solid_code: "solid c \<longleftrightarrow> 33 \<le> code c \<and> code c < 128 \<or> code c < 9 \<or> 14 \<le> code c \<and> code c < 32"
  by (auto simp: solid_def is_space_ascii)

lemma trim_space_solid:
  assumes "s \<noteq> []" "solid (hd s)" "solid (last s)"
  shows "trim_space s = s"
proof -
  have "decode_rune s = (code (hd s), 1)"
    using assms by (cases s) (auto simp: solid_def)
  then have "trim_left s = s" using assms by (simp add: trim_left_done solid_def)
  moreover have "trim_right s = s"
    using assms by (simp add: trim_right_done decode_last_rune_def solid_def)
  ultimately show ?thesis by (simp add: trim_space_def)
qed

text \<open>ASCII white space around such a string is cut off.\<close>

definition blank :: "char \<Rightarrow> bool" where
  "blank c \<longleftrightarrow> code c < 128 \<and> is_space (code c)"

lemma trim_left_blanks: "\<forall>c \<in> set w. blank c \<Longrightarrow> trim_left (w @ s) = trim_left s"
  by (induction w) (simp_all add: trim_left.simps [of "_ # _"] blank_def)

lemma trim_right_blanks: "\<forall>c \<in> set w. blank c \<Longrightarrow> trim_right (s @ w) = trim_right s"
proof (induction w rule: rev_induct)
  case (snoc c w)
  then have "decode_last_rune (s @ w @ [c]) = (code c, 1)"
    by (simp add: decode_last_rune_def blank_def)
  then have "trim_right (s @ w @ [c]) = trim_right (s @ w)"
    using snoc.prems trim_right_step [of "s @ w @ [c]"] by (simp add: blank_def)
  then show ?case using snoc by simp
qed simp

lemma trim_space_blanks:
  assumes "\<forall>c \<in> set w. blank c" "\<forall>c \<in> set v. blank c" "s \<noteq> []" "solid (hd s)" "solid (last s)"
  shows "trim_space (w @ s @ v) = s"
proof -
  have "trim_left (s @ v) = s @ v"
    using assms by (intro trim_left_done) (cases s; simp add: solid_def)
  then show ?thesis using assms trim_space_solid [of s]
    by (simp add: trim_space_def trim_left_blanks trim_right_blanks trim_left_done)
      (cases s; simp add: solid_def trim_left_done)
qed

lemma trim_left_set: "set (trim_left s) \<subseteq> set s"
  by (induction s rule: trim_left.induct) (subst trim_left.simps, auto dest: in_set_dropD)

lemma trim_space_set: "set (trim_space s) \<subseteq> set s"
proof -
  obtain t where "trim_left s = trim_right (trim_left s) @ t" using trim_right_prefix by blast
  then have "set (trim_right (trim_left s)) \<subseteq> set (trim_left s)" by (metis set_append sup_ge1)
  then show ?thesis using trim_left_set [of s] by (auto simp: trim_space_def)
qed

text \<open>Trimming never removes an ASCII character that is not white space.\<close>

lemma decode_tail:
  "decode2 b u = (r, n) \<Longrightarrow> \<forall>c \<in> set (take (n - 1) u). 128 \<le> code c"
  "decode3 b u = (r, n) \<Longrightarrow> \<forall>c \<in> set (take (n - 1) u). 128 \<le> code c"
  "decode4 b u = (r, n) \<Longrightarrow> \<forall>c \<in> set (take (n - 1) u). 128 \<le> code c"
proof -
  show "decode2 b u = (r, n) \<Longrightarrow> \<forall>c \<in> set (take (n - 1) u). 128 \<le> code c"
    by (cases "(b, u)" rule: decode2.cases) (auto simp: second_ok_def is_cont_def split: if_splits)
  show "decode3 b u = (r, n) \<Longrightarrow> \<forall>c \<in> set (take (n - 1) u). 128 \<le> code c"
    by (cases "(b, u)" rule: decode3.cases) (auto simp: second_ok_def is_cont_def split: if_splits)
  show "decode4 b u = (r, n) \<Longrightarrow> \<forall>c \<in> set (take (n - 1) u). 128 \<le> code c"
    by (cases "(b, u)" rule: decode4.cases) (auto simp: second_ok_def is_cont_def split: if_splits)
qed

lemma space_rune_chars:
  assumes "is_space (fst (decode_rune s))" "c \<in> set (take (snd (decode_rune s)) s)" "code c < 128"
  shows "is_space (code c)"
proof (cases s)
  case (Cons x u)
  obtain r n where d: "decode_rune (x # u) = (r, n)" by fastforce
  have n: "0 < n" using decode_rune_pos [of "x # u"] d by simp
  have "c \<in> set (take (n - 1) u) \<Longrightarrow> 128 \<le> code c"
    using d decode_tail [of "code x" u r n] by (auto simp: decode_rune.simps(2) Let_def split: if_splits)
  moreover have "c = x \<or> c \<in> set (take (n - 1) u)" using assms(2) d n by (cases n) (auto simp: Cons)
  ultimately have "c = x" using assms(3) by force
  then show ?thesis using assms(1,3) by (simp add: Cons)
qed (use assms in simp)

lemma kept_left: "c \<in> set s \<Longrightarrow> code c < 128 \<Longrightarrow> \<not> is_space (code c) \<Longrightarrow> c \<in> set (trim_left s)"
proof (induction s rule: trim_left.induct)
  case (1 s)
  show ?case
  proof (cases "s \<noteq> [] \<and> is_space (fst (decode_rune s))")
    case True
    let ?n = "snd (decode_rune s)"
    have "c \<notin> set (take ?n s)" using space_rune_chars True 1(3,4) by blast
    then have "c \<in> set (drop ?n s)" using 1(2) by (metis append_take_drop_id Un_iff set_append)
    then show ?thesis using 1 True by (simp add: trim_left.simps [of s])
  qed (use 1 in \<open>auto simp: trim_left.simps [of s]\<close>)
qed

lemma last_rune_chars:
  assumes "s \<noteq> []" "is_space (fst (decode_last_rune s))" "c \<in> set (drop (length s - snd (decode_last_rune s)) s)" "code c < 128"
  shows "is_space (code c)"
proof (cases "code (last s) < 128")
  case True
  then have "drop (length s - 1) s = [last s]"
    using assms(1) by (metis append_butlast_last_id append_eq_conv_conj length_butlast)
  then show ?thesis using True assms by (simp add: decode_last_rune_def)
next
  case False
  have suffix: "is_space (code c)" if "suffix_rune n s = Some r" "is_space r" "c \<in> set (drop (length s - n) s)" for n r
    using that space_rune_chars [of "drop (length s - n) s" c] assms(4) by (auto simp: suffix_rune_def split: if_splits)
  show ?thesis using assms False suffix
    by (auto simp: decode_last_rune_def split: option.splits)
qed

lemma kept_right: "c \<in> set s \<Longrightarrow> code c < 128 \<Longrightarrow> \<not> is_space (code c) \<Longrightarrow> c \<in> set (trim_right s)"
proof (induction s rule: trim_right.induct)
  case (1 s)
  show ?case
  proof (cases "s \<noteq> [] \<and> is_space (fst (decode_last_rune s))")
    case True
    let ?n = "length s - snd (decode_last_rune s)"
    have "c \<notin> set (drop ?n s)" using last_rune_chars True 1(3,4) by blast
    then have "c \<in> set (take ?n s)" using 1(2) by (metis append_take_drop_id Un_iff set_append)
    then show ?thesis using 1 True by (simp add: trim_right.simps [of s])
  qed (use 1 in \<open>auto simp: trim_right.simps [of s]\<close>)
qed

lemma kept: "c \<in> set s \<Longrightarrow> code c < 128 \<Longrightarrow> \<not> is_space (code c) \<Longrightarrow> trim_space s \<noteq> []"
  using kept_left kept_right by (fastforce simp: trim_space_def)

section \<open>Split\<close>

text \<open>\<open>strings.Split\<close> at a separator of one byte: always at least one part.\<close>

fun split :: "char \<Rightarrow> string \<Rightarrow> string list" where
  "split sep [] = [[]]"
| "split sep (c # s) =
     (if c = sep then [] # split sep s
      else case split sep s of p # ps \<Rightarrow> (c # p) # ps | [] \<Rightarrow> [[c]])"

lemma split_nonempty [simp]: "split sep s \<noteq> []"
  by (induction s) (auto split: list.splits)

lemma split_no_sep: "p \<in> set (split sep s) \<Longrightarrow> sep \<notin> set p"
  by (induction s arbitrary: p) (auto split: list.splits if_splits)

lemma set_split: "p \<in> set (split sep s) \<Longrightarrow> set p \<subseteq> set s"
proof (induction s arbitrary: p)
  case (Cons c s)
  then show ?case
    by (cases "split sep s") (auto split: if_splits, blast+)
qed simp

lemma split_append_sep: "sep \<notin> set p \<Longrightarrow> split sep (p @ sep # s) = p # split sep s"
  by (induction p) auto

lemma split_no: "sep \<notin> set p \<Longrightarrow> split sep p = [p]"
  by (induction p) auto

end
