(* ===== verification/Go_Encoding.thy ===== *)
theory Go_Encoding
  imports Prelude
begin

text \<open>
  Go's \<open>encoding/base64\<close> (the padded standard encoding, not strict about trailing bits) and
  \<open>encoding/hex\<close>, with the round trip of the first and the alphabets and lengths of both.
\<close>

section \<open>Base64\<close>

text \<open>The alphabet is \<open>A\<close> to \<open>Z\<close>, \<open>a\<close> to \<open>z\<close>, \<open>0\<close> to \<open>9\<close>, \<open>+\<close> and \<open>/\<close>, in this order.\<close>

definition b64_char :: "nat \<Rightarrow> char" where
  "b64_char n =
     (if n < 26 then char_of (65 + n)
      else if n < 52 then char_of (71 + n)
      else if n < 62 then char_of (n - 4)
      else if n = 62 then CHR ''+'' else CHR ''/'')"

definition b64_val :: "char \<Rightarrow> nat option" where
  "b64_val c =
     (if 65 \<le> code c \<and> code c \<le> 90 then Some (code c - 65)
      else if 97 \<le> code c \<and> code c \<le> 122 then Some (code c - 71)
      else if 48 \<le> code c \<and> code c \<le> 57 then Some (code c + 4)
      else if c = CHR ''+'' then Some 62
      else if c = CHR ''/'' then Some 63
      else None)"

text \<open>Three bytes are four digits; a rest of one or two bytes is padded.\<close>

fun b64_encode :: "bytes \<Rightarrow> string" where
  "b64_encode [] = []"
| "b64_encode [a] =
     [b64_char (unat a div 4), b64_char (unat a mod 4 * 16), CHR ''='', CHR ''='']"
| "b64_encode [a, b] =
     [b64_char (unat a div 4), b64_char (unat a mod 4 * 16 + unat b div 16),
      b64_char (unat b mod 16 * 4), CHR ''='']"
| "b64_encode (a # b # c # bs) =
     b64_char (unat a div 4) # b64_char (unat a mod 4 * 16 + unat b div 16) #
     b64_char (unat b mod 16 * 4 + unat c div 64) # b64_char (unat c mod 64) # b64_encode bs"

definition byte_of_nat :: "nat \<Rightarrow> byte" where
  "byte_of_nat n = word_of_nat n"

lemma byte_of_nat_unat [simp]: "byte_of_nat (unat b) = b"
  by (simp add: byte_of_nat_def)

text \<open>
  Decoding. Carriage returns and line feeds are skipped; padding ends the input; the low bits
  of the last digit before padding are dropped.
\<close>

fun b64_quanta :: "string \<Rightarrow> bytes option" where
  "b64_quanta [] = Some []"
| "b64_quanta (a # b # c # d # s) =
     (case (b64_val a, b64_val b) of
        (Some x, Some y) \<Rightarrow>
          if c = CHR ''='' then
            (if d = CHR ''='' \<and> s = [] then Some [byte_of_nat (x * 4 + y div 16)] else None)
          else (case b64_val c of
            None \<Rightarrow> None
          | Some z \<Rightarrow>
              if d = CHR ''='' then
                (if s = [] then Some [byte_of_nat (x * 4 + y div 16), byte_of_nat (y mod 16 * 16 + z div 4)]
                 else None)
              else (case (b64_val d, b64_quanta s) of
                (Some u, Some bs) \<Rightarrow>
                  Some (byte_of_nat (x * 4 + y div 16) # byte_of_nat (y mod 16 * 16 + z div 4) #
                        byte_of_nat (z mod 4 * 64 + u) # bs)
              | _ \<Rightarrow> None))
      | _ \<Rightarrow> None)"
| "b64_quanta s = None"

definition not_newline :: "char \<Rightarrow> bool" where
  "not_newline c \<longleftrightarrow> code c \<noteq> 10 \<and> code c \<noteq> 13"

definition b64_decode :: "string \<Rightarrow> bytes option" where
  "b64_decode s = b64_quanta (filter not_newline s)"

lemma code_b64_char:
  "n < 64 \<Longrightarrow> code (b64_char n) =
     (if n < 26 then 65 + n else if n < 52 then 71 + n else if n < 62 then n - 4
      else if n = 62 then 43 else 47)"
  by (simp add: b64_char_def)

lemma char_eq_code: "c = d \<longleftrightarrow> code c = code d"
  by simp

lemma b64_val_char [simp]:
  assumes "n < 64"
  shows "b64_val (b64_char n) = Some n" "b64_char n \<noteq> CHR ''=''" "not_newline (b64_char n)"
    "code (b64_char n) < 128"
proof -
  have "b64_char n = c \<longleftrightarrow> code (b64_char n) = code c" for c by simp
  note c = this code_b64_char [OF assms]
  show "b64_val (b64_char n) = Some n" using assms unfolding b64_val_def c by auto
  show "b64_char n \<noteq> CHR ''=''" using assms unfolding c by auto
  show "not_newline (b64_char n)" using assms unfolding not_newline_def c by auto
  show "code (b64_char n) < 128" using assms unfolding c by auto
qed

lemma byte_bound [simp]: "unat (b :: byte) < 256"
  using unsigned_less [of b, where ?'a = nat] by simp

lemma sextet_bounds:
  fixes x y :: nat
  assumes "x < 256" "y < 256"
  shows "x div 4 < 64" "x mod 4 * 16 < 64" "x mod 4 * 16 + y div 16 < 64"
    "x mod 16 * 4 < 64" "x mod 16 * 4 + y div 64 < 64" "x mod 64 < 64"
proof -
  have "x div 4 < 64" "y div 16 < 16" "y div 64 < 4" using assms by auto
  moreover have "x mod 4 < 4" "x mod 16 < 16" "x mod 64 < 64" by simp_all
  ultimately show "x div 4 < 64" "x mod 4 * 16 < 64" "x mod 4 * 16 + y div 16 < 64"
    "x mod 16 * 4 < 64" "x mod 16 * 4 + y div 64 < 64" "x mod 64 < 64"
    by linarith+
qed

lemma digit_bounds [simp]:
  "unat (a :: byte) div 4 < 64" "unat a mod 4 * 16 < 64" "unat a mod 4 * 16 + unat (b :: byte) div 16 < 64"
  "unat b mod 16 * 4 < 64" "unat b mod 16 * 4 + unat (c :: byte) div 64 < 64" "unat c mod 64 < 64"
  by (fact sextet_bounds [OF byte_bound byte_bound])+

text \<open>The three bytes of a quantum are read back from its four digits.\<close>

lemma sextets:
  fixes x y z :: nat
  assumes "x < 256" "y < 256" "z < 256"
  shows "x div 4 * 4 + x mod 4 * 16 div 16 = x"
    "x div 4 * 4 + (x mod 4 * 16 + y div 16) div 16 = x"
    "(x mod 4 * 16 + y div 16) mod 16 * 16 + y mod 16 * 4 div 4 = y"
    "(x mod 4 * 16 + y div 16) mod 16 * 16 + (y mod 16 * 4 + z div 64) div 4 = y"
    "(y mod 16 * 4 + z div 64) mod 4 * 64 + z mod 64 = z"
proof -
  have "y div 16 < 16" "z div 64 < 4" using assms by auto
  then have "(x mod 4 * 16 + y div 16) div 16 = x mod 4" "(x mod 4 * 16 + y div 16) mod 16 = y div 16"
    "(y mod 16 * 4 + z div 64) div 4 = y mod 16" "(y mod 16 * 4 + z div 64) mod 4 = z div 64"
    by auto
  then show "x div 4 * 4 + x mod 4 * 16 div 16 = x"
    "x div 4 * 4 + (x mod 4 * 16 + y div 16) div 16 = x"
    "(x mod 4 * 16 + y div 16) mod 16 * 16 + y mod 16 * 4 div 4 = y"
    "(x mod 4 * 16 + y div 16) mod 16 * 16 + (y mod 16 * 4 + z div 64) div 4 = y"
    "(y mod 16 * 4 + z div 64) mod 4 * 64 + z mod 64 = z"
    by simp_all
qed

lemma byte_sextets [simp]:
  fixes a b c :: byte
  shows "byte_of_nat (unat a div 4 * 4 + unat a mod 4 * 16 div 16) = a"
    "byte_of_nat (unat a div 4 * 4 + (unat a mod 4 * 16 + unat b div 16) div 16) = a"
    "byte_of_nat ((unat a mod 4 * 16 + unat b div 16) mod 16 * 16 + unat b mod 16 * 4 div 4) = b"
    "byte_of_nat ((unat a mod 4 * 16 + unat b div 16) mod 16 * 16 +
       (unat b mod 16 * 4 + unat c div 64) div 4) = b"
    "byte_of_nat ((unat b mod 16 * 4 + unat c div 64) mod 4 * 64 + unat c mod 64) = c"
  by (simp_all only: sextets [OF byte_bound byte_bound byte_bound] byte_of_nat_unat)

lemma not_newline_pad [simp]: "not_newline (CHR ''='')"
  by (simp add: not_newline_def)

lemma b64_encode_no_newline [simp]: "filter not_newline (b64_encode bs) = b64_encode bs"
  by (induction bs rule: b64_encode.induct) auto

lemma b64_quanta_encode: "b64_quanta (b64_encode bs) = Some bs"
proof (induction bs rule: b64_encode.induct)
  case (2 a)
  show ?case by (simp only: b64_encode.simps b64_quanta.simps b64_val_char digit_bounds
      option.case prod.case byte_sextets if_True simp_thms)
next
  case (3 a b)
  show ?case by (simp only: b64_encode.simps b64_quanta.simps b64_val_char digit_bounds
      option.case prod.case byte_sextets if_True if_False simp_thms)
next
  case (4 a b c bs)
  then show ?case by (simp only: b64_encode.simps b64_quanta.simps b64_val_char digit_bounds
      option.case prod.case byte_sextets if_True if_False simp_thms)
qed simp

lemma b64_decode_encode [simp]: "b64_decode (b64_encode bs) = Some bs"
  by (simp add: b64_decode_def b64_quanta_encode)

lemma length_b64_encode: "length (b64_encode bs) = 4 * ((length bs + 2) div 3)"
proof (induction bs rule: b64_encode.induct)
  case (4 a b c bs)
  have "(length (a # b # c # bs) + 2) div 3 = Suc ((length bs + 2) div 3)" by simp
  then show ?case using 4 by simp
qed auto

lemma b64_encode_Nil [simp]: "b64_encode bs = [] \<longleftrightarrow> bs = []"
  by (cases bs rule: b64_encode.cases) auto

lemma ascii_b64_encode: "\<forall>c \<in> set (b64_encode bs). code c < 128"
  by (induction bs rule: b64_encode.induct) auto

lemma b64_char_pos: "0 < code (b64_char n)"
proof (cases "n < 64")
  case True
  then show ?thesis by (simp add: code_b64_char)
qed (simp add: b64_char_def)

lemma b64_encode_pos: "\<forall>c \<in> set (b64_encode bs). 0 < code c"
  by (induction bs rule: b64_encode.induct) (simp_all add: b64_char_pos)

lemma b64_encode_text: "\<forall>c \<in> set (b64_encode bs). 0 < code c \<and> code c < 128"
  using b64_encode_pos ascii_b64_encode by blast

section \<open>Hexadecimal\<close>

definition hex_digit :: "nat \<Rightarrow> char" where
  "hex_digit n = ''0123456789abcdef'' ! n"

fun hex_encode :: "bytes \<Rightarrow> string" where
  "hex_encode [] = []"
| "hex_encode (b # bs) = hex_digit (unat b div 16) # hex_digit (unat b mod 16) # hex_encode bs"

lemma length_hex_encode [simp]: "length (hex_encode bs) = 2 * length bs"
  by (induction bs) auto

lemma hex_digit_inj: "m < 16 \<Longrightarrow> n < 16 \<Longrightarrow> hex_digit m = hex_digit n \<Longrightarrow> m = n"
  using nth_eq_iff_index_eq [of "''0123456789abcdef''" m n] by (simp add: hex_digit_def)

lemma hex_encode_inject [simp]: "hex_encode as = hex_encode bs \<longleftrightarrow> as = bs"
proof
  show "hex_encode as = hex_encode bs \<Longrightarrow> as = bs"
  proof (induction as arbitrary: bs)
    case Nil
    then show ?case by (cases bs) auto
  next
    case (Cons a as)
    then obtain b cs where bs: "bs = b # cs" by (cases bs) auto
    have lt: "unat a div 16 < 16" "unat b div 16 < 16" "unat a mod 16 < 16" "unat b mod 16 < 16"
      using byte_bound [of a] byte_bound [of b] by (simp_all add: less_mult_imp_div_less)
    have "hex_digit (unat a div 16) = hex_digit (unat b div 16)"
      "hex_digit (unat a mod 16) = hex_digit (unat b mod 16)"
      using Cons.prems bs by simp_all
    then have "unat a div 16 = unat b div 16" "unat a mod 16 = unat b mod 16"
      using lt hex_digit_inj by blast+
    then have "unat a = unat b" by (metis div_mult_mod_eq)
    then show ?case using Cons bs by (simp add: word_unat_eq_iff)
  qed
qed simp

lemma hex_digit_text: "n < 16 \<Longrightarrow> 0 < code (hex_digit n) \<and> code (hex_digit n) < 128"
proof -
  assume "n < 16"
  then have "hex_digit n \<in> set ''0123456789abcdef''" unfolding hex_digit_def by (intro nth_mem) simp
  then show ?thesis by auto
qed

lemma hex_encode_text: "\<forall>c \<in> set (hex_encode bs). 0 < code c \<and> code c < 128"
proof (induction bs)
  case (Cons b bs)
  have "unat b div 16 < 16" "unat b mod 16 < 16"
    using byte_bound [of b] by (simp_all add: less_mult_imp_div_less)
  then show ?case using Cons hex_digit_text by simp
qed simp

end
