(* ===== verification/Go_Aes_Gcm.thy ===== *)
theory Go_Aes_Gcm
  imports Prelude
begin

text \<open>
  Go's \<open>crypto/aes\<close> and \<open>crypto/cipher\<close>: AES-256 of FIPS 197 (encryption of one block, which is
  all that GCM needs) and GCM of SP 800-38D with a 12 byte nonce, a 16 byte tag and no
  additional data. A \<open>cipher.AEAD\<close> is the record \<open>aead\<close> of its three methods. \<open>Seal\<close> is modelled
  below its limit of \<open>2 ^ 36 - 32\<close> bytes of plaintext, where it panics; a request body is
  limited to a few megabytes.
\<close>

section \<open>The interface \<open>cipher.AEAD\<close>\<close>

record aead =
  nonce_size :: nat
  seal :: "bytes \<Rightarrow> bytes \<Rightarrow> bytes"
  open_sealed :: "bytes \<Rightarrow> bytes \<Rightarrow> bytes option"

section \<open>AES-256\<close>

definition sbox :: "nat list" where
  "sbox =
    [99, 124, 119, 123, 242, 107, 111, 197, 48, 1, 103, 43, 254, 215, 171, 118,
     202, 130, 201, 125, 250, 89, 71, 240, 173, 212, 162, 175, 156, 164, 114, 192,
     183, 253, 147, 38, 54, 63, 247, 204, 52, 165, 229, 241, 113, 216, 49, 21,
     4, 199, 35, 195, 24, 150, 5, 154, 7, 18, 128, 226, 235, 39, 178, 117,
     9, 131, 44, 26, 27, 110, 90, 160, 82, 59, 214, 179, 41, 227, 47, 132,
     83, 209, 0, 237, 32, 252, 177, 91, 106, 203, 190, 57, 74, 76, 88, 207,
     208, 239, 170, 251, 67, 77, 51, 133, 69, 249, 2, 127, 80, 60, 159, 168,
     81, 163, 64, 143, 146, 157, 56, 245, 188, 182, 218, 33, 16, 255, 243, 210,
     205, 12, 19, 236, 95, 151, 68, 23, 196, 167, 126, 61, 100, 93, 25, 115,
     96, 129, 79, 220, 34, 42, 144, 136, 70, 238, 184, 20, 222, 94, 11, 219,
     224, 50, 58, 10, 73, 6, 36, 92, 194, 211, 172, 98, 145, 149, 228, 121,
     231, 200, 55, 109, 141, 213, 78, 169, 108, 86, 244, 234, 101, 122, 174, 8,
     186, 120, 37, 46, 28, 166, 180, 198, 232, 221, 116, 31, 75, 189, 139, 138,
     112, 62, 181, 102, 72, 3, 246, 14, 97, 53, 87, 185, 134, 193, 29, 158,
     225, 248, 152, 17, 105, 217, 142, 148, 155, 30, 135, 233, 206, 85, 40, 223,
     140, 161, 137, 13, 191, 230, 66, 104, 65, 153, 45, 15, 176, 84, 187, 22]"

definition sub_byte :: "byte \<Rightarrow> byte" where
  "sub_byte b = word_of_nat (sbox ! unat b)"

definition xtime :: "byte \<Rightarrow> byte" where
  "xtime b = (if bit b 7 then push_bit 1 b XOR 0x1B else push_bit 1 b)"

definition xor_bytes :: "bytes \<Rightarrow> bytes \<Rightarrow> bytes" where
  "xor_bytes as bs = map2 (XOR) as bs"

text \<open>Key expansion to sixty words of four bytes, latest word first.\<close>

definition rot_sub :: "bytes \<Rightarrow> bytes" where
  "rot_sub w = map sub_byte (rotate1 w)"

fun expand_key :: "nat \<Rightarrow> nat \<Rightarrow> byte \<Rightarrow> bytes list \<Rightarrow> bytes list" where
  "expand_key 0 i rcon ws = ws"
| "expand_key (Suc n) i rcon ws =
     (if i mod 8 = 0 then
        expand_key n (Suc i) (xtime rcon)
          (xor_bytes (ws ! 7) (xor_bytes (rot_sub (ws ! 0)) [rcon, 0, 0, 0]) # ws)
      else if i mod 8 = 4 then
        expand_key n (Suc i) rcon (xor_bytes (ws ! 7) (map sub_byte (ws ! 0)) # ws)
      else expand_key n (Suc i) rcon (xor_bytes (ws ! 7) (ws ! 0) # ws))"

definition key_words :: "bytes \<Rightarrow> bytes list" where
  "key_words k = rev (expand_key 52 8 1 (rev (map (\<lambda>i. take 4 (drop (4 * i) k)) [0..<8])))"

definition round_key :: "bytes list \<Rightarrow> nat \<Rightarrow> bytes" where
  "round_key ws r = concat (take 4 (drop (4 * r) ws))"

text \<open>A block is its sixteen bytes, column by column.\<close>

definition add_round_key :: "bytes \<Rightarrow> bytes \<Rightarrow> bytes" where
  "add_round_key k s = map (\<lambda>i. s ! i XOR k ! i) [0..<16]"

definition shift_rows :: "bytes \<Rightarrow> bytes" where
  "shift_rows s = map (\<lambda>i. s ! ((i + 4 * (i mod 4)) mod 16)) [0..<16]"

definition mix_columns :: "bytes \<Rightarrow> bytes" where
  "mix_columns s =
     map (\<lambda>i. let c = 4 * (i div 4); r = i mod 4; a = s ! (c + r); b = s ! (c + (r + 1) mod 4)
              in xtime a XOR (xtime b XOR b) XOR s ! (c + (r + 2) mod 4) XOR s ! (c + (r + 3) mod 4))
       [0..<16]"

definition aes_round :: "bytes \<Rightarrow> bytes \<Rightarrow> bytes" where
  "aes_round k s = add_round_key k (mix_columns (shift_rows (map sub_byte s)))"

definition aes256 :: "bytes \<Rightarrow> bytes \<Rightarrow> bytes" where
  "aes256 k block =
     (let ws = key_words k
      in add_round_key (round_key ws 14) (shift_rows (map sub_byte
           (fold (\<lambda>r. aes_round (round_key ws r)) [1..<14] (add_round_key (round_key ws 0) block)))))"

lemma length_aes256 [simp]: "length (aes256 k block) = 16"
  by (simp add: aes256_def add_round_key_def Let_def)

section \<open>GCM\<close>

type_synonym w128 = "128 word"

definition w128_of_bytes :: "bytes \<Rightarrow> w128" where
  "w128_of_bytes bs = foldl (\<lambda>x b. push_bit 8 x OR ucast b) 0 bs"

definition bytes_of_w128 :: "w128 \<Rightarrow> bytes" where
  "bytes_of_w128 x = map (\<lambda>i. ucast (drop_bit (8 * (15 - i)) x)) [0..<16]"

text \<open>The product in GF(2^128); bit 127 of a word is the first bit of a block.\<close>

fun gf_mult :: "nat \<Rightarrow> w128 \<Rightarrow> w128 \<Rightarrow> w128 \<Rightarrow> w128" where
  "gf_mult 0 x v z = z"
| "gf_mult (Suc i) x v z =
     gf_mult i x (if bit v 0 then drop_bit 1 v XOR push_bit 120 0xE1 else drop_bit 1 v)
       (if bit x i then z XOR v else z)"

function ghash :: "w128 \<Rightarrow> bytes \<Rightarrow> w128 \<Rightarrow> w128" where
  "ghash h bs y =
     (if bs = [] then y
      else ghash h (drop 16 bs) (gf_mult 128 (y XOR w128_of_bytes (take 16 bs)) h 0))"
  by pat_completeness auto
termination
  by (relation "measure (\<lambda>(h, bs, y). length bs)") auto

declare ghash.simps [simp del]

definition pad16 :: "bytes \<Rightarrow> bytes" where
  "pad16 bs = bs @ replicate ((16 - length bs mod 16) mod 16) 0"

definition counter_block :: "bytes \<Rightarrow> nat \<Rightarrow> bytes" where
  "counter_block nonce n =
     nonce @ map (\<lambda>i. word_of_nat (n div 256 ^ (3 - i))) [0..<4]"

text \<open>Counter mode, which encrypts and decrypts.\<close>

function ctr_xor :: "bytes \<Rightarrow> bytes \<Rightarrow> nat \<Rightarrow> bytes \<Rightarrow> bytes" where
  "ctr_xor k nonce n bs =
     (if bs = [] then []
      else xor_bytes (take 16 bs) (aes256 k (counter_block nonce n)) @
        ctr_xor k nonce (Suc n) (drop 16 bs))"
  by pat_completeness auto
termination
  by (relation "measure (\<lambda>(k, nonce, n, bs). length bs)") auto

declare ctr_xor.simps [simp del]

definition gcm_tag :: "bytes \<Rightarrow> bytes \<Rightarrow> bytes \<Rightarrow> bytes" where
  "gcm_tag k nonce ct =
     (let h = w128_of_bytes (aes256 k (replicate 16 0));
          len = word_of_nat (8 * length ct);
          y = gf_mult 128 (ghash h (pad16 ct) 0 XOR len) h 0
      in bytes_of_w128 (y XOR w128_of_bytes (aes256 k (counter_block nonce 1))))"

definition gcm_seal :: "bytes \<Rightarrow> bytes \<Rightarrow> bytes \<Rightarrow> bytes" where
  "gcm_seal k nonce pt = (let ct = ctr_xor k nonce 2 pt in ct @ gcm_tag k nonce ct)"

definition gcm_open :: "bytes \<Rightarrow> bytes \<Rightarrow> bytes \<Rightarrow> bytes option" where
  "gcm_open k nonce sealed =
     (if length sealed < 16 then None
      else let n = length sealed - 16; ct = take n sealed
           in if drop n sealed = gcm_tag k nonce ct then Some (ctr_xor k nonce 2 ct) else None)"

definition new_gcm :: "bytes \<Rightarrow> aead" where
  "new_gcm k = \<lparr>nonce_size = 12, seal = gcm_seal k, open_sealed = gcm_open k\<rparr>"

lemma length_gcm_tag [simp]: "length (gcm_tag k nonce ct) = 16"
  by (simp add: gcm_tag_def bytes_of_w128_def Let_def)

lemma length_xor_bytes [simp]: "length (xor_bytes as bs) = min (length as) (length bs)"
  by (simp add: xor_bytes_def)

lemma xor_bytes_twice:
  "length as \<le> length bs \<Longrightarrow> xor_bytes (xor_bytes as bs) bs = as"
  unfolding xor_bytes_def
  by (induction as bs rule: list_induct2') (auto simp: xor.assoc)

lemma ctr_xor_Nil [simp]: "ctr_xor k nonce n [] = []"
  by (simp add: ctr_xor.simps)

lemma ctr_xor_step:
  "bs \<noteq> [] \<Longrightarrow> ctr_xor k nonce n bs =
     xor_bytes (take 16 bs) (aes256 k (counter_block nonce n)) @ ctr_xor k nonce (Suc n) (drop 16 bs)"
  by (simp add: ctr_xor.simps [of k nonce n bs])

lemma length_ctr_xor [simp]: "length (ctr_xor k nonce n bs) = length bs"
proof (induction k nonce n bs rule: ctr_xor.induct)
  case (1 k nonce n bs)
  then show ?case by (cases "bs = []") (simp_all add: ctr_xor_step)
qed

lemma ctr_xor_twice [simp]: "ctr_xor k nonce n (ctr_xor k nonce n bs) = bs"
proof (induction k nonce n bs rule: ctr_xor.induct)
  case (1 k nonce n bs)
  show ?case
  proof (cases "bs = []")
    case False
    let ?b = "aes256 k (counter_block nonce n)"
    let ?x = "xor_bytes (take 16 bs) ?b"
    let ?c = "ctr_xor k nonce (Suc n) (drop 16 bs)"
    have len: "length ?x = min 16 (length bs)" by simp
    have enc: "ctr_xor k nonce n bs = ?x @ ?c" by (rule ctr_xor_step [OF False])
    have ne: "?x @ ?c \<noteq> []" using False by (metis enc length_0_conv length_ctr_xor)
    have td: "take 16 (?x @ ?c) = ?x" "drop 16 (?x @ ?c) = ?c"
      using len by (cases "length bs \<le> 16"; simp)+
    have "ctr_xor k nonce n (?x @ ?c) = xor_bytes ?x ?b @ ctr_xor k nonce (Suc n) ?c"
      using ctr_xor_step [OF ne, of k nonce n] by (simp only: td)
    also have "\<dots> = take 16 bs @ drop 16 bs"
      using "1.IH" [OF False] by (simp only: xor_bytes_twice length_take length_aes256 min.cobounded2)
    finally show ?thesis by (simp only: enc append_take_drop_id)
  qed simp
qed

lemma gcm_open_seal [simp]: "gcm_open k nonce (gcm_seal k nonce pt) = Some pt"
  by (simp add: gcm_open_def gcm_seal_def Let_def)

lemma length_gcm_seal [simp]: "length (gcm_seal k nonce pt) = length pt + 16"
  by (simp add: gcm_seal_def Let_def)

lemma gcm_open_Some:
  assumes "gcm_open k nonce ct = Some pt"
  shows "ct = gcm_seal k nonce pt"
proof -
  let ?n = "length ct - 16"
  have "drop ?n ct = gcm_tag k nonce (take ?n ct)" "ctr_xor k nonce 2 (take ?n ct) = pt"
    using assms by (auto simp: gcm_open_def Let_def split: if_splits)
  then have "take ?n ct = ctr_xor k nonce 2 pt" "drop ?n ct = gcm_tag k nonce (take ?n ct)"
    by (metis ctr_xor_twice)+
  then show ?thesis by (metis append_take_drop_id gcm_seal_def)
qed

lemma gcm_open_length: "gcm_open k nonce ct = Some pt \<Longrightarrow> length ct = length pt + 16"
  by (auto simp: gcm_open_def Let_def split: if_splits)

end
