(* ===== verification/Crypto.thy ===== *)
theory Crypto
  imports Go_Strings Go_Encoding Go_Sha256 Go_Aes_Gcm
begin

text \<open>
  The package \<open>internal/crypto\<close>: the cipher for personal data at rest, the blind index that
  makes encrypted rows searchable, and the signer of verification codes. The randomness that
  \<open>Encrypt\<close> reads is an explicit argument, the bytes that \<open>rand.Reader\<close> will deliver; reading
  more than it has is the error of \<open>io.ReadFull\<close>. The interfaces that the repository relies on
  are the locales \<open>pii_cipher\<close>, \<open>blind_index\<close> and \<open>doc_signer\<close>, interpreted at the end of each
  section.
\<close>

type_synonym entropy = bytes

datatype crypto_error =
    KeyLength nat
  | NoEntropy
  | InvalidBase64
  | CiphertextTooShort
  | AuthenticationFailed

section \<open>Cipher\<close>

record Cipher =
  aead_of :: aead

definition NewCipher :: "bytes \<Rightarrow> crypto_error + Cipher" where
  "NewCipher key =
     (if length key \<noteq> 32 then Inl (KeyLength (length key))
      else Inr \<lparr>aead_of = new_gcm key\<rparr>)"

definition read_full :: "nat \<Rightarrow> entropy \<Rightarrow> (bytes \<times> entropy) option" where
  "read_full n rnd = (if length rnd < n then None else Some (take n rnd, drop n rnd))"

definition Encrypt :: "Cipher \<Rightarrow> string \<Rightarrow> entropy \<Rightarrow> crypto_error + string \<times> entropy" where
  "Encrypt c plaintext rnd =
     (if plaintext = [] then Inr ([], rnd)
      else case read_full (nonce_size (aead_of c)) rnd of
        None \<Rightarrow> Inl NoEntropy
      | Some (nonce, rnd') \<Rightarrow>
          let sealed = nonce @ seal (aead_of c) nonce (bytes_of_string plaintext)
          in Inr (b64_encode sealed, rnd'))"

definition Decrypt :: "Cipher \<Rightarrow> string \<Rightarrow> crypto_error + string" where
  "Decrypt c encoded =
     (if encoded = [] then Inr []
      else case b64_decode encoded of
        None \<Rightarrow> Inl InvalidBase64
      | Some sealed \<Rightarrow>
          let ns = nonce_size (aead_of c)
          in if length sealed < ns then Inl CiphertextTooShort
             else case open_sealed (aead_of c) (take ns sealed) (drop ns sealed) of
               None \<Rightarrow> Inl AuthenticationFailed
             | Some plaintext \<Rightarrow> Inr (string_of_bytes plaintext))"

text \<open>What an AEAD promises: opening with the same nonce undoes sealing.\<close>

definition cipher_ok :: "Cipher \<Rightarrow> bool" where
  "cipher_ok c \<longleftrightarrow> 0 < nonce_size (aead_of c) \<and> (\<forall>n p. length n = nonce_size (aead_of c) \<longrightarrow>
     open_sealed (aead_of c) n (seal (aead_of c) n p) = Some p)"

lemma NewCipher_ok: "NewCipher key = Inr c \<Longrightarrow> cipher_ok c"
  by (auto simp: NewCipher_def cipher_ok_def new_gcm_def split: if_splits)

lemma Encrypt_cases:
  assumes "Encrypt c p rnd = Inr (e, rnd')"
  obtains (empty) "p = []" "e = []" "rnd' = rnd"
  | (sealed) n where "p \<noteq> []" "length n = nonce_size (aead_of c)" "rnd = n @ rnd'"
      "e = b64_encode (n @ seal (aead_of c) n (bytes_of_string p))"
proof (cases "p = []")
  case True
  then show thesis using assms empty by (simp add: Encrypt_def)
next
  case False
  let ?ns = "nonce_size (aead_of c)"
  show thesis
    using assms False sealed [of "take ?ns rnd"]
    by (auto simp: Encrypt_def read_full_def Let_def split: if_splits)
qed

lemma Encrypt_Nil [simp]: "Encrypt c [] rnd = Inr ([], rnd)"
  by (simp add: Encrypt_def)

lemma Decrypt_Nil [simp]: "Decrypt c [] = Inr []"
  by (simp add: Decrypt_def)

lemma Encrypt_nonempty: "Encrypt c p rnd = Inr (e, rnd') \<Longrightarrow> p \<noteq> [] \<Longrightarrow>
    0 < nonce_size (aead_of c) \<Longrightarrow> e \<noteq> []"
  by (erule Encrypt_cases) auto

lemma Encrypt_enough: "nonce_size (aead_of c) \<le> length rnd \<Longrightarrow> \<exists>e rnd'. Encrypt c p rnd = Inr (e, rnd')"
  by (auto simp: Encrypt_def read_full_def Let_def)

lemma Decrypt_Encrypt:
  assumes "cipher_ok c" "Encrypt c p rnd = Inr (e, rnd')"
  shows "Decrypt c e = Inr p"
  using assms(2)
proof (cases rule: Encrypt_cases)
  case (sealed n)
  then show ?thesis using assms(1)
    by (auto simp: Decrypt_def cipher_ok_def Let_def)
qed simp

text \<open>
  The interface of the cipher to the layer that stores personal data. \<open>dec_or_blank\<close> is what
  that layer does with a column that fails to decrypt.
\<close>

locale pii_cipher =
  fixes ok :: "'c \<Rightarrow> bool"
    and enc :: "'c \<Rightarrow> string \<Rightarrow> entropy \<Rightarrow> crypto_error + string \<times> entropy"
    and dec :: "'c \<Rightarrow> string \<Rightarrow> crypto_error + string"
  assumes dec_enc: "ok c \<Longrightarrow> enc c p rnd = Inr (e, rnd') \<Longrightarrow> dec c e = Inr p"
    and enc_blank: "enc c [] rnd = Inr ([], rnd)"
begin

lemma dec_blank: "ok c \<Longrightarrow> dec c [] = Inr []"
  by (rule dec_enc [OF _ enc_blank])

lemma enc_inject:
  "ok c \<Longrightarrow> enc c p r = Inr (e, r1) \<Longrightarrow> enc c q s = Inr (e, s1) \<Longrightarrow> p = q"
  by (metis dec_enc sum.inject(2))

lemma enc_blank_iff: "ok c \<Longrightarrow> enc c p rnd = Inr ([], rnd') \<Longrightarrow> p = []"
  by (metis dec_enc dec_blank sum.inject(2))

end

interpretation aes: pii_cipher cipher_ok Encrypt Decrypt
  by unfold_locales (simp_all add: Decrypt_Encrypt)

section \<open>BlindIndex\<close>

record BlindIndex =
  bidx_key :: bytes

definition NewBlindIndex :: "bytes \<Rightarrow> BlindIndex" where
  "NewBlindIndex key = \<lparr>bidx_key = key\<rparr>"

text \<open>The replacer maps each of the five bytes to nothing.\<close>

definition phone_noise :: "char \<Rightarrow> bool" where
  "phone_noise c \<longleftrightarrow> c \<in> {CHR '' '', CHR ''-'', CHR ''('', CHR '')'', CHR ''+''}"

definition normalize :: "string \<Rightarrow> string" where
  "normalize v = filter (\<lambda>c. \<not> phone_noise c) (trim_space (to_lower v))"

definition Hash :: "BlindIndex \<Rightarrow> string \<Rightarrow> string" where
  "Hash b value = hex_encode (hmac_sha256 (bidx_key b) (bytes_of_string (normalize value)))"

locale blind_index =
  fixes hash :: "'b \<Rightarrow> string \<Rightarrow> string" and norm_of :: "string \<Rightarrow> string"
  assumes hash_norm: "norm_of v = norm_of w \<Longrightarrow> hash b v = hash b w"
begin

lemma hash_distinguishes: "hash b v \<noteq> hash b w \<Longrightarrow> norm_of v \<noteq> norm_of w"
  using hash_norm by blast

end

interpretation hmac_index: blind_index Hash normalize
  by unfold_locales (simp add: Hash_def)

lemma length_Hash [simp]: "length (Hash b v) = 64"
  by (simp add: Hash_def)

text \<open>The characters a phone number is written with; on such strings only the digits count.\<close>

definition phone_char :: "char \<Rightarrow> bool" where
  "phone_char c \<longleftrightarrow> (48 \<le> code c \<and> code c \<le> 57) \<or> phone_noise c"

lemma phone_noise_code: "phone_noise c \<longleftrightarrow> code c \<in> {32, 45, 40, 41, 43}"
  by (auto simp: phone_noise_def of_char_eq_iff [symmetric, where ?'a = nat])

text \<open>The index over phone and date of birth also has the separator.\<close>

definition index_char :: "char \<Rightarrow> bool" where
  "index_char c \<longleftrightarrow> phone_char c \<or> c = CHR ''|''"

lemma index_char_lower: "index_char c \<Longrightarrow> code c < 128 \<and> lower_char c = c"
  by (auto simp: index_char_def phone_char_def phone_noise_code lower_char_def)

lemma to_lower_index: "\<forall>c \<in> set s. index_char c \<Longrightarrow> to_lower s = s"
  by (induction s) (auto simp: to_lower_Cons_ascii index_char_lower)

lemma index_char_blank: "index_char c \<Longrightarrow> is_space (code c) \<Longrightarrow> phone_noise c"
  by (auto simp: index_char_def phone_char_def phone_noise_code is_space_def)

lemma filter_trim_left_index:
  "\<forall>c \<in> set s. index_char c \<Longrightarrow>
     filter (\<lambda>c. \<not> phone_noise c) (trim_left s) = filter (\<lambda>c. \<not> phone_noise c) s \<and>
     set (trim_left s) \<subseteq> set s"
proof (induction s)
  case (Cons c s)
  then have asc: "code c < 128" by (simp add: index_char_lower)
  show ?case
  proof (cases "is_space (code c)")
    case True
    then have "trim_left (c # s) = trim_left s" using asc by (simp add: trim_left_step)
    then show ?thesis using Cons True index_char_blank [of c] by auto
  next
    case False
    then show ?thesis using asc by (simp add: trim_left_done)
  qed
qed simp

lemma filter_trim_right_index:
  "\<forall>c \<in> set s. index_char c \<Longrightarrow>
     filter (\<lambda>c. \<not> phone_noise c) (trim_right s) = filter (\<lambda>c. \<not> phone_noise c) s"
proof (induction s rule: rev_induct)
  case (snoc c s)
  then have last: "decode_last_rune (s @ [c]) = (code c, 1)"
    using index_char_lower [of c] by (simp add: decode_last_rune_def)
  show ?case
  proof (cases "is_space (code c)")
    case True
    then have "trim_right (s @ [c]) = trim_right s" using last by (simp add: trim_right_step)
    then show ?thesis using snoc True index_char_blank [of c] by auto
  next
    case False
    then show ?thesis using last by (simp add: trim_right_done)
  qed
qed simp

lemma normalize_index:
  assumes "\<forall>c \<in> set s. index_char c"
  shows "normalize s = filter (\<lambda>c. \<not> phone_noise c) s"
proof -
  have "filter (\<lambda>c. \<not> phone_noise c) (trim_right (trim_left s)) =
      filter (\<lambda>c. \<not> phone_noise c) (trim_left s)"
    using assms filter_trim_left_index [OF assms] by (intro filter_trim_right_index) blast
  then show ?thesis using filter_trim_left_index [OF assms]
    by (simp add: normalize_def trim_space_def to_lower_index [OF assms])
qed

lemma normalize_phone: "\<forall>c \<in> set s. phone_char c \<Longrightarrow> normalize s = filter (\<lambda>c. \<not> phone_noise c) s"
  by (rule normalize_index) (simp add: index_char_def)

section \<open>Signer\<close>

record Signer =
  signer_key :: bytes

definition NewSigner :: "bytes \<Rightarrow> Signer" where
  "NewSigner key = \<lparr>signer_key = key\<rparr>"

definition Sign :: "Signer \<Rightarrow> string \<Rightarrow> string" where
  "Sign s msg = take 32 (hex_encode (hmac_sha256 (signer_key s) (bytes_of_string msg)))"

text \<open>\<open>subtle.ConstantTimeCompare\<close>: 1 when equal, else 0; all bytes are looked at.\<close>

definition ct_accumulate :: "bytes \<Rightarrow> bytes \<Rightarrow> byte" where
  "ct_accumulate xs ys = foldl (\<lambda>v (x, y). v OR (x XOR y)) 0 (zip xs ys)"

definition constant_time_compare :: "bytes \<Rightarrow> bytes \<Rightarrow> nat" where
  "constant_time_compare xs ys =
     (if length xs \<noteq> length ys then 0 else if ct_accumulate xs ys = 0 then 1 else 0)"

definition Verify :: "Signer \<Rightarrow> string \<Rightarrow> string \<Rightarrow> bool" where
  "Verify s msg sig =
     (constant_time_compare (bytes_of_string (Sign s msg)) (bytes_of_string sig) = 1)"

definition code_alphabet :: string where
  "code_alphabet = ''0123456789ABCDEFGHJKMNPQRSTVWXYZ''"

definition DocCode :: "Signer \<Rightarrow> string \<Rightarrow> string \<Rightarrow> string" where
  "DocCode s prefix ident =
     (let digest = hmac_sha256 (signer_key s) (bytes_of_string (prefix @ ''|'' @ ident));
          b = map (\<lambda>i. code_alphabet ! unat (digest ! i AND 0x1F)) [0..<8]
      in ''DYD-'' @ prefix @ ''-'' @ b)"

lemma xor_eq_0: "x XOR y = 0 \<longleftrightarrow> x = (y :: byte)"
proof
  assume "x XOR y = 0"
  then have "(x XOR y) XOR y = 0 XOR y" by simp
  then show "x = y" by (simp add: xor.assoc)
qed simp

lemma ct_step_zero: "v OR (x XOR y) = 0 \<longleftrightarrow> v = 0 \<and> x = (y :: byte)"
  by (simp add: or_eq_0_iff xor_eq_0)

lemma ct_fold_zero:
  "length xs = length ys \<Longrightarrow>
     foldl (\<lambda>v (x, y). v OR (x XOR y)) v (zip xs ys) = 0 \<longleftrightarrow> v = (0 :: byte) \<and> xs = ys"
  by (induction xs ys arbitrary: v rule: list_induct2) (auto simp: ct_step_zero)

lemma constant_time_compare_iff: "constant_time_compare xs ys = Suc 0 \<longleftrightarrow> xs = ys"
  by (auto simp: constant_time_compare_def ct_accumulate_def ct_fold_zero)

lemma length_code_alphabet: "length code_alphabet = 32"
  by (simp add: code_alphabet_def)

lemma code_alphabet_upper: "\<forall>c \<in> set code_alphabet. solid c \<and> upper_char c = c"
  by (simp add: code_alphabet_def solid_code upper_char_def)

lemma and_31_bound: "unat (b AND 0x1F :: byte) < 32"
proof -
  have "b AND 0x1F = take_bit 5 b" by (simp add: take_bit_eq_mask mask_eq_exp_minus_1)
  moreover have "unat (take_bit 5 b) < 2 ^ 5" by (metis unsigned_take_bit_eq take_bit_nat_less_exp)
  ultimately show ?thesis by simp
qed

text \<open>The eight characters of a code.\<close>

definition code_chars :: "Signer \<Rightarrow> string \<Rightarrow> string \<Rightarrow> string" where
  "code_chars s prefix ident =
     map (\<lambda>i. code_alphabet ! unat (hmac_sha256 (signer_key s)
       (bytes_of_string (prefix @ ''|'' @ ident)) ! i AND 0x1F)) [0..<8]"

lemma DocCode_chars: "DocCode s prefix ident = ''DYD-'' @ prefix @ ''-'' @ code_chars s prefix ident"
  by (simp add: DocCode_def code_chars_def Let_def)

lemma length_code_chars [simp]: "length (code_chars s prefix ident) = 8"
  by (simp add: code_chars_def)

lemma set_code_chars: "set (code_chars s prefix ident) \<subseteq> set code_alphabet"
  using and_31_bound by (auto simp: code_chars_def length_code_alphabet intro!: nth_mem)

text \<open>
  What the verification endpoint relies on: a code is not empty, survives the upper-casing and
  trimming of what a person types, and depends only on the key, the kind and the id.
\<close>

definition canonical_code :: "string \<Rightarrow> string" where
  "canonical_code c = trim_space (to_upper c)"

definition plain_upper :: "string \<Rightarrow> bool" where
  "plain_upper p \<longleftrightarrow> (\<forall>c \<in> set p. solid c \<and> upper_char c = c)"

lemma plain_upper_canonical:
  assumes "plain_upper s" "s \<noteq> []"
  shows "canonical_code s = s"
proof -
  have "ascii s" using assms(1) by (auto simp: plain_upper_def ascii_def solid_def)
  then have "to_upper s = s"
    using assms(1) by (simp add: to_upper_ascii plain_upper_def map_idI)
  then show ?thesis
    using assms by (simp add: canonical_code_def trim_space_solid plain_upper_def)
qed

lemma plain_upper_append: "plain_upper (s @ t) \<longleftrightarrow> plain_upper s \<and> plain_upper t"
  by (auto simp: plain_upper_def)

lemma plain_upper_DYD: "plain_upper ''DYD-''" "plain_upper ''-''"
  by (simp_all add: plain_upper_def solid_code upper_char_def)

lemma plain_upper_code_chars: "plain_upper (code_chars s prefix ident)"
  unfolding plain_upper_def using set_code_chars code_alphabet_upper by blast

lemma plain_upper_DocCode: "plain_upper prefix \<Longrightarrow> plain_upper (DocCode s prefix ident)"
  by (simp only: DocCode_chars plain_upper_append plain_upper_DYD plain_upper_code_chars)

text \<open>Typing a code in lower case, with ASCII blanks around it, gives the same canonical form.\<close>

lemma upper_lower_char: "upper_char c = c \<Longrightarrow> upper_char (lower_char c) = c"
  by (auto simp: upper_char_def lower_char_def)

lemma upper_char_blank: "blank c \<Longrightarrow> upper_char c = c \<and> code c < 128"
  by (auto simp: blank_def is_space_def upper_char_def)

lemma canonical_code_typed:
  assumes "plain_upper s" "s \<noteq> []" "\<forall>c \<in> set w. blank c" "\<forall>c \<in> set v. blank c"
  shows "canonical_code (w @ map lower_char s @ v) = s"
proof -
  have "ascii (w @ map lower_char s @ v)"
    using assms upper_char_blank code_lower_char by (auto simp: ascii_def plain_upper_def solid_def)
  then have "to_upper (w @ map lower_char s @ v) =
      map upper_char w @ map (upper_char \<circ> lower_char) s @ map upper_char v"
    by (simp add: to_upper_ascii)
  also have "\<dots> = w @ s @ v"
    using assms upper_char_blank upper_lower_char by (simp add: plain_upper_def map_idI)
  finally show ?thesis
    using assms trim_space_blanks [of w v s] by (simp add: canonical_code_def plain_upper_def)
qed

locale doc_signer =
  fixes code_for :: "'s \<Rightarrow> string \<Rightarrow> string \<Rightarrow> string"
    and canon :: "string \<Rightarrow> string"
    and kind_ok :: "string \<Rightarrow> bool"
  assumes canon_code: "kind_ok k \<Longrightarrow> canon (code_for s k i) = code_for s k i"
    and code_nonempty: "code_for s k i \<noteq> []"
begin

lemma canon_idem_on_codes: "kind_ok k \<Longrightarrow> canon (canon (code_for s k i)) = code_for s k i"
  by (simp add: canon_code)

end

lemma DocCode_nonempty: "DocCode s k i \<noteq> []"
  by (simp add: DocCode_chars)

interpretation hmac_signer: doc_signer DocCode canonical_code plain_upper
  by unfold_locales (simp_all add: plain_upper_canonical plain_upper_DocCode DocCode_nonempty)

section \<open>Properties\<close>

text \<open>C24. What \<open>Encrypt\<close> returns, \<open>Decrypt\<close> with the same key turns back into the plaintext.\<close>

theorem Decrypt_of_Encrypt:
  assumes "NewCipher key = Inr c" "Encrypt c plaintext rnd = Inr (e, rnd')"
  shows "Decrypt c e = Inr plaintext"
  by (rule aes.dec_enc [OF NewCipher_ok [OF assms(1)] assms(2)])

theorem Decrypt_of_Encrypt_witness:
  "\<exists>c e. NewCipher (replicate 32 7) = Inr c \<and>
     Encrypt c ''01712345678'' (replicate 12 9) = Inr (e, []) \<and> Decrypt c e = Inr ''01712345678''"
proof -
  define c where "c = \<lparr>aead_of = new_gcm (replicate 32 (7 :: byte))\<rparr>"
  have c: "NewCipher (replicate 32 7) = Inr c" by (simp add: NewCipher_def c_def)
  obtain e where "Encrypt c ''01712345678'' (replicate 12 9) = Inr (e, [])"
    by (simp add: Encrypt_def read_full_def c_def new_gcm_def Let_def)
  then show ?thesis using c Decrypt_of_Encrypt [OF c] by blast
qed

text \<open>
  C25. Decryption is authenticated: a stored column decrypts to a plaintext exactly when it is
  empty (and so is the plaintext), or when it is the base64 of a 12 byte nonce followed by what
  sealing that plaintext under this key and nonce gives. Anything else, a flipped bit of nonce,
  ciphertext or tag included, is an error.
\<close>

theorem Decrypt_authentic:
  assumes "NewCipher key = Inr c"
  shows "Decrypt c e = Inr p \<longleftrightarrow>
    (if e = [] then p = []
     else \<exists>n. length n = 12 \<and> b64_decode e = Some (n @ gcm_seal key n (bytes_of_string p)))"
proof (cases "e = []")
  case False
  have c: "c = \<lparr>aead_of = new_gcm key\<rparr>" using assms by (auto simp: NewCipher_def split: if_splits)
  show ?thesis
  proof
    assume d: "Decrypt c e = Inr p"
    then obtain sealed where s: "b64_decode e = Some sealed" "12 \<le> length sealed"
      and o: "gcm_open key (take 12 sealed) (drop 12 sealed) = Some (bytes_of_string p)"
      using False by (auto simp: Decrypt_def c new_gcm_def Let_def split: option.splits if_splits)
    have "drop 12 sealed = gcm_seal key (take 12 sealed) (bytes_of_string p)"
      by (rule gcm_open_Some [OF o])
    then have "b64_decode e = Some (take 12 sealed @ gcm_seal key (take 12 sealed) (bytes_of_string p))"
      using s by (metis append_take_drop_id)
    then show "if e = [] then p = [] else
        \<exists>n. length n = 12 \<and> b64_decode e = Some (n @ gcm_seal key n (bytes_of_string p))"
      using False s by (auto intro!: exI [of _ "take 12 sealed"])
  qed (use False in \<open>auto simp: Decrypt_def c new_gcm_def\<close>)
qed (auto simp: Decrypt_def)

theorem Decrypt_authentic_witness:
  "Decrypt \<lparr>aead_of = new_gcm (replicate 32 7)\<rparr> ''QUJD'' \<noteq> Inr ''hidden''"
proof -
  have c: "NewCipher (replicate 32 7) = Inr \<lparr>aead_of = new_gcm (replicate 32 7)\<rparr>"
    by (simp add: NewCipher_def)
  have "b64_decode ''QUJD'' = Some [65, 66, 67]"
    by (simp add: b64_decode_def not_newline_def b64_val_def byte_of_nat_def)
  then have "b64_decode ''QUJD'' \<noteq> Some (n @ x)" if "length n = 12" for n x
    using that by (auto simp: append_eq_Cons_conv Cons_eq_append_conv)
  then show ?thesis using Decrypt_authentic [OF c, of "''QUJD''" "''hidden''"] by auto
qed

text \<open>
  C37. \<open>Encrypt\<close> leaves the empty string empty and draws no randomness for it. For a plaintext of
  \<open>n > 0\<close> bytes it fails only when the random source runs dry; otherwise it uses up exactly one
  12 byte nonce, and its result, the base64 of nonce, ciphertext and 16 byte tag, has
  \<open>4 * ceiling ((n + 28) / 3)\<close> characters.
\<close>

theorem Encrypt_size:
  assumes "NewCipher key = Inr c"
  shows "case Encrypt c plaintext rnd of
      Inl err \<Rightarrow> err = NoEntropy \<and> plaintext \<noteq> [] \<and> length rnd < 12
    | Inr (e, rnd') \<Rightarrow>
        if plaintext = [] then e = [] \<and> rnd' = rnd
        else 12 \<le> length rnd \<and> rnd' = drop 12 rnd \<and> length e = 4 * ((length plaintext + 30) div 3)"
  using assms
  by (auto simp: NewCipher_def Encrypt_def read_full_def new_gcm_def Let_def length_b64_encode
      split: if_splits)

theorem Encrypt_size_witness:
  "\<exists>c e. NewCipher (replicate 32 7) = Inr c \<and> Encrypt c ''abc'' (replicate 20 1) = Inr (e, replicate 8 1) \<and>
     length e = 44"
proof -
  define c where "c = \<lparr>aead_of = new_gcm (replicate 32 (7 :: byte))\<rparr>"
  have c: "NewCipher (replicate 32 7) = Inr c" by (simp add: NewCipher_def c_def)
  obtain e r where e: "Encrypt c ''abc'' (replicate 20 1) = Inr (e, r)"
    by (simp add: Encrypt_def read_full_def c_def new_gcm_def Let_def)
  then show ?thesis using Encrypt_size [OF c, of "''abc''" "replicate 20 1"] c by simp
qed

text \<open>\<open>Verify\<close>, for all its constant-time folding, accepts exactly the signature of the message.\<close>

theorem Verify_iff_Sign: "Verify s msg sig \<longleftrightarrow> sig = Sign s msg"
  by (auto simp: Verify_def constant_time_compare_iff)

text \<open>
  On strings of digits, spaces, dashes, parentheses and plus signs, the blind index
  depends on the digits only: two ways to write the same digits hash alike.
\<close>

theorem Hash_digits_only:
  assumes "\<forall>c \<in> set v. phone_char c" "\<forall>c \<in> set w. phone_char c"
    "filter (\<lambda>c. \<not> phone_noise c) v = filter (\<lambda>c. \<not> phone_noise c) w"
  shows "Hash b v = Hash b w"
  using assms by (intro hmac_index.hash_norm) (simp add: normalize_phone)

theorem Hash_digits_only_witness:
  "Hash (NewBlindIndex [1, 2, 3]) ''+880 1712-345678'' =
     Hash (NewBlindIndex [1, 2, 3]) ''8801712345678''"
  by (rule Hash_digits_only) (auto simp: phone_char_def phone_noise_def)

text \<open>
  A verification code is \<open>DYD-\<close>, the kind, a dash and eight characters of the alphabet
  without I, L, O and U.
\<close>

theorem DocCode_shape:
  "\<exists>b. DocCode s prefix ident = ''DYD-'' @ prefix @ ''-'' @ b \<and> length b = 8 \<and>
     set b \<subseteq> set code_alphabet - {CHR ''I'', CHR ''L'', CHR ''O'', CHR ''U''}"
proof -
  have "set code_alphabet \<inter> {CHR ''I'', CHR ''L'', CHR ''O'', CHR ''U''} = {}"
    by (simp add: code_alphabet_def)
  then have "set (code_chars s prefix ident) \<subseteq>
      set code_alphabet - {CHR ''I'', CHR ''L'', CHR ''O'', CHR ''U''}"
    using set_code_chars [of s prefix ident] by blast
  then show ?thesis using DocCode_chars length_code_chars by metis
qed

end
