(* ===== verification/Go_Time.thy ===== *)
theory Go_Time
  imports Go_Strings
begin

text \<open>
  The part of Go's package \<open>time\<close> that the program uses: \<open>time.Parse\<close> with the layouts
  \<open>2006-01-02\<close>, \<open>02-01-2006\<close> and \<open>02/01/2006\<close>, and \<open>Format\<close> with the first of them. A
  layout is the list of chunks that \<open>nextStdChunk\<close> splits it into; a parsed time is its civil
  date, the time of day being midnight UTC for these layouts.
\<close>

section \<open>Civil dates\<close>

record civil =
  year :: nat
  month :: nat
  day :: nat

definition is_leap :: "nat \<Rightarrow> bool" where
  "is_leap y \<longleftrightarrow> y mod 4 = 0 \<and> (y mod 100 \<noteq> 0 \<or> y mod 400 = 0)"

definition days_in :: "nat \<Rightarrow> nat \<Rightarrow> nat" where
  "days_in m y =
     (if m = 2 then (if is_leap y then 29 else 28)
      else if m \<in> {4, 6, 9, 11} then 30 else 31)"

definition valid_civil :: "civil \<Rightarrow> bool" where
  "valid_civil t \<longleftrightarrow> year t < 10000 \<and> 1 \<le> month t \<and> month t \<le> 12 \<and>
     1 \<le> day t \<and> day t \<le> days_in (month t) (year t)"

lemma days_in_le: "days_in m y \<le> 31"
  by (simp add: days_in_def)

section \<open>Decimal digits\<close>

definition is_digit :: "char \<Rightarrow> bool" where
  "is_digit c \<longleftrightarrow> 48 \<le> code c \<and> code c \<le> 57"

definition digit_val :: "char \<Rightarrow> nat" where
  "digit_val c = code c - 48"

definition digit_char :: "nat \<Rightarrow> char" where
  "digit_char n = char_of (48 + n)"

lemma code_digit_char: "n < 10 \<Longrightarrow> code (digit_char n) = 48 + n"
  by (simp add: digit_char_def)

lemma digit_char_simps [simp]:
  "n < 10 \<Longrightarrow> is_digit (digit_char n)" "n < 10 \<Longrightarrow> digit_val (digit_char n) = n"
  by (simp_all add: is_digit_def digit_val_def code_digit_char)

lemma is_digit_val [simp]:
  "is_digit c \<Longrightarrow> digit_val c < 10" "is_digit c \<Longrightarrow> digit_char (digit_val c) = c"
  by (auto simp: is_digit_def digit_val_def digit_char_def)

lemma solid_digit: "is_digit c \<Longrightarrow> solid c"
  by (auto simp: is_digit_def solid_def is_space_def)

text \<open>\<open>appendInt\<close>: decimal, padded with zeros on the left to the given width.\<close>

function append_int :: "nat \<Rightarrow> nat \<Rightarrow> string" where
  "append_int w n =
     (if n < 10 \<and> w \<le> 1 then [digit_char n]
      else append_int (w - 1) (n div 10) @ [digit_char (n mod 10)])"
  by pat_completeness auto
termination
  by (relation "measure (\<lambda>(w, n). w + n)") auto

declare append_int.simps [simp del]

lemma append_int_1: "n < 10 \<Longrightarrow> append_int (Suc 0) n = [digit_char n]"
  by (simp add: append_int.simps)

lemma append_int_2: "n < 100 \<Longrightarrow> append_int 2 n = [digit_char (n div 10), digit_char (n mod 10)]"
  by (simp add: append_int.simps [of 2] append_int_1)

lemma append_int_4:
  assumes "n < 10000"
  shows "append_int 4 n = [digit_char (n div 1000), digit_char (n div 100 mod 10),
    digit_char (n div 10 mod 10), digit_char (n mod 10)]"
proof -
  have "append_int 3 (n div 10) =
      append_int 2 (n div 100) @ [digit_char (n div 10 mod 10)]"
    by (simp add: append_int.simps [of 3] flip: div_mult2_eq)
  then show ?thesis using assms
    by (simp add: append_int.simps [of 4] append_int_2 flip: div_mult2_eq)
qed

section \<open>Layouts, Parse and Format\<close>

datatype chunk = LongYear | ZeroMonth | ZeroDay | Lit char

type_synonym layout = "chunk list"

definition iso_layout :: layout where
  "iso_layout = [LongYear, Lit CHR ''-'', ZeroMonth, Lit CHR ''-'', ZeroDay]"

definition dmy_layout :: "char \<Rightarrow> layout" where
  "dmy_layout sep = [ZeroDay, Lit sep, ZeroMonth, Lit sep, LongYear]"

definition num2 :: "char \<Rightarrow> char \<Rightarrow> nat" where
  "num2 a b = digit_val a * 10 + digit_val b"

definition num4 :: "char \<Rightarrow> char \<Rightarrow> char \<Rightarrow> char \<Rightarrow> nat" where
  "num4 a b c d = ((digit_val a * 10 + digit_val b) * 10 + digit_val c) * 10 + digit_val d"

text \<open>
  The main loop of \<open>Parse\<close>. A chunk that does not match, a month outside 1 to 12 and text left
  over are errors; the day is checked at the end, when year and month are known.
\<close>

fun parse_chunks :: "layout \<Rightarrow> string \<Rightarrow> civil \<Rightarrow> civil option" where
  "parse_chunks [] s t = (if s = [] then Some t else None)"
| "parse_chunks (Lit x # l) (c # s) t = (if c = x then parse_chunks l s t else None)"
| "parse_chunks (LongYear # l) (a # b # c # d # s) t =
     (if is_digit a \<and> is_digit b \<and> is_digit c \<and> is_digit d
      then parse_chunks l s (t\<lparr>year := num4 a b c d\<rparr>) else None)"
| "parse_chunks (ZeroMonth # l) (a # b # s) t =
     (if is_digit a \<and> is_digit b \<and> 1 \<le> num2 a b \<and> num2 a b \<le> 12
      then parse_chunks l s (t\<lparr>month := num2 a b\<rparr>) else None)"
| "parse_chunks (ZeroDay # l) (a # b # s) t =
     (if is_digit a \<and> is_digit b then parse_chunks l s (t\<lparr>day := num2 a b\<rparr>) else None)"
| "parse_chunks l s t = None"

definition time_parse :: "layout \<Rightarrow> string \<Rightarrow> civil option" where
  "time_parse l s =
     (case parse_chunks l s \<lparr>year = 0, month = 1, day = 1\<rparr> of
        None \<Rightarrow> None
      | Some t \<Rightarrow> if 1 \<le> day t \<and> day t \<le> days_in (month t) (year t) then Some t else None)"

definition format_iso :: "civil \<Rightarrow> string" where
  "format_iso t = append_int 4 (year t) @ ''-'' @ append_int 2 (month t) @ ''-'' @ append_int 2 (day t)"

definition format_dmy :: "char \<Rightarrow> civil \<Rightarrow> string" where
  "format_dmy sep t = append_int 2 (day t) @ [sep] @ append_int 2 (month t) @ [sep] @ append_int 4 (year t)"

lemma num2_digits [simp]:
  "n < 100 \<Longrightarrow> num2 (digit_char (n div 10)) (digit_char (n mod 10)) = n"
  by (simp add: num2_def)

lemma num4_digits [simp]:
  assumes "n < 10000"
  shows "num4 (digit_char (n div 1000)) (digit_char (n div 100 mod 10))
    (digit_char (n div 10 mod 10)) (digit_char (n mod 10)) = n"
proof -
  have q: "n div 100 = n div 10 div 10" "n div 1000 = n div 10 div 10 div 10"
    by (simp_all flip: div_mult2_eq)
  have "n div 1000 < 10" using assms by (simp add: less_mult_imp_div_less)
  then have "num4 (digit_char (n div 1000)) (digit_char (n div 100 mod 10))
      (digit_char (n div 10 mod 10)) (digit_char (n mod 10)) =
      ((n div 1000 * 10 + n div 100 mod 10) * 10 + n div 10 mod 10) * 10 + n mod 10"
    unfolding num4_def by (simp only: digit_char_simps mod_less_divisor zero_less_numeral)
  also have "\<dots> = n" by (simp only: q div_mult_mod_eq)
  finally show ?thesis .
qed

lemma horner_step: "x < (10 :: nat) \<Longrightarrow> (k * 10 + x) div 10 = k \<and> (k * 10 + x) mod 10 = x"
  by auto

lemma append_int_num2: "is_digit a \<Longrightarrow> is_digit b \<Longrightarrow> append_int 2 (num2 a b) = [a, b]"
proof -
  assume d: "is_digit a" "is_digit b"
  then have "digit_val a < 10" "digit_val b < 10" by auto
  then have "num2 a b < 100" "num2 a b div 10 = digit_val a" "num2 a b mod 10 = digit_val b"
    by (auto simp: num2_def)
  then show ?thesis using d by (simp add: append_int_2)
qed

lemma append_int_num4:
  assumes d: "is_digit a" "is_digit b" "is_digit c" "is_digit d"
  shows "append_int 4 (num4 a b c d) = [a, b, c, d]" "num4 a b c d < 10000"
proof -
  let ?n = "num4 a b c d"
  have v: "digit_val a < 10" "digit_val b < 10" "digit_val c < 10" "digit_val d < 10"
    using d by simp_all
  then show lt: "?n < 10000" by (simp add: num4_def)
  let ?n1 = "(digit_val a * 10 + digit_val b) * 10 + digit_val c"
  let ?n2 = "digit_val a * 10 + digit_val b"
  have q: "?n div 100 = ?n div 10 div 10" "?n div 1000 = ?n div 10 div 10 div 10"
    by (simp_all only: div_mult2_eq [symmetric]) simp_all
  have "?n div 10 = ?n1" "?n mod 10 = digit_val d" "?n1 div 10 = ?n2" "?n1 mod 10 = digit_val c"
    "?n2 div 10 = digit_val a" "?n2 mod 10 = digit_val b"
    unfolding num4_def using v by (simp_all only: horner_step)
  then show "append_int 4 ?n = [a, b, c, d]"
    using d by (simp only: append_int_4 [OF lt] q is_digit_val)
qed

text \<open>\<open>Parse\<close> accepts exactly what \<open>Format\<close> with the same layout prints for a real date.\<close>

lemma valid_civil_bounds:
  assumes "valid_civil t"
  shows "year t < 10000" "month t < 100" "day t < 100" "month t \<le> 12" "1 \<le> month t"
  using assms days_in_le [of "month t" "year t"] by (auto simp: valid_civil_def)

lemma format_iso_eq:
  assumes "valid_civil t"
  shows "format_iso t = [digit_char (year t div 1000), digit_char (year t div 100 mod 10),
    digit_char (year t div 10 mod 10), digit_char (year t mod 10), CHR ''-'',
    digit_char (month t div 10), digit_char (month t mod 10), CHR ''-'',
    digit_char (day t div 10), digit_char (day t mod 10)]"
  using valid_civil_bounds [OF assms] by (simp add: format_iso_def append_int_2 append_int_4)

lemma format_dmy_eq:
  assumes "valid_civil t"
  shows "format_dmy sep t = [digit_char (day t div 10), digit_char (day t mod 10), sep,
    digit_char (month t div 10), digit_char (month t mod 10), sep,
    digit_char (year t div 1000), digit_char (year t div 100 mod 10),
    digit_char (year t div 10 mod 10), digit_char (year t mod 10)]"
  using valid_civil_bounds [OF assms] by (simp add: format_dmy_def append_int_2 append_int_4)

lemma digit_places [simp]:
  "n < 100 \<Longrightarrow> n div 10 < (10 :: nat)" "n < 10000 \<Longrightarrow> n div 1000 < (10 :: nat)"
  by (simp_all add: less_mult_imp_div_less)

lemma time_parse_format_iso:
  assumes "valid_civil t"
  shows "time_parse iso_layout (format_iso t) = Some t"
proof -
  note b = valid_civil_bounds [OF assms]
  have "parse_chunks iso_layout (format_iso t) \<lparr>year = 0, month = 1, day = 1\<rparr> = Some t"
    unfolding format_iso_eq [OF assms] iso_layout_def using b
    by (simp del: div_mult2_eq)
  then show ?thesis using assms by (simp add: time_parse_def valid_civil_def)
qed

lemma time_parse_format_dmy:
  assumes "valid_civil t"
  shows "time_parse (dmy_layout sep) (format_dmy sep t) = Some t"
proof -
  note b = valid_civil_bounds [OF assms]
  have "parse_chunks (dmy_layout sep) (format_dmy sep t) \<lparr>year = 0, month = 1, day = 1\<rparr> = Some t"
    unfolding format_dmy_eq [OF assms] dmy_layout_def using b by simp
  then show ?thesis using assms by (simp add: time_parse_def valid_civil_def)
qed

text \<open>Inversion of one chunk at a time.\<close>

lemma parse_Lit_iff:
  "parse_chunks (Lit x # l) s t = Some u \<longleftrightarrow> (\<exists>s'. s = x # s' \<and> parse_chunks l s' t = Some u)"
  by (cases s) auto

lemma parse_LongYear_iff:
  "parse_chunks (LongYear # l) s t = Some u \<longleftrightarrow>
     (\<exists>a b c d s'. s = a # b # c # d # s' \<and> is_digit a \<and> is_digit b \<and> is_digit c \<and> is_digit d \<and>
        parse_chunks l s' (t\<lparr>year := num4 a b c d\<rparr>) = Some u)"
  by (cases "(LongYear # l, s, t)" rule: parse_chunks.cases) auto

lemma parse_ZeroMonth_iff:
  "parse_chunks (ZeroMonth # l) s t = Some u \<longleftrightarrow>
     (\<exists>a b s'. s = a # b # s' \<and> is_digit a \<and> is_digit b \<and> 1 \<le> num2 a b \<and> num2 a b \<le> 12 \<and>
        parse_chunks l s' (t\<lparr>month := num2 a b\<rparr>) = Some u)"
  by (cases "(ZeroMonth # l, s, t)" rule: parse_chunks.cases) auto

lemma parse_ZeroDay_iff:
  "parse_chunks (ZeroDay # l) s t = Some u \<longleftrightarrow>
     (\<exists>a b s'. s = a # b # s' \<and> is_digit a \<and> is_digit b \<and>
        parse_chunks l s' (t\<lparr>day := num2 a b\<rparr>) = Some u)"
  by (cases "(ZeroDay # l, s, t)" rule: parse_chunks.cases) auto

lemmas parse_chunk_iffs =
  parse_Lit_iff parse_LongYear_iff parse_ZeroMonth_iff parse_ZeroDay_iff

lemma parse_chunks_Nil_iff: "parse_chunks [] s t = Some u \<longleftrightarrow> s = [] \<and> t = u"
  by auto

lemma time_parse_iso_Some:
  assumes "time_parse iso_layout s = Some t"
  shows "valid_civil t \<and> s = format_iso t"
proof -
  from assms obtain a b c d m1 m2 d1 d2 where
    s: "s = [a, b, c, d, CHR ''-'', m1, m2, CHR ''-'', d1, d2]"
    and dig: "is_digit a" "is_digit b" "is_digit c" "is_digit d" "is_digit m1" "is_digit m2"
      "is_digit d1" "is_digit d2"
    and m: "1 \<le> num2 m1 m2" "num2 m1 m2 \<le> 12"
    and t: "t = \<lparr>year = num4 a b c d, month = num2 m1 m2, day = num2 d1 d2\<rparr>"
    and day: "1 \<le> day t" "day t \<le> days_in (month t) (year t)"
    unfolding time_parse_def iso_layout_def
    by (auto simp only: parse_chunk_iffs parse_chunks_Nil_iff split: option.splits if_splits)
      fastforce
  show ?thesis
    using dig m day unfolding s t
    by (simp add: format_iso_def append_int_num2 append_int_num4 valid_civil_def)
qed

lemma time_parse_dmy_Some:
  assumes "time_parse (dmy_layout sep) s = Some t"
  shows "valid_civil t \<and> s = format_dmy sep t"
proof -
  from assms obtain a b c d m1 m2 d1 d2 where
    s: "s = [d1, d2, sep, m1, m2, sep, a, b, c, d]"
    and dig: "is_digit a" "is_digit b" "is_digit c" "is_digit d" "is_digit m1" "is_digit m2"
      "is_digit d1" "is_digit d2"
    and m: "1 \<le> num2 m1 m2" "num2 m1 m2 \<le> 12"
    and t: "t = \<lparr>year = num4 a b c d, month = num2 m1 m2, day = num2 d1 d2\<rparr>"
    and day: "1 \<le> day t" "day t \<le> days_in (month t) (year t)"
    unfolding time_parse_def dmy_layout_def
    by (auto simp only: parse_chunk_iffs parse_chunks_Nil_iff split: option.splits if_splits)
      fastforce
  show ?thesis
    using dig m day unfolding s t
    by (simp add: format_dmy_def append_int_num2 append_int_num4 valid_civil_def)
qed

lemma time_parse_iso_iff:
  "time_parse iso_layout s = Some t \<longleftrightarrow> valid_civil t \<and> s = format_iso t"
  using time_parse_iso_Some time_parse_format_iso by blast

lemma time_parse_dmy_iff:
  "time_parse (dmy_layout sep) s = Some t \<longleftrightarrow> valid_civil t \<and> s = format_dmy sep t"
  using time_parse_dmy_Some time_parse_format_dmy by blast

lemma length_format_iso: "valid_civil t \<Longrightarrow> length (format_iso t) = 10"
  by (simp add: format_iso_eq)

lemma format_iso_solid:
  "valid_civil t \<Longrightarrow> format_iso t \<noteq> [] \<and> solid (hd (format_iso t)) \<and> solid (last (format_iso t))"
  using valid_civil_bounds [of t] by (simp add: format_iso_eq solid_digit)

lemma format_dmy_solid:
  "valid_civil t \<Longrightarrow>
     format_dmy sep t \<noteq> [] \<and> solid (hd (format_dmy sep t)) \<and> solid (last (format_dmy sep t))"
  using valid_civil_bounds [of t] by (simp add: format_dmy_eq solid_digit)

lemma format_iso_inject:
  "valid_civil t \<Longrightarrow> valid_civil u \<Longrightarrow> format_iso t = format_iso u \<longleftrightarrow> t = u"
  by (metis option.inject time_parse_format_iso)

text \<open>The iso and the day-first layouts accept disjoint sets of strings.\<close>

lemma is_digit_not_sep: "is_digit c \<Longrightarrow> c \<noteq> CHR ''-'' \<and> c \<noteq> CHR ''/''"
  by (auto simp: is_digit_def)

lemma format_iso_not_dmy:
  assumes "valid_civil t" "valid_civil u" "sep \<in> {CHR ''-'', CHR ''/''}"
  shows "format_iso t \<noteq> format_dmy sep u"
proof -
  have "is_digit (digit_char (year t div 10 mod 10))" by simp
  then show ?thesis
    using assms valid_civil_bounds [OF assms(1)] is_digit_not_sep [of "digit_char (year t div 100 mod 10)"]
      is_digit_not_sep [of "digit_char (year t div 10 mod 10)"]
    by (auto simp: format_iso_eq format_dmy_eq)
qed

end
