(* ===== verification/Go_Regexp.thy ===== *)
theory Go_Regexp
  imports Prelude
begin

text \<open>
  Regular expressions as Go's \<open>regexp\<close> package has them, as far as the program uses them: one
  class of bytes at a time, concatenation, alternation and repetition, anchored at both ends
  (\<open>^...$\<close>), so that \<open>MatchString\<close> asks whether the whole string is in the language. All classes
  the program writes are ASCII, so a byte of a longer UTF-8 sequence matches none of them. The
  matcher works by derivatives; \<open>accepts_iff\<close> ties it to the language \<open>words\<close>.
\<close>

datatype regex =
    Nothing
  | Empty
  | Class "char \<Rightarrow> bool"
  | Cat regex regex
  | Or regex regex
  | Many regex

section \<open>The derived forms that the patterns are written with\<close>

fun literal :: "string \<Rightarrow> regex" where
  "literal [] = Empty"
| "literal (c # s) = Cat (Class (\<lambda>x. x = c)) (literal s)"

fun any_of :: "regex list \<Rightarrow> regex" where
  "any_of [] = Nothing"
| "any_of (r # rs) = Or r (any_of rs)"

fun seq :: "regex list \<Rightarrow> regex" where
  "seq [] = Empty"
| "seq (r # rs) = Cat r (seq rs)"

definition optional :: "regex \<Rightarrow> regex" where
  "optional r = Or r Empty"

definition some1 :: "regex \<Rightarrow> regex" where
  "some1 r = Cat r (Many r)"

fun repeat :: "nat \<Rightarrow> regex \<Rightarrow> regex" where
  "repeat 0 r = Empty"
| "repeat (Suc n) r = Cat r (repeat n r)"

section \<open>Matching\<close>

fun has_empty :: "regex \<Rightarrow> bool" where
  "has_empty Nothing = False"
| "has_empty Empty = True"
| "has_empty (Class p) = False"
| "has_empty (Cat r s) = (has_empty r \<and> has_empty s)"
| "has_empty (Or r s) = (has_empty r \<or> has_empty s)"
| "has_empty (Many r) = True"

fun after :: "char \<Rightarrow> regex \<Rightarrow> regex" where
  "after c Nothing = Nothing"
| "after c Empty = Nothing"
| "after c (Class p) = (if p c then Empty else Nothing)"
| "after c (Cat r s) =
     (if has_empty r then Or (Cat (after c r) s) (after c s) else Cat (after c r) s)"
| "after c (Or r s) = Or (after c r) (after c s)"
| "after c (Many r) = Cat (after c r) (Many r)"

fun accepts :: "regex \<Rightarrow> string \<Rightarrow> bool" where
  "accepts r [] = has_empty r"
| "accepts r (c # s) = accepts (after c r) s"

section \<open>The language of a pattern\<close>

fun words :: "regex \<Rightarrow> string set" where
  "words Nothing = {}"
| "words Empty = {[]}"
| "words (Class p) = {[c] | c. p c}"
| "words (Cat r s) = {u @ v | u v. u \<in> words r \<and> v \<in> words s}"
| "words (Or r s) = words r \<union> words s"
| "words (Many r) = {concat us | us. set us \<subseteq> words r}"

lemma has_empty_iff: "has_empty r \<longleftrightarrow> [] \<in> words r"
proof (induction r)
  case (Many r)
  show ?case by (simp add: exI [of _ "[]"])
qed auto

lemma concat_Cons_split:
  assumes "concat us = c # w" "set us \<subseteq> A"
  shows "\<exists>v vs. c # v \<in> A \<and> set vs \<subseteq> A \<and> w = v @ concat vs"
  using assms
proof (induction us)
  case (Cons u us)
  then show ?case by (cases u) auto
qed simp

lemma words_after: "words (after c r) = {w. c # w \<in> words r}"
proof (induction r)
  case (Cat r s)
  have "(\<exists>u v. c # w = u @ v \<and> u \<in> words r \<and> v \<in> words s) \<longleftrightarrow>
      ([] \<in> words r \<and> c # w \<in> words s) \<or>
      (\<exists>u v. w = u @ v \<and> c # u \<in> words r \<and> v \<in> words s)" for w
    by (auto simp: Cons_eq_append_conv)
  then show ?case using Cat by (auto simp: has_empty_iff)
next
  case (Many r)
  have "(\<exists>us. c # w = concat us \<and> set us \<subseteq> words r) \<longleftrightarrow>
      (\<exists>v vs. w = v @ concat vs \<and> c # v \<in> words r \<and> set vs \<subseteq> words r)" (is "?L \<longleftrightarrow> ?R") for w
  proof
    assume ?L
    then show ?R using concat_Cons_split [of _ c w "words r"] by metis
  next
    assume ?R
    then obtain v vs where "w = v @ concat vs" "c # v \<in> words r" "set vs \<subseteq> words r" by blast
    then have "c # w = concat ((c # v) # vs) \<and> set ((c # v) # vs) \<subseteq> words r" by simp
    then show ?L by blast
  qed
  then show ?case using Many by auto
qed auto

lemma accepts_iff: "accepts r s \<longleftrightarrow> s \<in> words r"
  by (induction s arbitrary: r) (simp_all add: has_empty_iff words_after)

section \<open>The languages of the derived forms\<close>

lemma words_literal [simp]: "words (literal s) = {s}"
  by (induction s) auto

lemma words_optional [simp]: "words (optional r) = insert [] (words r)"
  by (auto simp: optional_def)

lemma words_any_of [simp]: "words (any_of rs) = (\<Union>r \<in> set rs. words r)"
  by (induction rs) auto

lemma words_Cat_Class: "words (Cat (Class p) r) = {c # v | c v. p c \<and> v \<in> words r}"
proof (intro set_eqI iffI)
  fix w assume "w \<in> {c # v | c v. p c \<and> v \<in> words r}"
  then obtain c v where "w = [c] @ v" "[c] \<in> words (Class p)" "v \<in> words r" by auto
  then show "w \<in> words (Cat (Class p) r)" unfolding words.simps(4) by blast
qed auto

lemma words_Many_Class: "words (Many (Class p)) = {s. \<forall>c \<in> set s. p c}"
proof -
  have "\<exists>us. s = concat us \<and> set us \<subseteq> {[c] | c. p c}" if "\<forall>c \<in> set s. p c" for s
    using that by (intro exI [of _ "map (\<lambda>c. [c]) s"]) auto
  then show ?thesis by fastforce
qed

lemma words_some1_Class: "words (some1 (Class p)) = {s. s \<noteq> [] \<and> (\<forall>c \<in> set s. p c)}"
proof (intro set_eqI)
  fix s
  show "s \<in> words (some1 (Class p)) \<longleftrightarrow> s \<in> {s. s \<noteq> [] \<and> (\<forall>c \<in> set s. p c)}"
    unfolding some1_def words_Cat_Class words_Many_Class by (cases s) auto
qed

lemma words_repeat_Class: "words (repeat n (Class p)) = {s. length s = n \<and> (\<forall>c \<in> set s. p c)}"
proof (induction n)
  case (Suc n)
  show ?case
    unfolding repeat.simps words_Cat_Class Suc by (auto simp: length_Suc_conv)
qed auto

end
