(* ===== verification/Validate.thy ===== *)
theory Validate
  imports Crypto Go_Time Go_Regexp
begin

text \<open>
  The package \<open>internal/validate\<close>: the three rules the service registers with the validator
  library (\<open>bdphone\<close>, \<open>datestr\<close>, \<open>imgdata\<close>), and \<open>Struct\<close>, which turns the library's errors
  into a map from field to message.

  The library go-playground/validator is not part of the repository. Its built-in checks and its
  engine are the components \<open>builtin\<close> and \<open>run\<close> of the record \<open>library\<close>, an argument of \<open>NewValidator\<close>;
  what the service relies on is the predicate \<open>library_ok\<close>, a hypothesis of the theorems that
  need it.
\<close>

section \<open>The registered rules\<close>

definition bdPhoneRe :: regex where
  "bdPhoneRe = seq
     [Or (seq [optional (literal ''+''), literal ''880'']) (literal ''0''),
      literal ''1'', Class (\<lambda>c. 51 \<le> code c \<and> code c \<le> 57), repeat 8 (Class is_digit)]"

definition b64_class :: "char \<Rightarrow> bool" where
  "b64_class c \<longleftrightarrow> (65 \<le> code c \<and> code c \<le> 90) \<or> (97 \<le> code c \<and> code c \<le> 122) \<or> is_digit c \<or>
     c = CHR ''+'' \<or> c = CHR ''/''"

definition imgDataRe :: regex where
  "imgDataRe = seq
     [literal ''data:image/'', any_of [literal ''jpeg'', literal ''jpg'', literal ''png'', literal ''webp''],
      literal '';base64,'', some1 (Class b64_class), Many (Class (\<lambda>c. c = CHR ''=''))]"

definition remove_char :: "char \<Rightarrow> string \<Rightarrow> string" where
  "remove_char c s = filter (\<lambda>x. x \<noteq> c) s"

definition bdphone :: "string \<Rightarrow> bool" where
  "bdphone s = accepts bdPhoneRe (remove_char CHR ''-'' (remove_char CHR '' '' s))"

definition date_layouts :: "layout list" where
  "date_layouts = [iso_layout, dmy_layout CHR ''-'', dmy_layout CHR ''/'']"

definition datestr :: "string \<Rightarrow> bool" where
  "datestr s = (\<exists>l \<in> set date_layouts. time_parse l (trim_space s) \<noteq> None)"

definition imgdata :: "string \<Rightarrow> bool" where
  "imgdata s = accepts imgDataRe (trim_space s)"

section \<open>The validator\<close>

text \<open>
  A struct, as reflection shows it to the library: the name, the value and the tags of each field.
  A tag is a name with a parameter, \<open>min=2\<close> being \<open>(''min'', ''2'')\<close>.
\<close>

type_synonym vtag = "string \<times> string"

record struct_field =
  fname :: string
  fvalue :: string
  ftags :: "vtag list"

record field_error =
  err_field :: string
  err_tag :: string

datatype verror =
    InvalidValidationError
  | ValidationErrors "field_error list"

type_synonym vcheck = "string \<Rightarrow> string \<Rightarrow> bool"

record library =
  builtin :: "string \<Rightarrow> vcheck"
  run :: "(string \<Rightarrow> vcheck) \<Rightarrow> struct_field list \<Rightarrow> verror option"

record Validator =
  lib :: library
  registered :: "(string \<times> (string \<Rightarrow> bool)) list"

definition RegisterValidation :: "string \<Rightarrow> (string \<Rightarrow> bool) \<Rightarrow> Validator \<Rightarrow> Validator" where
  "RegisterValidation n f v = v\<lparr>registered := (n, f) # registered v\<rparr>"

definition NewValidator :: "library \<Rightarrow> Validator" where
  "NewValidator l = RegisterValidation ''imgdata'' imgdata
     (RegisterValidation ''datestr'' datestr
       (RegisterValidation ''bdphone'' bdphone \<lparr>lib = l, registered = []\<rparr>))"

text \<open>A registered rule takes precedence over a built-in one and ignores the parameter.\<close>

definition checks :: "Validator \<Rightarrow> string \<Rightarrow> vcheck" where
  "checks v n p s =
     (case map_of (registered v) n of Some f \<Rightarrow> f s | None \<Rightarrow> builtin (lib v) n p s)"

definition message :: "string \<Rightarrow> string" where
  "message tag =
     (if tag = ''required'' then ''this field is required''
      else if tag = ''email'' then ''must be a valid email address''
      else if tag = ''bdphone'' then ''must be a valid Bangladeshi mobile number''
      else if tag = ''datestr'' then ''must be a valid date''
      else if tag = ''min'' then ''too short''
      else if tag = ''max'' then ''too long''
      else if tag = ''len'' then ''wrong length''
      else if tag = ''numeric'' then ''must be a number''
      else if tag = ''oneof'' then ''must be one of the allowed values''
      else if tag = ''url'' then ''must be a valid URL''
      else if tag = ''imgdata'' then ''must be a valid image''
      else ''invalid value'')"

definition asValidationErrors :: "verror \<Rightarrow> field_error list option" where
  "asValidationErrors e = (case e of ValidationErrors errs \<Rightarrow> Some errs | InvalidValidationError \<Rightarrow> None)"

type_synonym field_messages = "string \<rightharpoonup> string"

definition Struct :: "Validator \<Rightarrow> struct_field list \<Rightarrow> field_messages option" where
  "Struct val s =
     (case run (lib val) (checks val) s of
        None \<Rightarrow> None
      | Some err \<Rightarrow>
          (case asValidationErrors err of
             None \<Rightarrow> Some [''_'' \<mapsto> ''invalid input'']
           | Some verrs \<Rightarrow> Some (foldl (\<lambda>out fe. out(to_lower (err_field fe) \<mapsto> message (err_tag fe))) Map.empty verrs)))"

section \<open>What the service relies on in the library\<close>

text \<open>
  The tags of a field are checked from left to right up to the first that fails; \<open>omitempty\<close>
  stops at an empty value. The engine reports the first failing tag of every field that has one,
  in the order of the fields, and nothing when there is none.
\<close>

fun first_failure :: "(string \<Rightarrow> vcheck) \<Rightarrow> string \<Rightarrow> vtag list \<Rightarrow> string option" where
  "first_failure chk s [] = None"
| "first_failure chk s ((n, p) # ts) =
     (if n = ''omitempty'' then (if s = [] then None else first_failure chk s ts)
      else if chk n p s then first_failure chk s ts else Some n)"

definition failures :: "(string \<Rightarrow> vcheck) \<Rightarrow> struct_field list \<Rightarrow> field_error list" where
  "failures chk s = concat (map (\<lambda>f. case first_failure chk (fvalue f) (ftags f) of
     None \<Rightarrow> [] | Some n \<Rightarrow> [\<lparr>err_field = fname f, err_tag = n\<rparr>]) s)"

definition library_ok :: "library \<Rightarrow> bool" where
  "library_ok l \<longleftrightarrow>
     (\<forall>chk s. run l chk s = (if failures chk s = [] then None else Some (ValidationErrors (failures chk s)))) \<and>
     (\<forall>p v. builtin l ''required'' p v \<longleftrightarrow> v \<noteq> []) \<and>
     (\<forall>p v. builtin l ''oneof'' p v \<longleftrightarrow> v \<in> set (split CHR '' '' p))"

section \<open>Bangladeshi mobile numbers\<close>

text \<open>The ten digits that identify a subscriber, and the prefixes they may be written with.\<close>

definition subscriber :: "string \<Rightarrow> bool" where
  "subscriber n \<longleftrightarrow> (\<exists>op rest. n = CHR ''1'' # op # rest \<and> 51 \<le> code op \<and> code op \<le> 57 \<and>
     length rest = 8 \<and> (\<forall>c \<in> set rest. is_digit c))"

definition phone_prefixes :: "string set" where
  "phone_prefixes = {''+880'', ''880'', ''0''}"

lemma bdPhoneRe_iff:
  "accepts bdPhoneRe s \<longleftrightarrow> (\<exists>pre n. s = pre @ n \<and> pre \<in> phone_prefixes \<and> subscriber n)"
proof -
  have "words (Or (seq [optional (literal ''+''), literal ''880'']) (literal ''0'')) = phone_prefixes"
    by (auto simp: phone_prefixes_def)
  moreover have "words (seq [literal ''1'', Class (\<lambda>c. 51 \<le> code c \<and> code c \<le> 57), repeat 8 (Class is_digit)]) =
      Collect subscriber"
  proof -
    have "words (Cat (repeat 8 (Class is_digit)) Empty) = {r. length r = 8 \<and> (\<forall>c \<in> set r. is_digit c)}"
      unfolding words.simps(4) words_repeat_Class by auto
    then have "words (Cat (Class (\<lambda>c. 51 \<le> code c \<and> code c \<le> 57)) (Cat (repeat 8 (Class is_digit)) Empty)) =
        {op # r | op r. (51 \<le> code op \<and> code op \<le> 57) \<and> r \<in> {r. length r = 8 \<and> (\<forall>c \<in> set r. is_digit c)}}"
      by (simp only: words_Cat_Class)
    then show ?thesis
      unfolding seq.simps words.simps(4) [of "literal _"] words_literal
      by (auto simp: subscriber_def)
  qed
  ultimately have "words bdPhoneRe = {p @ n | p n. p \<in> phone_prefixes \<and> n \<in> Collect subscriber}"
    unfolding bdPhoneRe_def seq.simps(2) [of "Or _ _"] words.simps(4) [of "Or _ _"] by (simp only:)
  then show ?thesis by (auto simp: accepts_iff)
qed

lemma phone_prefixes_plus: "pre \<in> phone_prefixes \<Longrightarrow> (\<forall>c \<in> set pre. is_digit c \<or> c = CHR ''+'')"
  by (auto simp: phone_prefixes_def is_digit_def)

lemma subscriber_digits: "subscriber n \<Longrightarrow> \<forall>c \<in> set n. is_digit c"
  by (auto simp: subscriber_def is_digit_def)

lemma digit_phone_char: "is_digit c \<Longrightarrow> phone_char c \<and> \<not> phone_noise c"
  by (auto simp: phone_char_def phone_noise_code is_digit_def)

lemma remove_phone_chars:
  "remove_char CHR ''-'' (remove_char CHR '' '' s) = filter (\<lambda>c. c \<noteq> CHR '' '' \<and> c \<noteq> CHR ''-'') s"
  by (simp add: remove_char_def)

lemma number_char:
  "is_digit c \<or> c = CHR ''+'' \<Longrightarrow> phone_char c \<and> (phone_noise c \<longleftrightarrow> c = CHR ''+'') \<and>
     c \<noteq> CHR '' '' \<and> c \<noteq> CHR ''-''"
  by (cases "c = CHR ''+''") (auto dest: digit_phone_char simp: phone_char_def phone_noise_def)

lemma number_chars:
  assumes "pre \<in> phone_prefixes" "subscriber n" "c \<in> set (pre @ n)"
  shows "is_digit c \<or> c = CHR ''+''"
  using assms phone_prefixes_plus [of pre] subscriber_digits [of n] by auto

lemma bdphone_iff:
  "bdphone v \<longleftrightarrow> (\<exists>pre n. remove_char CHR ''-'' (remove_char CHR '' '' v) = pre @ n \<and>
     pre \<in> phone_prefixes \<and> subscriber n)"
  by (simp add: bdphone_def bdPhoneRe_iff)

text \<open>What the blind index hashes for an accepted number: its digits.\<close>

lemma accepted_chars:
  assumes "remove_char CHR ''-'' (remove_char CHR '' '' v) = pre @ n"
    "pre \<in> phone_prefixes" "subscriber n"
  shows "\<forall>c \<in> set v. phone_char c"
proof
  fix c assume c: "c \<in> set v"
  show "phone_char c"
  proof (cases "c = CHR '' '' \<or> c = CHR ''-''")
    case False
    then have "c \<in> set (pre @ n)" using c assms(1) [symmetric] by (simp add: remove_phone_chars)
    then show ?thesis using number_char number_chars [OF assms(2,3)] by blast
  qed (auto simp: phone_char_def phone_noise_def)
qed

lemma normalize_number:
  assumes "remove_char CHR ''-'' (remove_char CHR '' '' v) = pre @ n"
    "pre \<in> phone_prefixes" "subscriber n"
  shows "normalize v = remove_char CHR ''+'' pre @ n"
proof -
  have "normalize v = filter (\<lambda>c. \<not> phone_noise c) v" using accepted_chars [OF assms] by (rule normalize_phone)
  also have "\<dots> = filter (\<lambda>c. \<not> phone_noise c) (pre @ n)"
    unfolding assms(1) [symmetric] remove_phone_chars filter_filter
    by (rule filter_cong) (auto simp: phone_noise_def)
  also have "\<dots> = filter (\<lambda>c. c \<noteq> CHR ''+'') (pre @ n)"
    using number_char number_chars [OF assms(2,3)] by (intro filter_cong refl) blast
  also have "\<dots> = remove_char CHR ''+'' pre @ n"
    using subscriber_digits [OF assms(3)] by (auto simp: remove_char_def is_digit_def intro!: filter_eq_self)
  finally show ?thesis .
qed

lemma bdphone_chars: "bdphone v \<Longrightarrow> \<forall>c \<in> set v. phone_char c"
  unfolding bdphone_iff using accepted_chars by blast

lemma remove_plain:
  assumes "pre \<in> phone_prefixes" "subscriber n"
  shows "remove_char CHR ''-'' (remove_char CHR '' '' (pre @ n)) = pre @ n"
  unfolding remove_phone_chars using number_char number_chars [OF assms] by (intro filter_eq_self) blast

lemma bdphone_plain: "pre \<in> phone_prefixes \<Longrightarrow> subscriber n \<Longrightarrow> bdphone (pre @ n)"
  unfolding bdphone_iff using remove_plain by blast

lemma normalize_plain:
  "pre \<in> phone_prefixes \<Longrightarrow> subscriber n \<Longrightarrow> normalize (pre @ n) = remove_char CHR ''+'' pre @ n"
  by (rule normalize_number [OF remove_plain])

lemma normalize_bdphone:
  assumes "bdphone v"
  obtains pre n where "remove_char CHR ''-'' (remove_char CHR '' '' v) = pre @ n"
    "pre \<in> phone_prefixes" "subscriber n" "normalize v = remove_char CHR ''+'' pre @ n"
  using assms normalize_number unfolding bdphone_iff by blast

section \<open>Dates and images\<close>

lemma datestr_cases:
  "datestr s \<longleftrightarrow> (\<exists>t. valid_civil t \<and>
     trim_space s \<in> {format_iso t, format_dmy CHR ''-'' t, format_dmy CHR ''/'' t})"
  unfolding datestr_def date_layouts_def
  by (auto simp: time_parse_iso_iff time_parse_dmy_iff)

lemma words_seq5:
  "words (seq [literal a, r, literal b, s, t]) =
     {a @ u @ b @ v @ w | u v w. u \<in> words r \<and> v \<in> words s \<and> w \<in> words t}"
  by (rule set_eqI) (simp, blast)

lemma imgDataRe_iff:
  "accepts imgDataRe s \<longleftrightarrow> (\<exists>kind body pad.
     s = ''data:image/'' @ kind @ '';base64,'' @ body @ pad \<and>
     kind \<in> {''jpeg'', ''jpg'', ''png'', ''webp''} \<and> body \<noteq> [] \<and> (\<forall>c \<in> set body. b64_class c) \<and>
     (\<forall>c \<in> set pad. c = CHR ''=''))"
proof -
  have kinds: "words (any_of [literal ''jpeg'', literal ''jpg'', literal ''png'', literal ''webp'']) =
      {''jpeg'', ''jpg'', ''png'', ''webp''}"
    unfolding words_any_of by auto
  show ?thesis
    unfolding accepts_iff imgDataRe_def words_seq5 words_some1_Class words_Many_Class kinds mem_Collect_eq
    by (simp only: ex_simps conj_assoc)
qed

section \<open>Struct\<close>

definition field_ok :: "Validator \<Rightarrow> struct_field \<Rightarrow> bool" where
  "field_ok v f \<longleftrightarrow> first_failure (checks v) (fvalue f) (ftags f) = None"

lemma checks_New [simp]:
  "checks (NewValidator l) ''bdphone'' p = bdphone"
  "checks (NewValidator l) ''datestr'' p = datestr"
  "checks (NewValidator l) ''imgdata'' p = imgdata"
  by (rule ext, simp add: checks_def NewValidator_def RegisterValidation_def)+

lemma checks_builtin:
  "n \<notin> {''bdphone'', ''datestr'', ''imgdata''} \<Longrightarrow> checks (NewValidator l) n p s = builtin l n p s"
  by (simp add: checks_def NewValidator_def RegisterValidation_def)

lemma lib_New [simp]: "lib (NewValidator l) = l"
  by (simp add: NewValidator_def RegisterValidation_def)

lemma checks_library [simp]:
  assumes "library_ok l"
  shows "checks (NewValidator l) ''required'' p s \<longleftrightarrow> s \<noteq> []"
    "checks (NewValidator l) ''oneof'' p s \<longleftrightarrow> s \<in> set (split CHR '' '' p)"
  using assms by (simp_all add: checks_builtin library_ok_def)

lemma foldl_updates:
  "foldl (\<lambda>out x. out(g x \<mapsto> h x)) m xs = m ++ map_of (rev (map (\<lambda>x. (g x, h x)) xs))"
  by (induction xs arbitrary: m) (simp_all add: map_add_upd_left)

lemma set_failures:
  "fe \<in> set (failures chk s) \<longleftrightarrow> (\<exists>f \<in> set s. err_field fe = fname f \<and>
     first_failure chk (fvalue f) (ftags f) = Some (err_tag fe))"
proof -
  have "fe \<in> set (failures chk s) \<longleftrightarrow> (\<exists>f \<in> set s. \<exists>n. first_failure chk (fvalue f) (ftags f) = Some n \<and>
      fe = \<lparr>err_field = fname f, err_tag = n\<rparr>)"
    by (force simp: failures_def split: option.splits)
  then show ?thesis by (cases fe) auto
qed

lemma failures_Nil: "failures chk s = [] \<longleftrightarrow> (\<forall>f \<in> set s. first_failure chk (fvalue f) (ftags f) = None)"
  by (auto simp: failures_def split: option.splits)

lemma distinct_failures:
  "distinct (map (g \<circ> fname) s) \<Longrightarrow> distinct (map (g \<circ> err_field) (failures chk s))"
proof (induction s)
  case (Cons f s)
  have "(g \<circ> err_field) ` set (failures chk s) \<subseteq> (g \<circ> fname) ` set s"
    by (auto simp: set_failures)
  then have fresh: "g (fname f) \<notin> (g \<circ> err_field) ` set (failures chk s)" using Cons.prems by auto
  show ?case
  proof (cases "first_failure chk (fvalue f) (ftags f)")
    case None
    then have "failures chk (f # s) = failures chk s" by (simp add: failures_def)
    then show ?thesis using Cons by simp
  next
    case (Some n)
    then have "failures chk (f # s) = \<lparr>err_field = fname f, err_tag = n\<rparr> # failures chk s"
      by (simp add: failures_def)
    then show ?thesis using Cons fresh by simp
  qed
qed (simp add: failures_def)

lemma Struct_ok:
  assumes "library_ok (lib v)"
  shows "Struct v s = None \<longleftrightarrow> (\<forall>f \<in> set s. field_ok v f)"
  using assms by (simp add: Struct_def library_ok_def field_ok_def failures_Nil asValidationErrors_def)

lemma Struct_errors:
  assumes "library_ok (lib v)" "distinct (map (to_lower \<circ> fname) s)" "Struct v s = Some m"
  shows "m k = Some msg \<longleftrightarrow> (\<exists>f \<in> set s. \<exists>tag. k = to_lower (fname f) \<and>
     first_failure (checks v) (fvalue f) (ftags f) = Some tag \<and> msg = message tag)"
proof -
  let ?errs = "failures (checks v) s"
  have "m = map_of (rev (map (\<lambda>fe. (to_lower (err_field fe), message (err_tag fe))) ?errs))"
    using assms by (auto simp: Struct_def library_ok_def asValidationErrors_def foldl_updates split: if_splits)
  moreover have "distinct (map fst (rev (map (\<lambda>fe. (to_lower (err_field fe), message (err_tag fe))) ?errs)))"
    using distinct_failures [OF assms(2), of "checks v"] by (simp add: rev_map [symmetric] o_def)
  ultimately have "m k = Some msg \<longleftrightarrow> (k, msg) \<in> set (map (\<lambda>fe. (to_lower (err_field fe), message (err_tag fe))) ?errs)"
    by (simp only: map_of_eq_Some_iff set_rev)
  also have "\<dots> \<longleftrightarrow> (\<exists>fe \<in> set ?errs. k = to_lower (err_field fe) \<and> msg = message (err_tag fe))" by auto
  also have "\<dots> \<longleftrightarrow> (\<exists>f \<in> set s. \<exists>tag. k = to_lower (fname f) \<and>
     first_failure (checks v) (fvalue f) (ftags f) = Some tag \<and> msg = message tag)"
  proof (intro iffI; elim bexE exE conjE)
    fix f tag
    assume "f \<in> set s" "k = to_lower (fname f)" "msg = message tag"
      "first_failure (checks v) (fvalue f) (ftags f) = Some tag"
    then show "\<exists>fe \<in> set ?errs. k = to_lower (err_field fe) \<and> msg = message (err_tag fe)"
      by (intro bexI [of _ "\<lparr>err_field = fname f, err_tag = tag\<rparr>"]) (auto simp: set_failures)
  qed (auto simp: set_failures)
  finally show ?thesis .
qed

text \<open>
  A concrete library with these laws, for the witnesses; its checks of addresses and lengths are
  coarse, and no theorem depends on them.
\<close>

definition sample_builtin :: "string \<Rightarrow> vcheck" where
  "sample_builtin n p s =
     (if n = ''required'' then s \<noteq> []
      else if n = ''oneof'' then s \<in> set (split CHR '' '' p)
      else if n = ''numeric'' then (\<forall>c \<in> set s. is_digit c)
      else if n = ''email'' then CHR ''@'' \<in> set s
      else True)"

definition sample_library :: library where
  "sample_library = \<lparr>builtin = sample_builtin,
     run = \<lambda>chk s. if failures chk s = [] then None else Some (ValidationErrors (failures chk s))\<rparr>"

lemma sample_library_ok: "library_ok sample_library"
  by (simp add: library_ok_def sample_library_def sample_builtin_def)

lemma bdphone_sample: "bdphone ''01712-345678''"
proof -
  have "remove_char CHR ''-'' (remove_char CHR '' '' ''01712-345678'') = ''0'' @ ''1712345678''"
    by (simp add: remove_char_def)
  moreover have "''0'' \<in> phone_prefixes" "subscriber ''1712345678''"
    by (simp_all add: phone_prefixes_def subscriber_def is_digit_def)
  ultimately show ?thesis unfolding bdphone_iff by blast
qed

lemma datestr_sample: "datestr ''02/01/2001''"
proof -
  have "trim_space ''02/01/2001'' = ''02/01/2001''" by (rule trim_space_solid) (simp_all add: solid_code)
  moreover have "time_parse (dmy_layout CHR ''/'') ''02/01/2001'' \<noteq> None"
    by (simp add: time_parse_def dmy_layout_def is_digit_def num2_def num4_def digit_val_def days_in_def)
  ultimately show ?thesis by (auto simp: datestr_def date_layouts_def)
qed

lemma imgdata_sample: "imgdata ''data:image/png;base64,QUJD''"
proof -
  have "trim_space ''data:image/png;base64,QUJD'' = ''data:image/png;base64,QUJD''"
    by (rule trim_space_solid) (simp_all add: solid_code)
  moreover have "''data:image/png;base64,QUJD'' = ''data:image/'' @ ''png'' @ '';base64,'' @ ''QUJD'' @ []"
    by simp
  moreover have "\<forall>c \<in> set ''QUJD''. b64_class c" by (simp add: b64_class_def)
  ultimately show ?thesis
    unfolding imgdata_def imgDataRe_iff by (metis insertI1 insertI2 list.distinct(1) empty_iff list.set(1))
qed

section \<open>Properties\<close>

text \<open>
  C39. The phone rule, spaces and dashes removed, accepts exactly a ten-digit subscriber number, 1,
  then a digit from 3 to 9, then eight digits, behind one of the prefixes +880, 880 and 0.
\<close>

theorem bdphone_accepts:
  "bdphone v \<longleftrightarrow> (\<exists>pre op rest.
     filter (\<lambda>c. c \<noteq> CHR '' '' \<and> c \<noteq> CHR ''-'') v = pre @ CHR ''1'' # op # rest \<and>
     pre \<in> {''+880'', ''880'', ''0''} \<and> op \<in> set ''3456789'' \<and> length rest = 8 \<and>
     set rest \<subseteq> set ''0123456789'')"
proof -
  have digit: "is_digit c \<longleftrightarrow> c \<in> set ''0123456789''" for c
    by (simp add: is_digit_def of_char_eq_iff [symmetric, where ?'a = nat] del: of_char_eq_iff) presburger
  have op: "51 \<le> code c \<and> code c \<le> 57 \<longleftrightarrow> c \<in> set ''3456789''" for c
    by (simp add: of_char_eq_iff [symmetric, where ?'a = nat] del: of_char_eq_iff) presburger
  have sub: "subscriber n \<longleftrightarrow> (\<exists>op rest. n = CHR ''1'' # op # rest \<and> op \<in> set ''3456789'' \<and>
      length rest = 8 \<and> set rest \<subseteq> set ''0123456789'')" for n
    by (simp only: subscriber_def subset_eq op [symmetric] digit [symmetric] conj_assoc)
  show ?thesis unfolding bdphone_iff remove_phone_chars phone_prefixes_def sub by blast
qed

text \<open>
  C40. The rule accepts one subscriber number with and without the country code, but the blind
  index normalizes the two forms to different strings: the service does not see that they are
  the same phone.
\<close>

theorem phone_forms_not_unified:
  assumes "subscriber n"
  shows "bdphone (''0'' @ n) \<and> bdphone (''+880'' @ n) \<and> bdphone (''880'' @ n) \<and>
    normalize (''+880'' @ n) = normalize (''880'' @ n) \<and>
    normalize (''0'' @ n) \<noteq> normalize (''+880'' @ n)"
proof -
  have pre: "''0'' \<in> phone_prefixes" "''+880'' \<in> phone_prefixes" "''880'' \<in> phone_prefixes"
    by (simp_all add: phone_prefixes_def)
  have norm: "normalize (''0'' @ n) = ''0'' @ n" "normalize (''+880'' @ n) = ''880'' @ n"
    "normalize (''880'' @ n) = ''880'' @ n"
    using pre [THEN normalize_plain, OF assms] by (simp_all only: remove_char_def) simp_all
  show ?thesis
    using pre [THEN bdphone_plain, OF assms] unfolding norm by simp
qed

theorem phone_forms_not_unified_witness:
  "normalize (''0'' @ ''1712345678'') \<noteq> normalize (''+880'' @ ''1712345678'')"
proof -
  have "subscriber ''1712345678''" by (simp add: subscriber_def is_digit_def)
  then show ?thesis using phone_forms_not_unified by blast
qed

text \<open>
  The date rule accepts exactly, up to surrounding white space, the calendar dates of the
  years 0000 to 9999 in the layouts yyyy-mm-dd, dd-mm-yyyy and dd/mm/yyyy.
\<close>

theorem datestr_accepts:
  "datestr s \<longleftrightarrow> (\<exists>t. valid_civil t \<and>
     trim_space s \<in> {format_iso t, format_dmy CHR ''-'' t, format_dmy CHR ''/'' t})"
  by (rule datestr_cases)

text \<open>
  The photo rule accepts exactly, up to surrounding white space, a data URI of a jpeg, jpg,
  png or webp image whose payload is a non-empty string over the base64 alphabet, padded.
\<close>

theorem imgdata_accepts:
  "imgdata s \<longleftrightarrow> (\<exists>kind body n.
     trim_space s = ''data:image/'' @ kind @ '';base64,'' @ body @ replicate n CHR ''='' \<and>
     kind \<in> {''jpeg'', ''jpg'', ''png'', ''webp''} \<and> body \<noteq> [] \<and> (\<forall>c \<in> set body. b64_class c))"
proof -
  have pad: "(\<forall>c \<in> set p. c = CHR ''='') \<longleftrightarrow> (\<exists>n. p = replicate n CHR ''='')" for p
    using replicate_length_same [of p "CHR ''=''"] by (metis in_set_replicate)
  show ?thesis unfolding imgdata_def imgDataRe_iff pad by blast
qed

theorem imgdata_accepts_witness: "imgdata ''data:image/png;base64,QUJD''"
proof -
  have t: "trim_space ''data:image/png;base64,QUJD'' = ''data:image/png;base64,QUJD''"
    by (rule trim_space_solid) (simp_all add: solid_code)
  have "''data:image/png;base64,QUJD'' =
      ''data:image/'' @ ''png'' @ '';base64,'' @ ''QUJD'' @ replicate 0 CHR ''=''" by simp
  moreover have "\<forall>c \<in> set ''QUJD''. b64_class c" by (simp add: b64_class_def)
  ultimately show ?thesis unfolding imgdata_accepts t by blast
qed

text \<open>
  C28. \<open>Struct\<close> returns nil exactly when every field passes its tags. Otherwise it returns one
  message for each failing field and nothing else, under the lower-case name of the field: the
  message of the first tag that fails.
\<close>

theorem Struct_reports_failures:
  assumes "library_ok (lib v)" "distinct (map (to_lower \<circ> fname) s)"
  shows "case Struct v s of
      None \<Rightarrow> \<forall>f \<in> set s. field_ok v f
    | Some m \<Rightarrow> (\<exists>f \<in> set s. \<not> field_ok v f) \<and>
        (\<forall>k msg. m k = Some msg \<longleftrightarrow> (\<exists>f \<in> set s. \<exists>tag. k = to_lower (fname f) \<and>
           first_failure (checks v) (fvalue f) (ftags f) = Some tag \<and> msg = message tag))"
  using Struct_ok [OF assms(1), of s] Struct_errors [OF assms]
  by (auto split: option.split)

theorem Struct_reports_failures_witness:
  "Struct (NewValidator sample_library)
     [\<lparr>fname = ''Phone'', fvalue = ''12'', ftags = [(''required'', []), (''bdphone'', [])]\<rparr>] \<noteq> None"
proof -
  have "\<not> bdphone ''12''"
    by (auto simp: bdphone_iff remove_char_def phone_prefixes_def subscriber_def Cons_eq_append_conv)
  then have "\<not> field_ok (NewValidator sample_library)
      \<lparr>fname = ''Phone'', fvalue = ''12'', ftags = [(''required'', []), (''bdphone'', [])]\<rparr>"
    using sample_library_ok by (simp add: field_ok_def)
  then show ?thesis
    using Struct_reports_failures [of "NewValidator sample_library"
        "[\<lparr>fname = ''Phone'', fvalue = ''12'', ftags = [(''required'', []), (''bdphone'', [])]\<rparr>]"]
      sample_library_ok by (intro notI) simp
qed

end
