(* ===== verification/Models.thy ===== *)
theory Models
  imports Validate
begin

text \<open>
  The package \<open>internal/models\<close>: request payloads with their validation tags, the stored
  application, and the two views that are sent to clients. A field carries a prefix for its struct,
  so \<open>Name\<close> of \<open>ApplicationInput\<close> is \<open>in_Name\<close>. Since the struct tags drive the validator by
  reflection, each payload has a function to the list of its fields with their tags.

  A JSON body is a value of \<open>json\<close>; an object lists its members in the order of the source, or
  is a Go map from strings to strings.
  Timestamps are kept to the day, which is all that the program ever reads of them.
\<close>

datatype json =
    JBool bool
  | JString string
  | JArray "json list"
  | JObject "(string \<times> json) list"
  | JMap "string \<rightharpoonup> string"

section \<open>Applications\<close>

record ApplicationInput =
  in_Name :: string
  in_Gender :: string
  in_Email :: string
  in_Phone :: string
  in_DOB :: string
  in_Address :: string
  in_Division :: string
  in_District :: string
  in_Education :: string
  in_GPA :: string
  in_PassingYear :: string
  in_ComputerSkill :: string
  in_OwnComputer :: string
  in_CanAttend :: string
  in_PhotoData :: string

abbreviation vfield :: "string \<Rightarrow> string \<Rightarrow> vtag list \<Rightarrow> struct_field" where
  "vfield n v ts \<equiv> \<lparr>fname = n, fvalue = v, ftags = ts\<rparr>"

definition ApplicationInput_fields :: "ApplicationInput \<Rightarrow> struct_field list" where
  "ApplicationInput_fields a =
    [vfield ''Name'' (in_Name a) [(''required'', []), (''min'', ''2''), (''max'', ''120'')],
     vfield ''Gender'' (in_Gender a) [(''required'', []), (''oneof'', ''male female other'')],
     vfield ''Email'' (in_Email a) [(''required'', []), (''email'', []), (''max'', ''160'')],
     vfield ''Phone'' (in_Phone a) [(''required'', []), (''bdphone'', [])],
     vfield ''DOB'' (in_DOB a) [(''required'', []), (''datestr'', [])],
     vfield ''Address'' (in_Address a) [(''required'', []), (''min'', ''5''), (''max'', ''400'')],
     vfield ''Division'' (in_Division a) [(''required'', []), (''max'', ''40'')],
     vfield ''District'' (in_District a) [(''required'', []), (''max'', ''40'')],
     vfield ''Education'' (in_Education a) [(''required'', []), (''max'', ''120'')],
     vfield ''GPA'' (in_GPA a) [(''required'', []), (''max'', ''20'')],
     vfield ''PassingYear'' (in_PassingYear a) [(''required'', []), (''numeric'', []), (''len'', ''4'')],
     vfield ''ComputerSkill'' (in_ComputerSkill a)
       [(''required'', []), (''oneof'', ''none basic intermediate advanced'')],
     vfield ''OwnComputer'' (in_OwnComputer a) [(''required'', []), (''oneof'', ''yes no'')],
     vfield ''CanAttend'' (in_CanAttend a) [(''required'', []), (''oneof'', ''yes no'')],
     vfield ''PhotoData'' (in_PhotoData a) [(''required'', []), (''imgdata'', []), (''max'', ''2500000'')]]"

record Application =
  ID :: string
  NameEnc :: string
  PhoneEnc :: string
  EmailEnc :: string
  DOBEnc :: string
  AddressEnc :: string
  EducationEnc :: string
  GPAEnc :: string
  PhotoEnc :: string
  Gender :: string
  PassingYear :: string
  ComputerSkill :: string
  OwnComputer :: string
  CanAttend :: string
  App_Division :: string
  App_District :: string
  PhoneBIdx :: string
  PhoneDOBBIdx :: string
  Batch :: string
  RollNo :: "string option"
  AdmissionConfirmed :: bool
  Status :: string
  CreatedAt :: civil
  UpdatedAt :: civil

record AdmitCardLookup =
  lk_Phone :: string
  lk_DOB :: string

definition AdmitCardLookup_fields :: "AdmitCardLookup \<Rightarrow> struct_field list" where
  "AdmitCardLookup_fields a =
    [vfield ''Phone'' (lk_Phone a) [(''required'', []), (''bdphone'', [])],
     vfield ''DOB'' (lk_DOB a) [(''required'', []), (''datestr'', [])]]"

section \<open>Views\<close>

record AdmitCardView =
  av_ID :: string
  av_Name :: string
  av_Phone :: string
  av_Email :: string
  av_Division :: string
  av_District :: string
  av_Address :: string
  av_Education :: string
  av_PhotoURL :: string
  av_Batch :: string
  av_RollNo :: string
  av_AdmissionConfirmed :: bool
  av_Status :: string
  av_ApplicationDate :: string
  av_VerifyCode :: string

definition omitempty :: "string \<Rightarrow> string \<Rightarrow> (string \<times> json) list" where
  "omitempty k v = (if v = [] then [] else [(k, JString v)])"

definition AdmitCardView_json :: "AdmitCardView \<Rightarrow> json" where
  "AdmitCardView_json v = JObject
    ([(''id'', JString (av_ID v)), (''name'', JString (av_Name v)), (''phone'', JString (av_Phone v))] @
     omitempty ''email'' (av_Email v) @
     [(''division'', JString (av_Division v)), (''district'', JString (av_District v))] @
     omitempty ''address'' (av_Address v) @
     omitempty ''education'' (av_Education v) @
     omitempty ''photoUrl'' (av_PhotoURL v) @
     omitempty ''batch'' (av_Batch v) @
     omitempty ''rollNo'' (av_RollNo v) @
     [(''admissionConfirmed'', JBool (av_AdmissionConfirmed v)), (''status'', JString (av_Status v))] @
     omitempty ''applicationDate'' (av_ApplicationDate v) @
     omitempty ''verifyCode'' (av_VerifyCode v))"

record VerifyView =
  vv_Valid :: bool
  vv_DocType :: string
  vv_Status :: string
  vv_Batch :: string
  vv_RollNo :: string
  vv_AdmissionConfirmed :: bool
  vv_IssuedDate :: string

definition VerifyView_json :: "VerifyView \<Rightarrow> json" where
  "VerifyView_json v = JObject
    ([(''valid'', JBool (vv_Valid v))] @
     omitempty ''docType'' (vv_DocType v) @
     omitempty ''status'' (vv_Status v) @
     omitempty ''batch'' (vv_Batch v) @
     omitempty ''rollNo'' (vv_RollNo v) @
     (if vv_AdmissionConfirmed v then [(''admissionConfirmed'', JBool True)] else []) @
     omitempty ''issuedDate'' (vv_IssuedDate v))"

section \<open>Contact and newsletter\<close>

record ContactInput =
  ct_Name :: string
  ct_Email :: string
  ct_Phone :: string
  ct_Subject :: string
  ct_Message :: string

definition ContactInput_fields :: "ContactInput \<Rightarrow> struct_field list" where
  "ContactInput_fields a =
    [vfield ''Name'' (ct_Name a) [(''required'', []), (''min'', ''2''), (''max'', ''120'')],
     vfield ''Email'' (ct_Email a) [(''omitempty'', []), (''email'', []), (''max'', ''160'')],
     vfield ''Phone'' (ct_Phone a) [(''omitempty'', []), (''bdphone'', [])],
     vfield ''Subject'' (ct_Subject a) [(''omitempty'', []), (''max'', ''160'')],
     vfield ''Message'' (ct_Message a) [(''required'', []), (''min'', ''5''), (''max'', ''2000'')]]"

record NewsletterInput =
  nl_Email :: string

definition NewsletterInput_fields :: "NewsletterInput \<Rightarrow> struct_field list" where
  "NewsletterInput_fields a =
    [vfield ''Email'' (nl_Email a) [(''required'', []), (''email'', []), (''max'', ''160'')]]"

section \<open>What validation guarantees\<close>

lemmas payload_fields = ApplicationInput_fields_def AdmitCardLookup_fields_def ContactInput_fields_def
  NewsletterInput_fields_def

lemma field_ok_required:
  "library_ok l \<Longrightarrow> field_ok (NewValidator l) (vfield n v ((''required'', []) # ts)) \<longleftrightarrow>
     v \<noteq> [] \<and> field_ok (NewValidator l) (vfield n v ts)"
  by (simp add: field_ok_def)

lemma field_ok_step:
  "n \<noteq> ''omitempty'' \<Longrightarrow> field_ok w (vfield f v ((n, p) # ts)) \<longleftrightarrow> checks w n p v \<and> field_ok w (vfield f v ts)"
  by (simp add: field_ok_def)

lemma field_ok_omitempty:
  "field_ok w (vfield f v ((''omitempty'', p) # ts)) \<longleftrightarrow> v = [] \<or> field_ok w (vfield f v ts)"
  by (simp add: field_ok_def)

lemma field_ok_Nil: "field_ok w (vfield f v [])"
  by (simp add: field_ok_def)

lemmas field_ok_simps = field_ok_required field_ok_step field_ok_omitempty field_ok_Nil

lemma split_simps:
  "split CHR '' '' ''yes no'' = [''yes'', ''no'']"
  "split CHR '' '' ''male female other'' = [''male'', ''female'', ''other'']"
  "split CHR '' '' ''none basic intermediate advanced'' = [''none'', ''basic'', ''intermediate'', ''advanced'']"
  by simp_all

lemma payload_names:
  "distinct (map (to_lower \<circ> fname) (ApplicationInput_fields a))"
  "distinct (map (to_lower \<circ> fname) (AdmitCardLookup_fields b))"
  "distinct (map (to_lower \<circ> fname) (ContactInput_fields c))"
  "distinct (map (to_lower \<circ> fname) (NewsletterInput_fields d))"
  by (simp_all add: payload_fields to_lower_Cons_ascii lower_char_def)

lemma valid_application:
  assumes "library_ok l" "Struct (NewValidator l) (ApplicationInput_fields a) = None"
  shows "bdphone (in_Phone a)" "datestr (in_DOB a)" "imgdata (in_PhotoData a)"
    "in_Gender a \<in> {''male'', ''female'', ''other''}"
    "in_ComputerSkill a \<in> {''none'', ''basic'', ''intermediate'', ''advanced''}"
    "in_OwnComputer a \<in> {''yes'', ''no''}" "in_CanAttend a \<in> {''yes'', ''no''}"
    "\<forall>f \<in> set (ApplicationInput_fields a). fvalue f \<noteq> []"
proof -
  have ok: "\<forall>f \<in> set (ApplicationInput_fields a). field_ok (NewValidator l) f"
    using Struct_ok [of "NewValidator l"] assms by simp
  show "bdphone (in_Phone a)" "datestr (in_DOB a)" "imgdata (in_PhotoData a)"
    "in_Gender a \<in> {''male'', ''female'', ''other''}"
    "in_ComputerSkill a \<in> {''none'', ''basic'', ''intermediate'', ''advanced''}"
    "in_OwnComputer a \<in> {''yes'', ''no''}" "in_CanAttend a \<in> {''yes'', ''no''}"
    "\<forall>f \<in> set (ApplicationInput_fields a). fvalue f \<noteq> []"
    using ok assms(1)
    by (simp_all add: ApplicationInput_fields_def field_ok_simps split_simps del: split.simps)
qed

lemma valid_lookup:
  assumes "library_ok l" "Struct (NewValidator l) (AdmitCardLookup_fields a) = None"
  shows "bdphone (lk_Phone a)" "datestr (lk_DOB a)"
  using Struct_ok [of "NewValidator l"] assms
  by (simp_all add: AdmitCardLookup_fields_def field_ok_simps)

lemma valid_contact:
  assumes "library_ok l" "Struct (NewValidator l) (ContactInput_fields a) = None"
  shows "ct_Phone a = [] \<or> bdphone (ct_Phone a)" "ct_Name a \<noteq> []" "ct_Message a \<noteq> []"
  using Struct_ok [of "NewValidator l"] assms
  by (simp_all add: ContactInput_fields_def field_ok_simps)

section \<open>Properties\<close>

definition sample_application :: ApplicationInput where
  "sample_application = \<lparr>in_Name = ''Rahim'', in_Gender = ''male'', in_Email = ''r@example.com'',
     in_Phone = ''01712-345678'', in_DOB = ''02/01/2001'', in_Address = ''12 Lake Road'',
     in_Division = ''Dhaka'', in_District = ''Gazipur'', in_Education = ''HSC'', in_GPA = ''5.00'',
     in_PassingYear = ''2018'', in_ComputerSkill = ''basic'', in_OwnComputer = ''yes'',
     in_CanAttend = ''yes'', in_PhotoData = ''data:image/png;base64,QUJD''\<rparr>"

lemma sample_application_valid:
  "Struct (NewValidator sample_library) (ApplicationInput_fields sample_application) = None"
proof -
  have "\<forall>f \<in> set (ApplicationInput_fields sample_application). field_ok (NewValidator sample_library) f"
    using bdphone_sample datestr_sample imgdata_sample sample_library_ok
    by (simp add: ApplicationInput_fields_def sample_application_def field_ok_simps checks_builtin
        sample_library_def sample_builtin_def is_digit_def)
  then show ?thesis by (simp add: Struct_ok sample_library_ok)
qed

text \<open>
  C29. An application that passes validation has a Bangladeshi mobile number, a date of birth in
  one of the three layouts, an inline image, categorical answers from the allowed tokens, and no
  empty field.
\<close>

theorem valid_application_shape:
  assumes "library_ok l" "Struct (NewValidator l) (ApplicationInput_fields a) = None"
  shows "bdphone (in_Phone a) \<and> datestr (in_DOB a) \<and> imgdata (in_PhotoData a) \<and>
    in_Gender a \<in> {''male'', ''female'', ''other''} \<and>
    in_ComputerSkill a \<in> {''none'', ''basic'', ''intermediate'', ''advanced''} \<and>
    in_OwnComputer a \<in> {''yes'', ''no''} \<and> in_CanAttend a \<in> {''yes'', ''no''} \<and>
    (\<forall>f \<in> set (ApplicationInput_fields a). fvalue f \<noteq> [])"
  using valid_application [OF assms] by blast

theorem valid_application_shape_witness:
  "Struct (NewValidator sample_library) (ApplicationInput_fields sample_application) = None \<and>
     in_Gender sample_application \<in> {''male'', ''female'', ''other''}"
  using valid_application_shape [OF sample_library_ok sample_application_valid] sample_application_valid by blast

end
