(* ===== verification/Store.thy ===== *)
theory Store
  imports Models
begin

text \<open>
  The database as the program uses it: the tables of \<open>migrations/*.sql\<close> with their unique indexes,
  the seven SQL statements of \<open>internal/repository\<close> with their effect, and the two pools of
  \<open>internal/database\<close>.

  A repository operation is a \<open>prog\<close>: a statement on a pool with a continuation for its reply, or
  a result. Running one request after the other and interleaving the statements of many requests
  are two ways to execute the same programs. Everything the server, the network and the database
  choose (whether a statement arrives, whether its reply does, the UUID, the clock, which of
  several rows \<open>LIMIT 1\<close> takes) is in the environment of the statement.
\<close>

section \<open>Tables\<close>

text \<open>A stored application also has the columns that the Go struct leaves out.\<close>

record application_row = Application +
  PhotoURLCol :: string
  VerifyCode :: string

record contact_row =
  cm_ID :: string
  cm_NameEnc :: string
  cm_EmailEnc :: string
  cm_PhoneEnc :: string
  cm_Subject :: string
  cm_MessageEnc :: string
  cm_CreatedAt :: civil

record subscriber_row =
  ns_ID :: string
  ns_EmailEnc :: string
  ns_EmailBIdx :: string
  ns_CreatedAt :: civil

record tables =
  applications :: "application_row list"
  contact_messages :: "contact_row list"
  newsletter_subscribers :: "subscriber_row list"

text \<open>
  Two rows that one of the unique indexes on applications keeps apart: those of the first migration, and
  the one on the verification code. Two of the indexes are partial.
\<close>

definition init_clash :: "application_row \<Rightarrow> application_row \<Rightarrow> bool" where
  "init_clash r s \<longleftrightarrow> ID r = ID s \<or> PhoneBIdx r = PhoneBIdx s \<or> (RollNo r \<noteq> None \<and> RollNo r = RollNo s)"

definition code_clash :: "application_row \<Rightarrow> application_row \<Rightarrow> bool" where
  "code_clash r s \<longleftrightarrow> VerifyCode r \<noteq> [] \<and> VerifyCode r = VerifyCode s"

definition clash :: "application_row \<Rightarrow> application_row \<Rightarrow> bool" where
  "clash r s \<longleftrightarrow> init_clash r s \<or> code_clash r s"

lemmas clash_defs = clash_def init_clash_def code_clash_def

definition subscriber_clash :: "subscriber_row \<Rightarrow> subscriber_row \<Rightarrow> bool" where
  "subscriber_clash r s \<longleftrightarrow> ns_ID r = ns_ID s \<or> ns_EmailBIdx r = ns_EmailBIdx s"

section \<open>Statements\<close>

record application_values =
  v_name_enc :: string
  v_phone_enc :: string
  v_email_enc :: string
  v_dob_enc :: string
  v_address_enc :: string
  v_education_enc :: string
  v_gpa_enc :: string
  v_photo_enc :: string
  v_gender :: string
  v_passing_year :: string
  v_computer_skill :: string
  v_own_computer :: string
  v_can_attend :: string
  v_division :: string
  v_district :: string
  v_phone_bidx :: string
  v_phone_dob_bidx :: string
  v_batch :: string

datatype stmt =
    Insert_application application_values
  | Set_verify_code string string
  | Fill_verify_code string string
  | Select_admit_card string
  | Select_by_code string
  | Insert_contact string string string string string
  | Insert_subscriber string string

datatype db_error =
    PgError string
  | ConnError

datatype reply =
    Failed db_error
  | NoRows
  | Inserted string
  | Row application_row
  | Executed

datatype pool = Primary | Replica

text \<open>
  What may happen to a statement: it is executed and answered, it never arrives, or it is executed
  and the answer is lost.
\<close>

datatype delivery = Up | Down | Lost_reply

record stmt_env =
  delivery :: delivery
  new_uuid :: string
  now :: civil
  pick :: nat

definition unique_violation :: string where
  "unique_violation = ''23505''"

text \<open>A TEXT value is valid UTF-8 without the byte 0; the server rejects any other parameter.\<close>

definition text_ok :: "string \<Rightarrow> bool" where
  "text_ok s \<longleftrightarrow> (\<forall>c \<in> set s. code c \<noteq> 0) \<and> concat (map encode_rune (runes s)) = s"

definition bad_text :: string where
  "bad_text = ''22021''"

definition values_texts :: "application_values \<Rightarrow> string list" where
  "values_texts v = [v_name_enc v, v_phone_enc v, v_email_enc v, v_dob_enc v, v_address_enc v,
     v_education_enc v, v_gpa_enc v, v_photo_enc v, v_gender v, v_passing_year v,
     v_computer_skill v, v_own_computer v, v_can_attend v, v_division v, v_district v,
     v_phone_bidx v, v_phone_dob_bidx v, v_batch v]"

fun params :: "stmt \<Rightarrow> string list" where
  "params (Insert_application v) = values_texts v"
| "params (Set_verify_code c i) = [c, i]"
| "params (Fill_verify_code c i) = [c, i]"
| "params (Select_admit_card b) = [b]"
| "params (Select_by_code c) = [c]"
| "params (Insert_contact n e p s m) = [n, e, p, s, m]"
| "params (Insert_subscriber e b) = [e, b]"

text \<open>A new row: the inserted values, and the defaults of the schema for the other columns.\<close>

definition new_row :: "stmt_env \<Rightarrow> application_values \<Rightarrow> application_row" where
  "new_row e v = \<lparr>ID = new_uuid e, NameEnc = v_name_enc v, PhoneEnc = v_phone_enc v,
     EmailEnc = v_email_enc v, DOBEnc = v_dob_enc v, AddressEnc = v_address_enc v,
     EducationEnc = v_education_enc v, GPAEnc = v_gpa_enc v, PhotoEnc = v_photo_enc v,
     Gender = v_gender v, PassingYear = v_passing_year v, ComputerSkill = v_computer_skill v,
     OwnComputer = v_own_computer v, CanAttend = v_can_attend v, App_Division = v_division v,
     App_District = v_district v, PhoneBIdx = v_phone_bidx v, PhoneDOBBIdx = v_phone_dob_bidx v,
     Batch = v_batch v, RollNo = None, AdmissionConfirmed = False, Status = ''submitted'',
     CreatedAt = now e, UpdatedAt = now e, PhotoURLCol = [], VerifyCode = []\<rparr>"

definition new_contact :: "stmt_env \<Rightarrow> string \<Rightarrow> string \<Rightarrow> string \<Rightarrow> string \<Rightarrow> string \<Rightarrow> contact_row" where
  "new_contact e n em p s m = \<lparr>cm_ID = new_uuid e, cm_NameEnc = n, cm_EmailEnc = em, cm_PhoneEnc = p,
     cm_Subject = s, cm_MessageEnc = m, cm_CreatedAt = now e\<rparr>"

definition new_subscriber :: "stmt_env \<Rightarrow> string \<Rightarrow> string \<Rightarrow> subscriber_row" where
  "new_subscriber e em b = \<lparr>ns_ID = new_uuid e, ns_EmailEnc = em, ns_EmailBIdx = b, ns_CreatedAt = now e\<rparr>"

definition insert_application :: "application_row \<Rightarrow> tables \<Rightarrow> reply \<times> tables" where
  "insert_application r t =
     (if \<exists>s \<in> set (applications t). clash r s then (Failed (PgError unique_violation), t)
      else (Inserted (ID r), t\<lparr>applications := applications t @ [r]\<rparr>))"

text \<open>\<open>UPDATE applications SET verify_code = c WHERE hit\<close>.\<close>

definition update_code :: "(application_row \<Rightarrow> bool) \<Rightarrow> string \<Rightarrow> tables \<Rightarrow> reply \<times> tables" where
  "update_code hit c t =
     (if c \<noteq> [] \<and> (\<exists>r \<in> set (applications t). hit r) \<and>
         (\<exists>s \<in> set (applications t). \<not> hit s \<and> VerifyCode s = c)
      then (Failed (PgError unique_violation), t)
      else (Executed, t\<lparr>applications :=
        map (\<lambda>r. if hit r then r\<lparr>VerifyCode := c\<rparr> else r) (applications t)\<rparr>))"

text \<open>\<open>LIMIT 1\<close> without an order: any matching row.\<close>

definition limit1 :: "nat \<Rightarrow> ('a \<Rightarrow> bool) \<Rightarrow> 'a list \<Rightarrow> 'a option" where
  "limit1 n P rows = (case filter P rows of [] \<Rightarrow> None | r # rs \<Rightarrow> Some ((r # rs) ! (n mod length (r # rs))))"

definition select_row :: "stmt_env \<Rightarrow> (application_row \<Rightarrow> bool) \<Rightarrow> tables \<Rightarrow> reply" where
  "select_row e P t = (case limit1 (pick e) P (applications t) of None \<Rightarrow> NoRows | Some r \<Rightarrow> Row r)"

definition insert_contact :: "contact_row \<Rightarrow> tables \<Rightarrow> reply \<times> tables" where
  "insert_contact r t =
     (if cm_ID r \<in> cm_ID ` set (contact_messages t) then (Failed (PgError unique_violation), t)
      else (Executed, t\<lparr>contact_messages := contact_messages t @ [r]\<rparr>))"

text \<open>\<open>ON CONFLICT (email_bidx) DO NOTHING\<close>; a clash of ids is still an error.\<close>

definition insert_subscriber :: "subscriber_row \<Rightarrow> tables \<Rightarrow> reply \<times> tables" where
  "insert_subscriber r t =
     (if ns_EmailBIdx r \<in> ns_EmailBIdx ` set (newsletter_subscribers t) then (Executed, t)
      else if ns_ID r \<in> ns_ID ` set (newsletter_subscribers t) then (Failed (PgError unique_violation), t)
      else (Executed, t\<lparr>newsletter_subscribers := newsletter_subscribers t @ [r]\<rparr>))"

fun effect :: "stmt_env \<Rightarrow> stmt \<Rightarrow> tables \<Rightarrow> reply \<times> tables" where
  "effect e (Insert_application v) t = insert_application (new_row e v) t"
| "effect e (Set_verify_code c i) t = update_code (\<lambda>r. ID r = i) c t"
| "effect e (Fill_verify_code c i) t = update_code (\<lambda>r. ID r = i \<and> VerifyCode r = []) c t"
| "effect e (Select_admit_card b) t = (select_row e (\<lambda>r. PhoneDOBBIdx r = b) t, t)"
| "effect e (Select_by_code c) t = (select_row e (\<lambda>r. VerifyCode r = c) t, t)"
| "effect e (Insert_contact n em p s m) t = insert_contact (new_contact e n em p s m) t"
| "effect e (Insert_subscriber em b) t = insert_subscriber (new_subscriber e em b) t"

definition exec_stmt :: "stmt_env \<Rightarrow> stmt \<Rightarrow> tables \<Rightarrow> reply \<times> tables" where
  "exec_stmt e s t =
     (if list_all text_ok (params s) then effect e s t else (Failed (PgError bad_text), t))"

declare new_contact_def [simp] new_subscriber_def [simp]

section \<open>Two pools\<close>

text \<open>Without a replica both pools are the primary.\<close>

record database =
  primary_tables :: tables
  replica_tables :: "tables option"

definition pool_tables :: "pool \<Rightarrow> database \<Rightarrow> tables" where
  "pool_tables p d =
     (case (p, replica_tables d) of (Replica, Some t) \<Rightarrow> t | _ \<Rightarrow> primary_tables d)"

definition set_pool_tables :: "pool \<Rightarrow> tables \<Rightarrow> database \<Rightarrow> database" where
  "set_pool_tables p t d =
     (case (p, replica_tables d) of
        (Replica, Some _) \<Rightarrow> d\<lparr>replica_tables := Some t\<rparr>
      | _ \<Rightarrow> d\<lparr>primary_tables := t\<rparr>)"

definition query :: "stmt_env \<Rightarrow> pool \<Rightarrow> stmt \<Rightarrow> database \<Rightarrow> reply \<times> database" where
  "query e p s d =
     (case delivery e of
        Down \<Rightarrow> (Failed ConnError, d)
      | Up \<Rightarrow> (let (r, t) = exec_stmt e s (pool_tables p d) in (r, set_pool_tables p t d))
      | Lost_reply \<Rightarrow>
          (let (r, t) = exec_stmt e s (pool_tables p d) in (Failed ConnError, set_pool_tables p t d)))"

text \<open>Replication brings the replica to the state of the primary, at any time.\<close>

definition catch_up :: "database \<Rightarrow> database" where
  "catch_up d = d\<lparr>replica_tables := map_option (\<lambda>_. primary_tables d) (replica_tables d)\<rparr>"

section \<open>Programs\<close>

datatype 'r prog =
    Done 'r
  | Query pool stmt "reply \<Rightarrow> 'r prog"

primrec bind_prog :: "'a prog \<Rightarrow> ('a \<Rightarrow> 'b prog) \<Rightarrow> 'b prog" where
  "bind_prog (Done x) f = f x"
| "bind_prog (Query p s k) f = Query p s (\<lambda>r. bind_prog (k r) f)"

type_synonym env = "nat \<Rightarrow> stmt_env"

primrec run_with :: "(stmt_env \<Rightarrow> pool \<Rightarrow> stmt \<Rightarrow> 'd \<Rightarrow> reply \<times> 'd) \<Rightarrow> 'r prog \<Rightarrow> env \<Rightarrow> 'd \<Rightarrow> 'r \<times> 'd" where
  "run_with q (Done x) es d = (x, d)"
| "run_with q (Query p s k) es d =
     (case q (es 0) p s d of (r, d') \<Rightarrow> run_with q (k r) (\<lambda>n. es (Suc n)) d')"

definition exec :: "'r prog \<Rightarrow> env \<Rightarrow> database \<Rightarrow> 'r \<times> database" where
  "exec = run_with query"

text \<open>Every statement a program may issue, whatever it is answered, satisfies \<open>g\<close>.\<close>

primrec issues :: "(pool \<Rightarrow> stmt \<Rightarrow> bool) \<Rightarrow> 'r prog \<Rightarrow> bool" where
  "issues g (Done x) = True"
| "issues g (Query p s k) = (g p s \<and> (\<forall>r. issues g (k r)))"

section \<open>Text values\<close>

lemma text_ok_ascii:
  assumes "\<forall>c \<in> set s. 0 < code c \<and> code c < 128"
  shows "text_ok s"
proof -
  have "runes s = map code s" using assms by (intro runes_ascii) (simp add: ascii_def)
  moreover have "concat (map encode_rune (map code s)) = s"
    using assms by (induction s) (auto simp: encode_rune_ascii)
  ultimately show ?thesis using assms by (simp add: text_ok_def)
qed

lemma text_ok_Nil [simp]: "text_ok []"
  by (rule text_ok_ascii) simp

section \<open>The unique indexes\<close>

definition schema_ok :: "tables \<Rightarrow> bool" where
  "schema_ok t \<longleftrightarrow> sorted_wrt (\<lambda>r s. \<not> clash r s) (applications t) \<and>
     distinct (map cm_ID (contact_messages t)) \<and>
     sorted_wrt (\<lambda>r s. \<not> subscriber_clash r s) (newsletter_subscribers t)"

lemma clash_sym: "clash r s \<longleftrightarrow> clash s r"
  unfolding clash_defs by metis

lemma clash_ID: "ID r = ID s \<Longrightarrow> clash r s"
  by (simp add: clash_defs)

lemma schema_ok_insert: "schema_ok t \<Longrightarrow> schema_ok (snd (insert_application r t))"
  by (auto simp: insert_application_def schema_ok_def sorted_wrt_append clash_sym)

lemma schema_ok_contact: "schema_ok t \<Longrightarrow> schema_ok (snd (insert_contact r t))"
  by (auto simp: insert_contact_def schema_ok_def)

lemma schema_ok_subscriber: "schema_ok t \<Longrightarrow> schema_ok (snd (insert_subscriber r t))"
  by (simp add: insert_subscriber_def schema_ok_def sorted_wrt_append subscriber_clash_def) (metis image_eqI)

lemma schema_ok_update:
  assumes "schema_ok t" "\<And>r s. hit r \<Longrightarrow> hit s \<Longrightarrow> ID r = ID s"
  shows "schema_ok (snd (update_code hit c t))"
proof (cases "c \<noteq> [] \<and> (\<exists>r \<in> set (applications t). hit r) \<and>
    (\<exists>s \<in> set (applications t). \<not> hit s \<and> VerifyCode s = c)")
  case False
  let ?u = "\<lambda>r. if hit r then r\<lparr>VerifyCode := c\<rparr> else r"
  have "\<not> clash (?u r) (?u s)"
    if "r \<in> set (applications t)" "s \<in> set (applications t)" "\<not> clash r s" for r s
    using that False assms(2) [of r s] by (auto simp: clash_defs)
  moreover have "sorted_wrt (\<lambda>r s. \<not> clash r s) (applications t)"
    using assms(1) by (simp add: schema_ok_def)
  ultimately have "sorted_wrt (\<lambda>r s. \<not> clash (?u r) (?u s)) (applications t)"
    using sorted_wrt_mono_rel [of "applications t" "\<lambda>r s. \<not> clash r s" "\<lambda>r s. \<not> clash (?u r) (?u s)"] by blast
  then show ?thesis using assms(1) False
    by (auto simp: update_code_def schema_ok_def sorted_wrt_map)
qed (use assms in \<open>auto simp: update_code_def\<close>)

lemma schema_ok_exec: "schema_ok t \<Longrightarrow> schema_ok (snd (exec_stmt e s t))"
  by (cases s) (auto simp: exec_stmt_def schema_ok_insert schema_ok_contact schema_ok_subscriber
      intro!: schema_ok_update)

definition db_ok :: "database \<Rightarrow> bool" where
  "db_ok d \<longleftrightarrow> schema_ok (primary_tables d) \<and> (\<forall>t. replica_tables d = Some t \<longrightarrow> schema_ok t)"

text \<open>A property of the tables of either pool that the executed statement keeps is kept by \<open>query\<close>.\<close>

definition both :: "(tables \<Rightarrow> bool) \<Rightarrow> database \<Rightarrow> bool" where
  "both P d \<longleftrightarrow> P (primary_tables d) \<and> (\<forall>t. replica_tables d = Some t \<longrightarrow> P t)"

lemma query_keeps:
  assumes "both P d" "\<And>t. P t \<Longrightarrow> P (snd (exec_stmt e s t))"
  shows "both P (snd (query e p s d))"
  using assms
  by (auto simp: both_def query_def pool_tables_def set_pool_tables_def Let_def
      split: delivery.splits prod.splits option.splits pool.splits) (metis snd_conv)+

lemma both_catch_up: "both P d \<Longrightarrow> both P (catch_up d)"
  by (auto simp: both_def catch_up_def)

section \<open>Programs over a store\<close>

text \<open>
  The contract between a store and the programs that run on it: an invariant that every statement
  of a given sort keeps.
\<close>

locale statement_store =
  fixes q :: "stmt_env \<Rightarrow> pool \<Rightarrow> stmt \<Rightarrow> 'd \<Rightarrow> reply \<times> 'd"
    and good :: "pool \<Rightarrow> stmt \<Rightarrow> bool"
    and inv :: "'d \<Rightarrow> bool"
  assumes keeps: "inv d \<Longrightarrow> good p s \<Longrightarrow> inv (snd (q e p s d))"
begin

lemma keeps_step: "inv d \<Longrightarrow> good p s \<Longrightarrow> q e p s d = (r, d') \<Longrightarrow> inv d'"
  by (metis keeps snd_conv)

lemma run_keeps: "inv d \<Longrightarrow> issues good x \<Longrightarrow> inv (snd (run_with q x es d))"
proof (induction x arbitrary: es d)
  case (Query p s k)
  obtain r d' where q: "q (es 0) p s d = (r, d')" by fastforce
  then show ?case
    using Query.IH [of "k r" d' "\<lambda>n. es (Suc n)"] Query.prems keeps_step [of d p s "es 0" r d'] by simp
qed simp

end

lemma issues_mono: "issues g x \<Longrightarrow> (\<And>p s. g p s \<Longrightarrow> h p s) \<Longrightarrow> issues h x"
  by (induction x) auto

lemma issues_True [simp]: "issues (\<lambda>_ _. True) x"
  by (induction x) auto


end
