(* ===== verification/Repository.thy ===== *)
theory Repository
  imports Store
begin

text \<open>
  The package \<open>internal/repository\<close>, the only layer that knows how personal data maps to encrypted
  columns and blind indexes. Each operation is a program over the database, in the order in which
  the Go function calls the cipher and the pools. The bytes that \<open>crypto/rand\<close> will deliver during
  the call are the argument \<open>rnd\<close>.
\<close>

section \<open>The operations\<close>

datatype repo_error =
    ErrDuplicate
  | ErrNotFound
  | CryptoError crypto_error
  | Wrapped string reply

record Repository =
  cipher :: Cipher
  bidx :: BlindIndex
  signer :: Signer
  batch :: string

definition NewRepository :: "Cipher \<Rightarrow> BlindIndex \<Rightarrow> Signer \<Rightarrow> string \<Rightarrow> Repository" where
  "NewRepository c b s currentBatch = \<lparr>cipher = c, bidx = b, signer = s, batch = currentBatch\<rparr>"

definition docCodePrefix :: string where
  "docCodePrefix = ''AC''"

fun first_parse :: "layout list \<Rightarrow> string \<Rightarrow> civil option" where
  "first_parse [] s = None"
| "first_parse (l # ls) s = (case time_parse l s of Some t \<Rightarrow> Some t | None \<Rightarrow> first_parse ls s)"

definition normalizeDate :: "string \<Rightarrow> string" where
  "normalizeDate s =
     (case first_parse date_layouts (trim_space s) of
        Some t \<Rightarrow> format_iso t
      | None \<Rightarrow> trim_space s)"

text \<open>\<open>x, err := r.cipher.Encrypt(p); if err != nil { return err }\<close>, then the rest of the function.\<close>

type_synonym 'a repo_prog = "(repo_error + 'a) prog"

definition with_enc ::
    "Cipher \<Rightarrow> string \<Rightarrow> entropy \<Rightarrow> (string \<Rightarrow> entropy \<Rightarrow> 'a repo_prog) \<Rightarrow> 'a repo_prog" where
  "with_enc c p rnd rest =
     (case Encrypt c p rnd of
        Inl err \<Rightarrow> Done (Inl (CryptoError err))
      | Inr (x, rnd') \<Rightarrow> rest x rnd')"

definition lookup_key :: "Repository \<Rightarrow> string \<Rightarrow> string \<Rightarrow> string" where
  "lookup_key r phone dob = Hash (bidx r) (phone @ ''|'' @ normalizeDate dob)"

text \<open>
  What \<open>CreateApplication\<close> does with the answer to its INSERT: the second statement is best effort,
  its reply is not looked at.
\<close>

definition create_reply :: "Repository \<Rightarrow> reply \<Rightarrow> string repo_prog" where
  "create_reply r reply =
     (case reply of
        Inserted ident \<Rightarrow>
          Query Primary (Set_verify_code (DocCode (signer r) docCodePrefix ident) ident)
            (\<lambda>_. Done (Inr ident))
      | Failed (PgError c) \<Rightarrow>
          if c = unique_violation then Done (Inl ErrDuplicate)
          else Done (Inl (Wrapped ''insert application'' reply))
      | _ \<Rightarrow> Done (Inl (Wrapped ''insert application'' reply)))"

definition CreateApplication :: "Repository \<Rightarrow> ApplicationInput \<Rightarrow> entropy \<Rightarrow> string repo_prog" where
  "CreateApplication r a rnd =
     with_enc (cipher r) (in_Name a) rnd (\<lambda>nameEnc rnd.
     with_enc (cipher r) (in_Phone a) rnd (\<lambda>phoneEnc rnd.
     with_enc (cipher r) (in_Email a) rnd (\<lambda>emailEnc rnd.
     with_enc (cipher r) (in_DOB a) rnd (\<lambda>dobEnc rnd.
     with_enc (cipher r) (in_Address a) rnd (\<lambda>addrEnc rnd.
     with_enc (cipher r) (in_Education a) rnd (\<lambda>eduEnc rnd.
     with_enc (cipher r) (in_GPA a) rnd (\<lambda>gpaEnc rnd.
     with_enc (cipher r) (in_PhotoData a) rnd (\<lambda>photoEnc rnd.
       let phoneBidx = Hash (bidx r) (in_Phone a);
           phoneDOBBidx = lookup_key r (in_Phone a) (in_DOB a)
       in Query Primary (Insert_application
            \<lparr>v_name_enc = nameEnc, v_phone_enc = phoneEnc, v_email_enc = emailEnc, v_dob_enc = dobEnc,
             v_address_enc = addrEnc, v_education_enc = eduEnc, v_gpa_enc = gpaEnc,
             v_photo_enc = photoEnc, v_gender = in_Gender a, v_passing_year = in_PassingYear a,
             v_computer_skill = in_ComputerSkill a, v_own_computer = in_OwnComputer a,
             v_can_attend = in_CanAttend a, v_division = in_Division a, v_district = in_District a,
             v_phone_bidx = phoneBidx, v_phone_dob_bidx = phoneDOBBidx, v_batch = batch r\<rparr>)
          (create_reply r)))))))))"

definition dec :: "Repository \<Rightarrow> string \<Rightarrow> string" where
  "dec r e = (case Decrypt (cipher r) e of Inl _ \<Rightarrow> [] | Inr v \<Rightarrow> v)"

definition card_view :: "Repository \<Rightarrow> application_row \<Rightarrow> string \<Rightarrow> AdmitCardView" where
  "card_view r row verifyCode =
     \<lparr>av_ID = ID row, av_Name = dec r (NameEnc row), av_Phone = dec r (PhoneEnc row),
      av_Email = dec r (EmailEnc row), av_Division = App_Division row, av_District = App_District row,
      av_Address = dec r (AddressEnc row), av_Education = dec r (EducationEnc row),
      av_PhotoURL = dec r (PhotoEnc row), av_Batch = Batch row,
      av_RollNo = (case RollNo row of Some n \<Rightarrow> n | None \<Rightarrow> []),
      av_AdmissionConfirmed = AdmissionConfirmed row, av_Status = Status row,
      av_ApplicationDate = format_iso (CreatedAt row), av_VerifyCode = verifyCode\<rparr>"

definition card_reply :: "Repository \<Rightarrow> reply \<Rightarrow> AdmitCardView repo_prog" where
  "card_reply r reply =
     (case reply of
        NoRows \<Rightarrow> Done (Inl ErrNotFound)
      | Row row \<Rightarrow>
          if VerifyCode row = [] then
            let verifyCode = DocCode (signer r) docCodePrefix (ID row)
            in Query Primary (Fill_verify_code verifyCode (ID row))
                 (\<lambda>_. Done (Inr (card_view r row verifyCode)))
          else Done (Inr (card_view r row (VerifyCode row)))
      | _ \<Rightarrow> Done (Inl (Wrapped ''lookup admit card'' reply)))"

definition FindAdmitCard :: "Repository \<Rightarrow> AdmitCardLookup \<Rightarrow> AdmitCardView repo_prog" where
  "FindAdmitCard r lk =
     Query Replica (Select_admit_card (lookup_key r (lk_Phone lk) (lk_DOB lk))) (card_reply r)"

definition verify_view :: "application_row \<Rightarrow> VerifyView" where
  "verify_view row =
     \<lparr>vv_Valid = True, vv_DocType = ''admit-card'', vv_Status = Status row, vv_Batch = Batch row,
      vv_RollNo = (case RollNo row of Some n \<Rightarrow> n | None \<Rightarrow> []),
      vv_AdmissionConfirmed = AdmissionConfirmed row, vv_IssuedDate = format_iso (CreatedAt row)\<rparr>"

definition FindByVerifyCode :: "Repository \<Rightarrow> string \<Rightarrow> VerifyView repo_prog" where
  "FindByVerifyCode r code0 =
     (let c = trim_space (to_upper code0)
      in if c = [] then Done (Inl ErrNotFound)
         else Query Replica (Select_by_code c)
           (\<lambda>reply. case reply of
              NoRows \<Rightarrow> Done (Inl ErrNotFound)
            | Row row \<Rightarrow> Done (Inr (verify_view row))
            | _ \<Rightarrow> Done (Inl (Wrapped ''verify code lookup'' reply))))"

definition CreateContact :: "Repository \<Rightarrow> ContactInput \<Rightarrow> entropy \<Rightarrow> unit repo_prog" where
  "CreateContact r a rnd =
     with_enc (cipher r) (ct_Name a) rnd (\<lambda>nameEnc rnd.
     with_enc (cipher r) (ct_Email a) rnd (\<lambda>emailEnc rnd.
     with_enc (cipher r) (ct_Phone a) rnd (\<lambda>phoneEnc rnd.
     with_enc (cipher r) (ct_Message a) rnd (\<lambda>msgEnc rnd.
       Query Primary (Insert_contact nameEnc emailEnc phoneEnc (ct_Subject a) msgEnc)
         (\<lambda>reply. case reply of
            Failed _ \<Rightarrow> Done (Inl (Wrapped ''insert contact'' reply))
          | _ \<Rightarrow> Done (Inr ()))))))"

definition Subscribe :: "Repository \<Rightarrow> NewsletterInput \<Rightarrow> entropy \<Rightarrow> unit repo_prog" where
  "Subscribe r a rnd =
     with_enc (cipher r) (nl_Email a) rnd (\<lambda>emailEnc rnd.
       Query Primary (Insert_subscriber emailEnc (Hash (bidx r) (nl_Email a)))
         (\<lambda>reply. case reply of
            Failed _ \<Rightarrow> Done (Inl (Wrapped ''insert subscriber'' reply))
          | _ \<Rightarrow> Done (Inr ())))"

section \<open>Ciphertexts\<close>

text \<open>A column that \<open>Encrypt\<close> may produce for a plaintext, under some nonce.\<close>

definition is_enc :: "Cipher \<Rightarrow> string \<Rightarrow> string \<Rightarrow> bool" where
  "is_enc c p e \<longleftrightarrow> (\<exists>rnd rnd'. Encrypt c p rnd = Inr (e, rnd'))"

lemma is_enc_dec: "cipher_ok (cipher r) \<Longrightarrow> is_enc (cipher r) p e \<Longrightarrow> dec r e = p"
  by (auto simp: is_enc_def dec_def dest: aes.dec_enc)

lemma DocCode_text: "text_ok (DocCode s docCodePrefix i)"
proof (rule text_ok_ascii)
  have "\<forall>c \<in> set code_alphabet. 0 < code c \<and> code c < 128" by (simp add: code_alphabet_def)
  then have "\<forall>c \<in> set (code_chars s docCodePrefix i). 0 < code c \<and> code c < 128"
    using set_code_chars by blast
  then show "\<forall>c \<in> set (DocCode s docCodePrefix i). 0 < code c \<and> code c < 128"
    unfolding DocCode_chars by (auto simp: docCodePrefix_def)
qed

lemma is_enc_text: "is_enc c p e \<Longrightarrow> text_ok e"
  unfolding is_enc_def by (elim exE Encrypt_cases) (auto intro: text_ok_ascii simp: b64_encode_text)

lemma Hash_text: "text_ok (Hash b v)"
  by (simp add: Hash_def text_ok_ascii hex_encode_text)

lemma with_enc_cases:
  assumes "\<And>err. P (Done (Inl (CryptoError err)))" "\<And>e rnd'. is_enc c p e \<Longrightarrow> P (k e rnd')"
  shows "P (with_enc c p rnd k)"
proof (cases "Encrypt c p rnd")
  case (Inr b)
  then have "is_enc c p (fst b)" unfolding is_enc_def by (metis prod.collapse)
  then show ?thesis using Inr assms(2) by (cases b) (simp add: with_enc_def)
qed (simp add: with_enc_def assms(1))

lemma with_enc_enough:
  assumes "nonce_size (aead_of c) + n \<le> length rnd"
    "\<And>e rnd'. is_enc c p e \<Longrightarrow> n \<le> length rnd' \<Longrightarrow> P (k e rnd')"
  shows "P (with_enc c p rnd k)"
proof -
  obtain e rnd' where enc: "Encrypt c p rnd = Inr (e, rnd')"
    using Encrypt_enough [of c rnd p] assms(1) by auto
  then have "n \<le> length rnd'" using assms(1) by (elim Encrypt_cases) auto
  then show ?thesis using enc assms(2) by (auto simp: with_enc_def is_enc_def)
qed

text \<open>The values that \<open>CreateApplication\<close> inserts for an application.\<close>

definition encodes :: "Repository \<Rightarrow> ApplicationInput \<Rightarrow> application_values \<Rightarrow> bool" where
  "encodes r a v \<longleftrightarrow>
     is_enc (cipher r) (in_Name a) (v_name_enc v) \<and> is_enc (cipher r) (in_Phone a) (v_phone_enc v) \<and>
     is_enc (cipher r) (in_Email a) (v_email_enc v) \<and> is_enc (cipher r) (in_DOB a) (v_dob_enc v) \<and>
     is_enc (cipher r) (in_Address a) (v_address_enc v) \<and>
     is_enc (cipher r) (in_Education a) (v_education_enc v) \<and>
     is_enc (cipher r) (in_GPA a) (v_gpa_enc v) \<and> is_enc (cipher r) (in_PhotoData a) (v_photo_enc v) \<and>
     v_gender v = in_Gender a \<and> v_passing_year v = in_PassingYear a \<and>
     v_computer_skill v = in_ComputerSkill a \<and> v_own_computer v = in_OwnComputer a \<and>
     v_can_attend v = in_CanAttend a \<and> v_division v = in_Division a \<and> v_district v = in_District a \<and>
     v_phone_bidx v = Hash (bidx r) (in_Phone a) \<and>
     v_phone_dob_bidx v = lookup_key r (in_Phone a) (in_DOB a) \<and> v_batch v = batch r"

lemma create_cases:
  obtains (failed) err where "CreateApplication r a rnd = Done (Inl (CryptoError err))"
  | (insert) v where "encodes r a v"
      "CreateApplication r a rnd = Query Primary (Insert_application v) (create_reply r)"
proof -
  let ?P = "\<lambda>x. (\<exists>err. x = Done (Inl (CryptoError err))) \<or>
    (\<exists>v. encodes r a v \<and> x = Query Primary (Insert_application v) (create_reply r))"
  have "?P (CreateApplication r a rnd)"
    unfolding CreateApplication_def Let_def
    by (intro with_enc_cases [where P = ?P]) (simp_all add: encodes_def)
  then show thesis using failed insert by blast
qed

lemma create_enough:
  assumes "8 * nonce_size (aead_of (cipher r)) \<le> length rnd"
  obtains v where "encodes r a v"
    "CreateApplication r a rnd = Query Primary (Insert_application v) (create_reply r)"
proof -
  let ?n = "nonce_size (aead_of (cipher r))"
  let ?P = "\<lambda>x. \<exists>v. encodes r a v \<and> x = Query Primary (Insert_application v) (create_reply r)"
  have "?P (CreateApplication r a rnd)"
    unfolding CreateApplication_def Let_def
    apply (rule with_enc_enough [where n = "7 * ?n" and P = ?P])
     apply (use assms in simp)
    apply (rule with_enc_enough [where n = "6 * ?n" and P = ?P], simp)
    apply (rule with_enc_enough [where n = "5 * ?n" and P = ?P], simp)
    apply (rule with_enc_enough [where n = "4 * ?n" and P = ?P], simp)
    apply (rule with_enc_enough [where n = "3 * ?n" and P = ?P], simp)
    apply (rule with_enc_enough [where n = "2 * ?n" and P = ?P], simp)
    apply (rule with_enc_enough [where n = "?n" and P = ?P], simp)
    apply (rule with_enc_enough [where n = 0 and P = ?P], simp)
    apply (simp add: encodes_def)
    done
  then show thesis using that by blast
qed

section \<open>Dates and lookup keys\<close>

text \<open>The three ways the form may send a date.\<close>

definition writes_date :: "civil \<Rightarrow> string \<Rightarrow> bool" where
  "writes_date t s \<longleftrightarrow> valid_civil t \<and>
     trim_space s \<in> {format_iso t, format_dmy CHR ''-'' t, format_dmy CHR ''/'' t}"

lemma datestr_writes: "datestr s \<longleftrightarrow> (\<exists>t. writes_date t s)"
  by (simp add: datestr_cases writes_date_def)

lemma dmy_separators: "valid_civil t \<Longrightarrow> valid_civil u \<Longrightarrow> format_dmy CHR ''-'' t \<noteq> format_dmy CHR ''/'' u"
  by (simp add: format_dmy_eq)

lemma time_parse_other:
  "valid_civil t \<Longrightarrow> time_parse iso_layout (format_dmy CHR ''-'' t) = None"
  "valid_civil t \<Longrightarrow> time_parse iso_layout (format_dmy CHR ''/'' t) = None"
  "valid_civil t \<Longrightarrow> time_parse (dmy_layout CHR ''-'') (format_dmy CHR ''/'' t) = None"
  unfolding not_Some_eq [symmetric] time_parse_iso_iff time_parse_dmy_iff
  using format_iso_not_dmy dmy_separators by (metis insertI1 insertI2)+

lemma first_parse_writes:
  "writes_date t s \<Longrightarrow> first_parse date_layouts (trim_space s) = Some t"
  by (auto simp: writes_date_def date_layouts_def time_parse_other time_parse_format_iso time_parse_format_dmy)

lemma normalizeDate_writes: "writes_date t s \<Longrightarrow> normalizeDate s = format_iso t"
  by (simp add: normalizeDate_def first_parse_writes)

lemma writes_iso: "valid_civil t \<Longrightarrow> writes_date t (format_iso t)"
  by (simp add: writes_date_def trim_space_solid format_iso_solid)

lemma trim_format_dmy: "valid_civil t \<Longrightarrow> trim_space (format_dmy sep t) = format_dmy sep t"
  by (simp add: trim_space_solid format_dmy_solid)

lemma writes_unique: "writes_date t s \<Longrightarrow> writes_date u s \<Longrightarrow> t = u"
  by (metis first_parse_writes option.inject)

definition compact :: "civil \<Rightarrow> string" where
  "compact t = filter (\<lambda>c. \<not> phone_noise c) (format_iso t)"

lemma phone_noise_dash [simp]: "phone_noise CHR ''-''"
  by (simp add: phone_noise_def)

lemma digit_not_noise [simp]: "n < 10 \<Longrightarrow> \<not> phone_noise (digit_char n)"
  using digit_phone_char by simp

lemma compact_eq:
  assumes "valid_civil t"
  shows "compact t = [digit_char (year t div 1000), digit_char (year t div 100 mod 10),
    digit_char (year t div 10 mod 10), digit_char (year t mod 10),
    digit_char (month t div 10), digit_char (month t mod 10),
    digit_char (day t div 10), digit_char (day t mod 10)]"
  using valid_civil_bounds [OF assms] unfolding compact_def format_iso_eq [OF assms] by simp

lemma compact_inject: "valid_civil t \<Longrightarrow> valid_civil u \<Longrightarrow> compact t = compact u \<longleftrightarrow> t = u"
proof
  assume v: "valid_civil t" "valid_civil u" and "compact t = compact u"
  then have "format_iso t = format_iso u"
    unfolding compact_eq [OF v(1)] compact_eq [OF v(2)] format_iso_eq [OF v(1)] format_iso_eq [OF v(2)] by simp
  then show "t = u" by (simp add: format_iso_inject v)
qed simp

lemma date_chars: "valid_civil t \<Longrightarrow> c \<in> set (format_iso t) \<Longrightarrow> phone_char c"
  using valid_civil_bounds [of t] digit_phone_char
  by (auto simp: format_iso_eq) (auto simp: phone_char_def)

lemma normalize_key:
  assumes "bdphone v" "valid_civil t"
  shows "normalize (v @ ''|'' @ format_iso t) = normalize v @ CHR ''|'' # compact t"
proof -
  have v: "\<forall>c \<in> set v. phone_char c" using assms(1) by (rule bdphone_chars)
  then have "\<forall>c \<in> set (v @ ''|'' @ format_iso t). index_char c"
    using date_chars [OF assms(2)] by (auto simp: index_char_def)
  moreover have "\<not> phone_noise CHR ''|''" by (simp add: phone_noise_def)
  ultimately show ?thesis
    using v by (simp add: normalize_index normalize_phone compact_def)
qed

section \<open>What the repository may ask of the database\<close>

definition encodes_contact :: "Cipher \<Rightarrow> string \<Rightarrow> string \<Rightarrow> string \<Rightarrow> string \<Rightarrow> bool" where
  "encodes_contact c n e p m \<longleftrightarrow> (\<forall>x \<in> {n, e, p, m}. \<exists>plain. is_enc c plain x)"

text \<open>
  Statements change data on the primary only and read from the replica only; personal data is in
  them only as ciphertext or keyed hash; a verification code is the code of the row it is set on.
\<close>

fun allowed :: "Repository \<Rightarrow> pool \<Rightarrow> stmt \<Rightarrow> bool" where
  "allowed r p (Insert_application v) = (p = Primary \<and> (\<exists>a. encodes r a v))"
| "allowed r p (Set_verify_code c i) = (p = Primary \<and> c = DocCode (signer r) docCodePrefix i)"
| "allowed r p (Fill_verify_code c i) = (p = Primary \<and> c = DocCode (signer r) docCodePrefix i)"
| "allowed r p (Select_admit_card b) = (p = Replica \<and> (\<exists>v. b = Hash (bidx r) v))"
| "allowed r p (Select_by_code c) = (p = Replica)"
| "allowed r p (Insert_contact n e ph s m) = (p = Primary \<and> encodes_contact (cipher r) n e ph m)"
| "allowed r p (Insert_subscriber e b) =
     (p = Primary \<and> (\<exists>email. is_enc (cipher r) email e \<and> b = Hash (bidx r) email))"

lemma allowed_create_reply: "issues (allowed r) (create_reply r rep)"
  by (simp add: create_reply_def split: reply.split db_error.split)

lemma allowed_create: "issues (allowed r) (CreateApplication r a rnd)"
  by (rule create_cases [of r a rnd]) (auto simp: allowed_create_reply)

lemma allowed_find: "issues (allowed r) (FindAdmitCard r lk)"
  by (auto simp: FindAdmitCard_def card_reply_def lookup_key_def Let_def split: reply.split)

lemma allowed_verify: "issues (allowed r) (FindByVerifyCode r c)"
  by (simp add: FindByVerifyCode_def Let_def split: reply.split)

lemma allowed_contact: "issues (allowed r) (CreateContact r c rnd)"
  unfolding CreateContact_def
  by (intro with_enc_cases [where P = "issues (allowed r)"])
    (auto simp: encodes_contact_def split: reply.split)

lemma allowed_subscribe: "issues (allowed r) (Subscribe r n rnd)"
  unfolding Subscribe_def
  by (intro with_enc_cases [where P = "issues (allowed r)"]) (auto split: reply.split)

lemmas repository_allowed = allowed_create allowed_find allowed_verify allowed_contact allowed_subscribe

section \<open>The invariant of the stored data\<close>

definition row_encodes :: "Repository \<Rightarrow> ApplicationInput \<Rightarrow> application_row \<Rightarrow> bool" where
  "row_encodes r a row \<longleftrightarrow>
     is_enc (cipher r) (in_Name a) (NameEnc row) \<and> is_enc (cipher r) (in_Phone a) (PhoneEnc row) \<and>
     is_enc (cipher r) (in_Email a) (EmailEnc row) \<and> is_enc (cipher r) (in_DOB a) (DOBEnc row) \<and>
     is_enc (cipher r) (in_Address a) (AddressEnc row) \<and>
     is_enc (cipher r) (in_Education a) (EducationEnc row) \<and>
     is_enc (cipher r) (in_GPA a) (GPAEnc row) \<and> is_enc (cipher r) (in_PhotoData a) (PhotoEnc row) \<and>
     Gender row = in_Gender a \<and> PassingYear row = in_PassingYear a \<and>
     ComputerSkill row = in_ComputerSkill a \<and> OwnComputer row = in_OwnComputer a \<and>
     CanAttend row = in_CanAttend a \<and> App_Division row = in_Division a \<and>
     App_District row = in_District a \<and> PhoneBIdx row = Hash (bidx r) (in_Phone a) \<and>
     PhoneDOBBIdx row = lookup_key r (in_Phone a) (in_DOB a)"

definition code_ok :: "Repository \<Rightarrow> application_row \<Rightarrow> bool" where
  "code_ok r row \<longleftrightarrow> VerifyCode row = [] \<or> VerifyCode row = DocCode (signer r) docCodePrefix (ID row)"

definition store_ok :: "Repository \<Rightarrow> tables \<Rightarrow> bool" where
  "store_ok r t \<longleftrightarrow> schema_ok t \<and>
     (\<forall>row \<in> set (applications t). (\<exists>a. row_encodes r a row) \<and> code_ok r row) \<and>
     (\<forall>m \<in> set (contact_messages t).
        encodes_contact (cipher r) (cm_NameEnc m) (cm_EmailEnc m) (cm_PhoneEnc m) (cm_MessageEnc m)) \<and>
     (\<forall>s \<in> set (newsletter_subscribers t).
        \<exists>email. is_enc (cipher r) email (ns_EmailEnc s) \<and> ns_EmailBIdx s = Hash (bidx r) email)"

lemma row_encodes_new: "encodes r a v \<Longrightarrow> row_encodes r a (new_row e v) \<and> code_ok r (new_row e v)"
  by (simp add: encodes_def row_encodes_def code_ok_def new_row_def)

lemma row_encodes_code [simp]: "row_encodes r a (row\<lparr>VerifyCode := c\<rparr>) = row_encodes r a row"
  by (simp add: row_encodes_def)

lemma code_ok_set [simp]:
  "code_ok r (row\<lparr>VerifyCode := c\<rparr>) \<longleftrightarrow> c = [] \<or> c = DocCode (signer r) docCodePrefix (ID row)"
  by (simp add: code_ok_def)

lemma store_ok_update:
  assumes "store_ok r t" "\<And>row. hit row \<Longrightarrow> c = DocCode (signer r) docCodePrefix (ID row)"
    "\<And>r s. hit r \<Longrightarrow> hit s \<Longrightarrow> ID r = ID s"
  shows "store_ok r (snd (update_code hit c t))"
proof -
  have "schema_ok t" using assms(1) by (simp add: store_ok_def)
  then have "schema_ok (snd (update_code hit c t))" using assms(3) by (rule schema_ok_update)
  moreover have "\<forall>row \<in> set (applications (snd (update_code hit c t))).
      (\<exists>a. row_encodes r a row) \<and> code_ok r row"
    using assms(1,2) unfolding store_ok_def update_code_def by (auto split: if_split)
  moreover have "contact_messages (snd (update_code hit c t)) = contact_messages t"
    "newsletter_subscribers (snd (update_code hit c t)) = newsletter_subscribers t"
    by (simp_all add: update_code_def)
  ultimately show ?thesis using assms(1) by (simp add: store_ok_def)
qed

lemma store_ok_insert:
  assumes "store_ok r t" "row_encodes r a row" "code_ok r row"
  shows "store_ok r (snd (insert_application row t))"
proof -
  have "schema_ok (snd (insert_application row t))"
    using assms(1) by (intro schema_ok_insert) (simp add: store_ok_def)
  moreover have "\<exists>a. row_encodes r a row" using assms(2) by blast
  ultimately show ?thesis using assms(1,3)
    by (cases "\<exists>s \<in> set (applications t). clash row s") (simp_all add: store_ok_def insert_application_def)
qed

lemma store_ok_exec:
  assumes "store_ok r t" "allowed r p s"
  shows "store_ok r (snd (exec_stmt e s t))"
proof -
  have schema: "schema_ok (snd (exec_stmt e s t))"
    using assms(1) by (intro schema_ok_exec) (simp add: store_ok_def)
  show ?thesis
  proof (cases s)
    case (Insert_application v)
    then obtain a where "encodes r a v" using assms(2) by auto
    then show ?thesis using Insert_application assms(1) row_encodes_new [of r a v e]
      by (auto simp: exec_stmt_def intro: store_ok_insert)
  next
    case (Set_verify_code c i)
    then show ?thesis using assms by (auto simp: exec_stmt_def intro!: store_ok_update)
  next
    case (Fill_verify_code c i)
    then show ?thesis using assms by (auto simp: exec_stmt_def intro!: store_ok_update)
  next
    case (Insert_contact n em ph su m)
    then show ?thesis using schema assms by (auto simp: store_ok_def exec_stmt_def insert_contact_def)
  next
    case (Insert_subscriber em b)
    then show ?thesis using schema assms by (auto simp: store_ok_def exec_stmt_def insert_subscriber_def)
  qed (use assms(1) in \<open>auto simp: exec_stmt_def\<close>)
qed

lemma store_ok_query: "both (store_ok r) d \<Longrightarrow> allowed r p s \<Longrightarrow> both (store_ok r) (snd (query e p s d))"
  by (rule query_keeps) (auto intro: store_ok_exec)

interpretation repo_store: statement_store query "allowed r" "both (store_ok r)" for r
  by unfold_locales (rule store_ok_query)

section \<open>Executions\<close>

lemma exec_Done [sql]: "exec (Done x) es d = (x, d)"
  by (simp add: exec_def)

lemma exec_Query [sql]:
  "exec (Query p s k) es d = (case query (es 0) p s d of (rep, d') \<Rightarrow> exec (k rep) (\<lambda>n. es (Suc n)) d')"
  by (simp add: exec_def)

lemma pool_primary [simp]:
  "pool_tables Primary d = primary_tables d" "set_pool_tables Primary t d = d\<lparr>primary_tables := t\<rparr>"
  by (simp_all add: pool_tables_def set_pool_tables_def)

lemma set_pool_same [simp]: "set_pool_tables p (pool_tables p d) d = d"
  by (cases d) (auto simp: pool_tables_def set_pool_tables_def split: pool.splits option.splits)

definition is_select :: "stmt \<Rightarrow> bool" where
  "is_select s = (case s of Select_admit_card _ \<Rightarrow> True | Select_by_code _ \<Rightarrow> True | _ \<Rightarrow> False)"

lemma exec_select: "is_select s \<Longrightarrow> snd (exec_stmt e s t) = t"
  by (cases s) (auto simp: is_select_def exec_stmt_def)

lemma query_select: "is_select s \<Longrightarrow> snd (query e p s d) = d"
  using exec_select [of s e "pool_tables p d"]
  by (auto simp: query_def Let_def split: delivery.split prod.split)

interpretation read_only: statement_store query "\<lambda>_. is_select" "\<lambda>d. d = d0" for d0
  by unfold_locales (simp add: query_select)

lemma query_failed:
  "query e Primary (Insert_application v) d = (rep, d') \<Longrightarrow> (\<And>i. rep \<noteq> Inserted i) \<Longrightarrow>
     delivery e \<noteq> Lost_reply \<Longrightarrow> d' = d"
  by (cases d) (auto simp: query_def exec_stmt_def insert_application_def Let_def
      split: delivery.splits if_splits)

lemma query_inserted:
  assumes "query e Primary (Insert_application v) d = (Inserted i, d')"
  shows "delivery e = Up" "i = new_uuid e" "\<forall>s \<in> set (applications (primary_tables d)). \<not> clash (new_row e v) s"
    "d' = d\<lparr>primary_tables := (primary_tables d)\<lparr>applications := applications (primary_tables d) @ [new_row e v]\<rparr>\<rparr>"
  using assms by (auto simp: query_def exec_stmt_def insert_application_def new_row_def Let_def
      split: delivery.splits if_splits)

lemma insert_reply: "fst (query e Primary (Insert_application v) d) \<notin> {NoRows, Executed}"
  "fst (query e Primary (Insert_application v) d) \<noteq> Row row"
  by (auto simp: query_def exec_stmt_def insert_application_def Let_def split: delivery.splits)

text \<open>The three ways \<open>CreateApplication\<close> ends.\<close>

lemma create_ends:
  assumes "exec (CreateApplication r a rnd) es d = (res, d')"
  obtains (crypto) err where "res = Inl (CryptoError err)" "d' = d"
  | (inserted) v d1 where "encodes r a v" "res = Inr (new_uuid (es 0))"
      "query (es 0) Primary (Insert_application v) d = (Inserted (new_uuid (es 0)), d1)"
      "d' = snd (query (es 1) Primary
         (Set_verify_code (DocCode (signer r) docCodePrefix (new_uuid (es 0))) (new_uuid (es 0))) d1)"
  | (rejected) v e where "encodes r a v" "query (es 0) Primary (Insert_application v) d = (Failed e, d')"
      "res = Inl (if e = PgError unique_violation then ErrDuplicate else Wrapped ''insert application'' (Failed e))"
proof (cases rule: create_cases [of r a rnd])
  case (failed err)
  then have "res = Inl (CryptoError err)" "d' = d" using assms by (simp_all add: sql)
  then show thesis by (rule crypto)
next
  case (insert v)
  obtain rep d1 where q: "query (es 0) Primary (Insert_application v) d = (rep, d1)" by fastforce
  then have e: "exec (create_reply r rep) (\<lambda>n. es (Suc n)) d1 = (res, d')"
    using assms insert by (simp add: sql)
  show thesis
  proof (cases rep)
    case (Failed err)
    then show thesis using e q rejected [OF insert(1), of err]
      by (cases err) (auto simp: create_reply_def sql split: if_splits)
  next
    case (Inserted i)
    then have "i = new_uuid (es 0)" using q query_inserted(2) by blast
    then show thesis using Inserted e q inserted [OF insert(1), of d1]
      by (auto simp: create_reply_def sql split: prod.splits)
  qed (use q insert_reply [of "es 0" v d] in auto)
qed

section \<open>The registry: what the tables say about applications\<close>

text \<open>
  The abstract state: a map from the blind index of a phone to the application sent with it, in
  plaintext. Submitting adds an application under a new key and refuses a known key.
\<close>

type_synonym registry = "string \<rightharpoonup> ApplicationInput"

definition decode_row :: "Repository \<Rightarrow> application_row \<Rightarrow> ApplicationInput" where
  "decode_row r row =
     \<lparr>in_Name = dec r (NameEnc row), in_Gender = Gender row, in_Email = dec r (EmailEnc row),
      in_Phone = dec r (PhoneEnc row), in_DOB = dec r (DOBEnc row), in_Address = dec r (AddressEnc row),
      in_Division = App_Division row, in_District = App_District row,
      in_Education = dec r (EducationEnc row), in_GPA = dec r (GPAEnc row),
      in_PassingYear = PassingYear row, in_ComputerSkill = ComputerSkill row,
      in_OwnComputer = OwnComputer row, in_CanAttend = CanAttend row,
      in_PhotoData = dec r (PhotoEnc row)\<rparr>"

definition registry :: "Repository \<Rightarrow> tables \<Rightarrow> registry" where
  "registry r t = map_of (map (\<lambda>row. (PhoneBIdx row, decode_row r row)) (applications t))"

definition register :: "string \<Rightarrow> ApplicationInput \<Rightarrow> registry \<Rightarrow> bool \<times> registry" where
  "register key a m = (case m key of Some _ \<Rightarrow> (False, m) | None \<Rightarrow> (True, m(key \<mapsto> a)))"

lemma decode_encodes: "cipher_ok (cipher r) \<Longrightarrow> row_encodes r a row \<Longrightarrow> decode_row r row = a"
  by (simp add: decode_row_def row_encodes_def is_enc_dec)

lemma decode_row_code [simp]: "decode_row r (row\<lparr>VerifyCode := c\<rparr>) = decode_row r row"
  by (simp add: decode_row_def)

lemma registry_update: "registry r (snd (update_code hit c t)) = registry r t"
  by (simp add: registry_def update_code_def o_def if_distrib [of PhoneBIdx] if_distrib [of "decode_row r"]
      cong: if_cong)

lemma registry_None: "registry r t k = None \<longleftrightarrow> (\<forall>row \<in> set (applications t). PhoneBIdx row \<noteq> k)"
  by (simp add: registry_def map_of_eq_None_iff image_image) blast

lemma map_of_snoc: "k \<notin> fst ` set xs \<Longrightarrow> map_of (xs @ [(k, v)]) = (map_of xs)(k \<mapsto> v)"
  by (induction xs) (auto simp: fun_upd_twist)

lemma registry_append:
  "\<forall>s \<in> set (applications t). PhoneBIdx s \<noteq> PhoneBIdx row \<Longrightarrow>
     registry r (t\<lparr>applications := applications t @ [row]\<rparr>) = (registry r t)(PhoneBIdx row \<mapsto> decode_row r row)"
  unfolding registry_def by (simp del: map_of_append) (subst map_of_snoc, auto)

text \<open>The values of an application that are stored as they are.\<close>

definition plain_texts :: "Repository \<Rightarrow> ApplicationInput \<Rightarrow> string list" where
  "plain_texts r a = [in_Gender a, in_PassingYear a, in_ComputerSkill a, in_OwnComputer a,
     in_CanAttend a, in_Division a, in_District a, batch r]"

lemma encodes_texts: "encodes r a v \<Longrightarrow> list_all text_ok (values_texts v) \<longleftrightarrow> list_all text_ok (plain_texts r a)"
  by (auto simp: encodes_def values_texts_def plain_texts_def is_enc_text Hash_text lookup_key_def)

lemma primary_set_code:
  "primary_tables (snd (query e Primary (Set_verify_code c i) d)) =
     (if delivery e = Down \<or> \<not> text_ok c \<or> \<not> text_ok i then primary_tables d
      else snd (update_code (\<lambda>r. ID r = i) c (primary_tables d)))"
  by (auto simp: query_def exec_stmt_def Let_def split: delivery.split prod.split)

lemma registry_set_code: "registry r (primary_tables (snd (query e Primary (Set_verify_code c i) d))) =
    registry r (primary_tables d)"
  by (simp add: primary_set_code registry_update)

lemma new_row_simps [simp]:
  "ID (new_row e v) = new_uuid e" "PhoneBIdx (new_row e v) = v_phone_bidx v"
  "RollNo (new_row e v) = None" "VerifyCode (new_row e v) = []" "Status (new_row e v) = ''submitted''"
  "PhoneDOBBIdx (new_row e v) = v_phone_dob_bidx v" "Batch (new_row e v) = v_batch v"
  "CreatedAt (new_row e v) = now e" "AdmissionConfirmed (new_row e v) = False"
  by (simp_all add: new_row_def)

lemma clash_new_row:
  "clash (new_row e v) s \<longleftrightarrow> ID s = new_uuid e \<or> PhoneBIdx s = v_phone_bidx v"
  by (auto simp: clash_defs)

lemma encodes_bidx: "encodes r a v \<Longrightarrow> v_phone_bidx v = Hash (bidx r) (in_Phone a)"
    "encodes r a v \<Longrightarrow> v_phone_dob_bidx v = lookup_key r (in_Phone a) (in_DOB a)"
    "encodes r a v \<Longrightarrow> v_batch v = batch r"
  by (simp_all add: encodes_def)

section \<open>Submitting\<close>

definition repo_keyed :: "Repository \<Rightarrow> bool" where
  "repo_keyed r \<longleftrightarrow> (\<exists>key. NewCipher key = Inr (cipher r))"

lemma repo_keyed: "repo_keyed r \<Longrightarrow> cipher_ok (cipher r)" "repo_keyed r \<Longrightarrow> nonce_size (aead_of (cipher r)) = 12"
proof -
  assume "repo_keyed r"
  then obtain key where key: "NewCipher key = Inr (cipher r)" by (auto simp: repo_keyed_def)
  then show "cipher_ok (cipher r)" by (rule NewCipher_ok)
  have "cipher r = \<lparr>aead_of = new_gcm key\<rparr>" using key by (simp add: NewCipher_def split: if_splits)
  then show "nonce_size (aead_of (cipher r)) = 12" by (simp add: new_gcm_def)
qed

lemma insert_up:
  assumes "delivery e = Up" "encodes r a v" "list_all text_ok (plain_texts r a)"
    "new_uuid e \<notin> ID ` set (applications (primary_tables d))"
  shows "query e Primary (Insert_application v) d =
    (if \<exists>row \<in> set (applications (primary_tables d)). PhoneBIdx row = Hash (bidx r) (in_Phone a)
     then (Failed (PgError unique_violation), d)
     else (Inserted (new_uuid e), d\<lparr>primary_tables := (primary_tables d)
       \<lparr>applications := applications (primary_tables d) @ [new_row e v]\<rparr>\<rparr>))"
  using assms encodes_texts [OF assms(2)] encodes_bidx(1) [OF assms(2)]
  by (auto simp: query_def exec_stmt_def insert_application_def clash_new_row image_iff Let_def)

lemma create_up:
  assumes "repo_keyed r" "96 \<le> length rnd" "delivery (es 0) = Up" "list_all text_ok (plain_texts r a)"
    "new_uuid (es 0) \<notin> ID ` set (applications (primary_tables d))"
  obtains (duplicate) "\<exists>row \<in> set (applications (primary_tables d)). PhoneBIdx row = Hash (bidx r) (in_Phone a)"
      "exec (CreateApplication r a rnd) es d = (Inl ErrDuplicate, d)"
  | (fresh) v where "\<forall>row \<in> set (applications (primary_tables d)). PhoneBIdx row \<noteq> Hash (bidx r) (in_Phone a)"
      "encodes r a v"
      "exec (CreateApplication r a rnd) es d = (Inr (new_uuid (es 0)), snd (query (es 1) Primary
         (Set_verify_code (DocCode (signer r) docCodePrefix (new_uuid (es 0))) (new_uuid (es 0)))
         (d\<lparr>primary_tables := (primary_tables d)
            \<lparr>applications := applications (primary_tables d) @ [new_row (es 0) v]\<rparr>\<rparr>)))"
proof -
  obtain v where v: "encodes r a v"
    "CreateApplication r a rnd = Query Primary (Insert_application v) (create_reply r)"
    using create_enough [of r rnd a] assms(1,2) repo_keyed(2) by auto
  show thesis
  proof (cases "\<exists>row \<in> set (applications (primary_tables d)). PhoneBIdx row = Hash (bidx r) (in_Phone a)")
    case True
    then show thesis using duplicate v(2) insert_up [OF assms(3) v(1) assms(4,5)]
      by (simp add: sql create_reply_def)
  next
    case False
    then show thesis using fresh v insert_up [OF assms(3) v(1) assms(4,5)]
      by (simp add: sql create_reply_def split: prod.split)
  qed
qed

lemma register_create:
  assumes "repo_keyed r" "96 \<le> length rnd" "delivery (es 0) = Up" "list_all text_ok (plain_texts r a)"
    "new_uuid (es 0) \<notin> ID ` set (applications (primary_tables d))"
    "exec (CreateApplication r a rnd) es d = (res, d')"
  shows "register (Hash (bidx r) (in_Phone a)) a (registry r (primary_tables d)) =
      (res \<noteq> Inl ErrDuplicate, registry r (primary_tables d')) \<and>
    res \<in> {Inl ErrDuplicate, Inr (new_uuid (es 0))}"
proof (cases rule: create_up [of r rnd es a d, OF assms(1-5), case_names duplicate fresh])
  case duplicate
  then have "registry r (primary_tables d) (Hash (bidx r) (in_Phone a)) \<noteq> None"
    by (auto simp: registry_None)
  then show ?thesis using duplicate assms(6) by (auto simp: register_def)
next
  case (fresh v)
  let ?t = "(primary_tables d)\<lparr>applications := applications (primary_tables d) @ [new_row (es 0) v]\<rparr>"
  have "decode_row r (new_row (es 0) v) = a"
    using decode_encodes repo_keyed(1) [OF assms(1)] row_encodes_new [OF fresh(2)] by blast
  then have "registry r ?t = (registry r (primary_tables d))(Hash (bidx r) (in_Phone a) \<mapsto> a)"
    using registry_append [of "primary_tables d" "new_row (es 0) v" r] fresh(1) encodes_bidx(1) [OF fresh(2)] by simp
  moreover have "registry r (primary_tables d) (Hash (bidx r) (in_Phone a)) = None"
    using fresh(1) by (simp add: registry_None)
  moreover note ends = trans [OF assms(6) [symmetric] fresh(3)]
  then have "registry r (primary_tables d') = registry r (primary_tables (d\<lparr>primary_tables := ?t\<rparr>))"
    by (simp only: prod.inject registry_set_code)
  then have "registry r (primary_tables d') = registry r ?t" by simp
  moreover have "res = Inr (new_uuid (es 0))" using ends by (simp only: prod.inject)
  ultimately show ?thesis by (simp add: register_def)
qed

section \<open>Looking up\<close>

lemma limit1_Some: "limit1 n P rows = Some r \<Longrightarrow> r \<in> set rows \<and> P r"
proof -
  assume l: "limit1 n P rows = Some r"
  then obtain x xs where f: "filter P rows = x # xs" "r = (x # xs) ! (n mod length (x # xs))"
    by (auto simp: limit1_def split: list.splits)
  have "n mod length (x # xs) < length (x # xs)" by (rule mod_less_divisor) simp
  then have "r \<in> set (filter P rows)" unfolding f by (rule nth_mem)
  then show ?thesis by simp
qed

lemma limit1_None: "limit1 n P rows = None \<longleftrightarrow> (\<forall>r \<in> set rows. \<not> P r)"
proof -
  have "limit1 n P rows = None \<longleftrightarrow> filter P rows = []" by (simp add: limit1_def split: list.split)
  then show ?thesis by (simp add: filter_empty_conv)
qed

lemma limit1_unique: "filter P rows = [r] \<Longrightarrow> limit1 n P rows = Some r"
  by (simp add: limit1_def)

lemma lookup_key_text [simp]: "text_ok (lookup_key r p b)"
  by (simp add: lookup_key_def Hash_text)

lemma query_lookup:
  "delivery e = Up \<Longrightarrow> query e p (Select_admit_card (lookup_key r ph b)) d =
     (select_row e (\<lambda>row. PhoneDOBBIdx row = lookup_key r ph b) (pool_tables p d), d)"
  by (simp add: query_def exec_stmt_def Let_def)

text \<open>The code a lookup shows: the stored one, or the code of the id when there is none yet.\<close>

definition shown_code :: "Repository \<Rightarrow> application_row \<Rightarrow> string" where
  "shown_code r row =
     (if VerifyCode row = [] then DocCode (signer r) docCodePrefix (ID row) else VerifyCode row)"

lemma exec_card_reply:
  "fst (exec (card_reply r rep) es d) =
     (case rep of NoRows \<Rightarrow> Inl ErrNotFound
      | Row row \<Rightarrow> Inr (card_view r row (shown_code r row))
      | _ \<Rightarrow> Inl (Wrapped ''lookup admit card'' rep))"
  "snd (exec (card_reply r rep) es d) =
     (case rep of Row row \<Rightarrow>
        if VerifyCode row = [] then snd (query (es 0) Primary
          (Fill_verify_code (DocCode (signer r) docCodePrefix (ID row)) (ID row)) d) else d
      | _ \<Rightarrow> d)"
  by (cases rep; simp add: card_reply_def shown_code_def sql Let_def split: prod.split)+

lemma exec_FindAdmitCard:
  "exec (FindAdmitCard r lk) es d =
     exec (card_reply r (fst (query (es 0) Replica
       (Select_admit_card (lookup_key r (lk_Phone lk) (lk_DOB lk))) d))) (\<lambda>n. es (Suc n)) d"
  using query_select [of "Select_admit_card (lookup_key r (lk_Phone lk) (lk_DOB lk))" "es 0" Replica d]
  by (auto simp: FindAdmitCard_def sql is_select_def split: prod.split)

lemma exec_found:
  assumes "delivery (es 0) = Up"
    "limit1 (pick (es 0)) (\<lambda>row. PhoneDOBBIdx row = lookup_key r (lk_Phone lk) (lk_DOB lk))
       (applications (pool_tables Replica d)) = Some row"
    "code_ok r row"
  shows "fst (exec (FindAdmitCard r lk) es d) =
    Inr (card_view r row (DocCode (signer r) docCodePrefix (ID row)))"
  using assms
  by (auto simp: exec_FindAdmitCard exec_card_reply query_lookup select_row_def code_ok_def shown_code_def)

lemma pool_catch_up [simp]: "pool_tables p (catch_up d) = primary_tables d"
  by (auto simp: pool_tables_def catch_up_def split: pool.split option.split)

text \<open>The card of an application that was just submitted.\<close>

definition issued_card :: "Repository \<Rightarrow> ApplicationInput \<Rightarrow> string \<Rightarrow> civil \<Rightarrow> AdmitCardView" where
  "issued_card r a ident created =
     \<lparr>av_ID = ident, av_Name = in_Name a, av_Phone = in_Phone a, av_Email = in_Email a,
      av_Division = in_Division a, av_District = in_District a, av_Address = in_Address a,
      av_Education = in_Education a, av_PhotoURL = in_PhotoData a, av_Batch = batch r, av_RollNo = [],
      av_AdmissionConfirmed = False, av_Status = ''submitted'', av_ApplicationDate = format_iso created,
      av_VerifyCode = DocCode (signer r) docCodePrefix ident\<rparr>"

lemma card_view_encodes:
  assumes "cipher_ok (cipher r)" "row_encodes r a row" "Batch row = batch r" "RollNo row = None"
    "\<not> AdmissionConfirmed row" "Status row = ''submitted''"
  shows "card_view r row (DocCode (signer r) docCodePrefix (ID row)) = issued_card r a (ID row) (CreatedAt row)"
proof -
  have "dec r (NameEnc row) = in_Name a" "dec r (PhoneEnc row) = in_Phone a" "dec r (EmailEnc row) = in_Email a"
    "dec r (AddressEnc row) = in_Address a" "dec r (EducationEnc row) = in_Education a"
    "dec r (PhotoEnc row) = in_PhotoData a"
    using assms(1,2) by (auto simp: row_encodes_def intro: is_enc_dec)
  moreover have "App_Division row = in_Division a" "App_District row = in_District a"
    using assms(2) by (auto simp: row_encodes_def)
  ultimately show ?thesis using assms(3-6) by (simp add: card_view_def issued_card_def)
qed

lemma card_view_new:
  assumes "cipher_ok (cipher r)" "encodes r a v"
  shows "card_view r (new_row e v) (DocCode (signer r) docCodePrefix (new_uuid e)) =
    issued_card r a (new_uuid e) (now e)"
proof -
  have "row_encodes r a (new_row e v)" using row_encodes_new [OF assms(2)] by blast
  from card_view_encodes [OF assms(1) this] encodes_bidx(3) [OF assms(2)] show ?thesis by simp
qed

lemma card_view_code [simp]: "card_view r (row\<lparr>VerifyCode := x\<rparr>) c = card_view r row c"
  by (simp add: card_view_def)

text \<open>
  The rows after a successful submission: the old ones and a new one, its code set or not, as the
  second statement went.
\<close>

lemma created_exact:
  assumes "exec (CreateApplication r a rnd) es d = (Inr ident, d1)"
  defines "c \<equiv> DocCode (signer r) docCodePrefix ident"
  obtains v where "encodes r a v" "delivery (es 0) = Up" "ident = new_uuid (es 0)"
    "applications (primary_tables d1) = applications (primary_tables d) @
       [if c \<in> VerifyCode ` set (applications (primary_tables d)) \<or> delivery (es 1) = Down \<or> \<not> text_ok ident
        then new_row (es 0) v else (new_row (es 0) v)\<lparr>VerifyCode := c\<rparr>]"
    "\<forall>s \<in> set (applications (primary_tables d)). \<not> clash (new_row (es 0) v) s"
  using assms(1)
proof (cases rule: create_ends)
  case (inserted v d0)
  let ?hit = "\<lambda>r. ID r = ident"
  have id: "ident = new_uuid (es 0)" using inserted(2) by simp
  note q = query_inserted [OF inserted(3)]
  have apps: "applications (primary_tables d0) = applications (primary_tables d) @ [new_row (es 0) v]"
    by (simp add: q(4))
  have nohit: "\<forall>s \<in> set (applications (primary_tables d)). \<not> ?hit s" using q(3) id by (auto simp: clash_new_row)
  have old: "map (\<lambda>r. if ?hit r then r\<lparr>VerifyCode := c\<rparr> else r) (applications (primary_tables d)) =
      applications (primary_tables d)"
    using nohit by (intro map_idI) auto
  have d1: "primary_tables d1 = (if delivery (es 1) = Down \<or> \<not> text_ok c \<or> \<not> text_ok ident
      then primary_tables d0 else snd (update_code ?hit c (primary_tables d0)))"
    unfolding inserted(4) id [symmetric] c_def by (rule primary_set_code)
  let ?clash = "c \<in> VerifyCode ` set (applications (primary_tables d))"
  have hit: "?hit (new_row (es 0) v)" by (simp add: id)
  have c: "c \<noteq> []" "text_ok c" by (simp_all add: c_def DocCode_nonempty DocCode_text)
  have upd: "applications (snd (update_code ?hit c (primary_tables d0))) =
      applications (primary_tables d) @ [if ?clash then new_row (es 0) v else (new_row (es 0) v)\<lparr>VerifyCode := c\<rparr>]"
    using nohit hit c by (auto simp: update_code_def apps old image_iff)
  have rows: "applications (primary_tables d1) = applications (primary_tables d) @
       [if ?clash \<or> delivery (es 1) = Down \<or> \<not> text_ok ident
        then new_row (es 0) v else (new_row (es 0) v)\<lparr>VerifyCode := c\<rparr>]"
    unfolding d1 by (simp add: upd apps c)
  show thesis by (rule that [OF inserted(1) q(1) id rows q(3)])
qed auto

lemma created_rows:
  assumes "exec (CreateApplication r a rnd) es d = (Inr ident, d1)"
  obtains v row where "encodes r a v" "delivery (es 0) = Up" "ident = new_uuid (es 0)"
    "applications (primary_tables d1) = applications (primary_tables d) @ [row]"
    "row = new_row (es 0) v \<or> row = (new_row (es 0) v)\<lparr>VerifyCode := DocCode (signer r) docCodePrefix ident\<rparr>"
    "\<forall>s \<in> set (applications (primary_tables d)). \<not> clash (new_row (es 0) v) s"
proof (cases rule: created_exact [OF assms])
  case (1 v)
  show thesis by (rule that [OF 1(1,2,3,4) _ 1(5)]) simp
qed

lemma filter_snoc_unique:
  "\<forall>x \<in> set xs. \<not> P x \<Longrightarrow> P y \<Longrightarrow> filter P (xs @ [y]) = [y]"
  by simp

lemma lookup_after_create:
  assumes "repo_keyed r" "exec (CreateApplication r a rnd) es d = (Inr ident, d1)"
    "\<forall>row \<in> set (applications (primary_tables d)). PhoneDOBBIdx row \<noteq> lookup_key r (in_Phone a) (in_DOB a)"
    "lookup_key r (lk_Phone lk) (lk_DOB lk) = lookup_key r (in_Phone a) (in_DOB a)" "delivery (es' 0) = Up"
  shows "fst (exec (FindAdmitCard r lk) es' (catch_up d1)) = Inr (issued_card r a ident (now (es 0)))"
proof -
  obtain v row where c: "encodes r a v" "ident = new_uuid (es 0)"
    "applications (primary_tables d1) = applications (primary_tables d) @ [row]"
    "row = new_row (es 0) v \<or> row = (new_row (es 0) v)\<lparr>VerifyCode := DocCode (signer r) docCodePrefix ident\<rparr>"
    using assms(2) by (rule created_rows)
  have row: "PhoneDOBBIdx row = lookup_key r (in_Phone a) (in_DOB a)" "ID row = ident" "code_ok r row"
    using c(2,4) encodes_bidx(2) [OF c(1)] by (auto simp: code_ok_def)
  have "filter (\<lambda>row. PhoneDOBBIdx row = lookup_key r (lk_Phone lk) (lk_DOB lk))
      (applications (pool_tables Replica (catch_up d1))) = [row]"
    using assms(3) row(1) by (simp add: c(3) assms(4))
  then have "fst (exec (FindAdmitCard r lk) es' (catch_up d1)) =
      Inr (card_view r row (DocCode (signer r) docCodePrefix (ID row)))"
    using assms(5) row(3) limit1_unique by (intro exec_found) blast+
  also have "card_view r row (DocCode (signer r) docCodePrefix (ID row)) = issued_card r a ident (now (es 0))"
    using c(4) card_view_new [OF repo_keyed(1) [OF assms(1)] c(1), of "es 0"] by (auto simp: c(2))
  finally show ?thesis .
qed

lemma lookup_key_same:
  assumes "bdphone p" "bdphone p'" "normalize p = normalize p'" "writes_date t b" "writes_date t b'"
  shows "lookup_key r p b = lookup_key r p' b'"
proof -
  have v: "valid_civil t" using assms(4) by (simp add: writes_date_def)
  show ?thesis unfolding lookup_key_def
    by (rule hmac_index.hash_norm)
      (simp only: normalizeDate_writes [OF assms(4)] normalizeDate_writes [OF assms(5)]
        normalize_key [OF assms(1) v] normalize_key [OF assms(2) v] assms(3))
qed

section \<open>Verifying a code\<close>

text \<open>The columns that the public answer to a code is made of.\<close>

definition public_part :: "application_row \<Rightarrow> string \<times> string \<times> string option \<times> bool \<times> string \<times> civil" where
  "public_part row =
     (VerifyCode row, Batch row, RollNo row, AdmissionConfirmed row, Status row, CreatedAt row)"

lemma verify_view_public: "public_part row = public_part row' \<Longrightarrow> verify_view row = verify_view row'"
  by (simp add: public_part_def verify_view_def)

lemma filter_public:
  "map public_part xs = map public_part ys \<Longrightarrow>
     map public_part (filter (\<lambda>r. VerifyCode r = c) xs) = map public_part (filter (\<lambda>r. VerifyCode r = c) ys)"
proof (induction xs arbitrary: ys)
  case (Cons x xs)
  then obtain y zs where y: "ys = y # zs" "public_part x = public_part y" "map public_part xs = map public_part zs"
    by auto
  then have "VerifyCode x = VerifyCode y" by (simp add: public_part_def)
  then show ?case using Cons.IH [OF y(3)] y by simp
qed simp

lemma limit1_public:
  assumes "map public_part xs = map public_part ys"
  shows "map_option verify_view (limit1 n (\<lambda>r. VerifyCode r = c) xs) =
    map_option verify_view (limit1 n (\<lambda>r. VerifyCode r = c) ys)"
proof -
  let ?f = "filter (\<lambda>r. VerifyCode r = c)"
  have m: "map public_part (?f xs) = map public_part (?f ys)" by (rule filter_public [OF assms])
  then have l: "length (?f xs) = length (?f ys)" by (rule map_eq_imp_length_eq)
  show ?thesis
  proof (cases "?f xs")
    case Nil
    then show ?thesis using l by (simp add: limit1_def)
  next
    case (Cons x fs)
    then obtain y gs where y: "?f ys = y # gs" using l by (cases "?f ys") auto
    let ?i = "n mod length (x # fs)"
    have i: "?i < length (?f xs)" unfolding Cons by (rule mod_less_divisor) simp
    have "public_part (?f xs ! ?i) = public_part (?f ys ! ?i)"
      using arg_cong [OF m, of "\<lambda>l. l ! ?i"] i l by simp
    then have "verify_view (?f xs ! ?i) = verify_view (?f ys ! ?i)" by (rule verify_view_public)
    then show ?thesis using Cons y l by (simp add: limit1_def)
  qed
qed

lemma exec_verify:
  "exec (FindByVerifyCode r c) es d =
     (if canonical_code c = [] then Inl ErrNotFound
      else if delivery (es 0) \<noteq> Up then Inl (Wrapped ''verify code lookup'' (Failed ConnError))
      else if \<not> text_ok (canonical_code c) then Inl (Wrapped ''verify code lookup'' (Failed (PgError bad_text)))
      else case map_option verify_view (limit1 (pick (es 0)) (\<lambda>row. VerifyCode row = canonical_code c)
          (applications (pool_tables Replica d))) of
        None \<Rightarrow> Inl ErrNotFound | Some v \<Rightarrow> Inr v, d)"
  by (cases "delivery (es 0)")
    (auto simp: FindByVerifyCode_def canonical_code_def Let_def sql query_def exec_stmt_def select_row_def
      split: option.split)

lemma plain_upper_AC: "plain_upper docCodePrefix"
  by (simp add: plain_upper_def docCodePrefix_def solid_code upper_char_def)

lemma canonical_DocCode:
  "\<forall>c \<in> set w. blank c \<Longrightarrow> \<forall>c \<in> set v. blank c \<Longrightarrow>
     canonical_code (w @ map lower_char (DocCode s docCodePrefix i) @ v) = DocCode s docCodePrefix i"
  by (rule canonical_code_typed [OF plain_upper_DocCode [OF plain_upper_AC] DocCode_nonempty])

text \<open>The public answer for an application as it was submitted.\<close>

definition submitted_view :: "Repository \<Rightarrow> civil \<Rightarrow> VerifyView" where
  "submitted_view r created =
     \<lparr>vv_Valid = True, vv_DocType = ''admit-card'', vv_Status = ''submitted'', vv_Batch = batch r,
      vv_RollNo = [], vv_AdmissionConfirmed = False, vv_IssuedDate = format_iso created\<rparr>"

lemma verify_view_new:
  assumes "encodes r a v"
  shows "verify_view (new_row e v) = submitted_view r (now e)"
    "verify_view ((new_row e v)\<lparr>VerifyCode := c\<rparr>) = submitted_view r (now e)"
  using encodes_bidx(3) [OF assms] by (simp_all add: verify_view_def submitted_view_def)

lemma verify_after_create:
  assumes "exec (CreateApplication r a rnd) es d = (Inr ident, d1)"
    "canonical_code typed = DocCode (signer r) docCodePrefix ident" "delivery (es' 0) = Up"
  shows "exec (FindByVerifyCode r typed) es' (catch_up d1) =
    (case limit1 (pick (es' 0)) (\<lambda>row. VerifyCode row = DocCode (signer r) docCodePrefix ident)
        (applications (primary_tables d)) of
       Some row \<Rightarrow> Inr (verify_view row)
     | None \<Rightarrow> if delivery (es 1) = Down \<or> \<not> text_ok ident then Inl ErrNotFound
         else Inr (submitted_view r (now (es 0))), catch_up d1)"
proof (cases rule: created_exact [OF assms(1)])
  case (1 v)
  let ?c = "DocCode (signer r) docCodePrefix ident"
  let ?has = "\<lambda>row. VerifyCode row = ?c"
  let ?rows = "applications (primary_tables d)"
  have c: "?c \<noteq> []" "text_ok ?c" by (simp_all add: DocCode_nonempty DocCode_text)
  note apps = 1(4)
  have "map_option verify_view (limit1 (pick (es' 0)) ?has (applications (primary_tables d1))) =
    (case limit1 (pick (es' 0)) ?has ?rows of
       Some row \<Rightarrow> Some (verify_view row)
     | None \<Rightarrow> if delivery (es 1) = Down \<or> \<not> text_ok ident then None else Some (submitted_view r (now (es 0))))"
  proof (cases "?c \<in> VerifyCode ` set ?rows")
    case True
    then have "filter ?has (applications (primary_tables d1)) = filter ?has ?rows" using c(1) by (simp add: apps)
    moreover have "limit1 (pick (es' 0)) ?has ?rows \<noteq> None" using True by (auto simp: limit1_None)
    ultimately show ?thesis by (auto simp: limit1_def split: option.splits)
  next
    case False
    then have none: "filter ?has ?rows = []" by (metis (mono_tags, lifting) filter_False image_eqI)
    then have "limit1 (pick (es' 0)) ?has ?rows = None" by (simp add: limit1_def)
    moreover have "filter ?has (applications (primary_tables d1)) =
        (if delivery (es 1) = Down \<or> \<not> text_ok ident then [] else [(new_row (es 0) v)\<lparr>VerifyCode := ?c\<rparr>])"
      using False c(1) none by (simp add: apps)
    ultimately show ?thesis using verify_view_new [OF 1(1)] by (simp add: limit1_def)
  qed
  then show ?thesis
    using assms(3) c by (simp add: exec_verify assms(2) split: option.split)
qed

end
