(* ===== verification/Repository_Spec.thy ===== *)
theory Repository_Spec
  imports Repository
begin

text \<open>
  The properties of the repository: what a submission stores and refuses, what the two lookups
  return for it, what they reveal and what they change, and the contract that every statement the
  repository sends keeps with the database.
\<close>

section \<open>A sample deployment, for the witnesses\<close>

definition sample_repo :: Repository where
  "sample_repo = NewRepository \<lparr>aead_of = new_gcm (replicate 32 7)\<rparr> (NewBlindIndex [1, 2, 3])
     (NewSigner [4, 5, 6]) ''2025''"

definition sample_env :: env where
  "sample_env n = \<lparr>delivery = Up, new_uuid = ''1b4e28ba'', now = \<lparr>year = 2025, month = 1, day = 2\<rparr>, pick = 0\<rparr>"

definition empty_db :: database where
  "empty_db = \<lparr>primary_tables = \<lparr>applications = [], contact_messages = [], newsletter_subscribers = []\<rparr>,
     replica_tables = None\<rparr>"

definition sample_entropy :: entropy where
  "sample_entropy = replicate 96 0"

definition sample_lookup :: AdmitCardLookup where
  "sample_lookup = \<lparr>lk_Phone = ''01712 345678'', lk_DOB = '' 2001-01-02 ''\<rparr>"

lemma sample_keyed: "repo_keyed sample_repo"
proof -
  have "NewCipher (replicate 32 7) = Inr (cipher sample_repo)"
    by (simp add: NewCipher_def sample_repo_def NewRepository_def)
  then show ?thesis unfolding repo_keyed_def by blast
qed

lemma sample_entropy: "96 \<le> length sample_entropy"
  by (simp add: sample_entropy_def)

lemma sample_env [simp]: "delivery (sample_env n) = Up" "new_uuid (sample_env n) = ''1b4e28ba''"
  "now (sample_env n) = \<lparr>year = 2025, month = 1, day = 2\<rparr>"
  by (simp_all add: sample_env_def)

lemma sample_texts: "list_all text_ok (plain_texts sample_repo sample_application)"
proof -
  have "\<forall>s \<in> set (plain_texts sample_repo sample_application). \<forall>c \<in> set s. 0 < code c \<and> code c < 128"
    by (simp add: plain_texts_def sample_application_def sample_repo_def NewRepository_def)
  then show ?thesis by (auto simp: list_all_iff intro: text_ok_ascii)
qed

lemma empty_rows [simp]: "applications (primary_tables empty_db) = []"
  by (simp add: empty_db_def)

definition sample_created :: database where
  "sample_created = snd (exec (CreateApplication sample_repo sample_application sample_entropy) sample_env empty_db)"

lemma sample_create:
  "exec (CreateApplication sample_repo sample_application sample_entropy) sample_env empty_db =
     (Inr ''1b4e28ba'', sample_created)"
proof (cases rule: create_up [of sample_repo sample_entropy sample_env sample_application empty_db,
      OF sample_keyed sample_entropy _ sample_texts, case_names up fresh_id duplicate fresh])
  case (fresh v)
  then show ?thesis unfolding sample_created_def by simp
qed simp_all

lemma replica_query: "replica_tables (snd (query e Primary s d)) = replica_tables d"
  by (auto simp: query_def Let_def split: delivery.split prod.split)

lemma sample_no_replica: "replica_tables sample_created = None"
  using sample_create
proof (cases rule: create_ends)
  case (inserted v d1)
  have "replica_tables d1 = replica_tables empty_db"
    using replica_query [of "sample_env 0" "Insert_application v" empty_db] inserted(3) by simp
  then show ?thesis by (simp add: inserted(4) replica_query empty_db_def)
qed auto

lemma sample_dates: "writes_date \<lparr>year = 2001, month = 1, day = 2\<rparr> ''02/01/2001''"
  "writes_date \<lparr>year = 2001, month = 1, day = 2\<rparr> '' 2001-01-02 ''"
proof -
  let ?t = "\<lparr>year = 2001, month = 1, day = 2\<rparr>"
  have v: "valid_civil ?t" by (simp add: valid_civil_def days_in_def)
  have "format_dmy CHR ''/'' ?t = ''02/01/2001''" "format_iso ?t = ''2001-01-02''"
    unfolding format_dmy_eq [OF v] format_iso_eq [OF v] by (simp_all add: digit_char_def char_of_def bit_0)
  moreover have "trim_space ''02/01/2001'' = ''02/01/2001''"
    by (rule trim_space_solid) (simp_all add: solid_code)
  moreover have "trim_space ('' '' @ ''2001-01-02'' @ '' '') = ''2001-01-02''"
    by (rule trim_space_blanks) (simp_all add: solid_code blank_def is_space_def)
  ultimately show "writes_date ?t ''02/01/2001''" "writes_date ?t '' 2001-01-02 ''"
    using v by (simp_all add: writes_date_def)
qed

lemma sample_phones:
  "normalize ''01712 345678'' = normalize ''01712-345678''" "bdphone ''01712 345678''"
proof -
  show "normalize ''01712 345678'' = normalize ''01712-345678''"
    by (subst (1 2) normalize_phone) (simp_all add: phone_char_def phone_noise_def)
  have "remove_char CHR ''-'' (remove_char CHR '' '' ''01712 345678'') = ''0'' @ ''1712345678''"
    by (simp add: remove_char_def)
  moreover have "''0'' \<in> phone_prefixes" "subscriber ''1712345678''"
    by (simp_all add: phone_prefixes_def subscriber_def is_digit_def)
  ultimately show "bdphone ''01712 345678''" unfolding bdphone_iff by blast
qed

section \<open>Properties: submissions\<close>

text \<open>
  C2. On a reachable database, \<open>CreateApplication\<close> implements the abstract registration: it returns
  the id of the new row and maps the blind index of the phone to the application as sent, or it
  returns \<open>ErrDuplicate\<close> and leaves the registry as it was, when that index is known.
\<close>

theorem CreateApplication_refines:
  assumes "repo_keyed r" "96 \<le> length rnd" "delivery (es 0) = Up" "list_all text_ok (plain_texts r a)"
    "new_uuid (es 0) \<notin> ID ` set (applications (primary_tables d))"
    "exec (CreateApplication r a rnd) es d = (res, d')"
  shows "register (Hash (bidx r) (in_Phone a)) a (registry r (primary_tables d)) =
      (res \<noteq> Inl ErrDuplicate, registry r (primary_tables d')) \<and>
    res \<in> {Inl ErrDuplicate, Inr (new_uuid (es 0))}"
  by (rule register_create [OF assms])

theorem CreateApplication_refines_witness:
  "registry sample_repo (primary_tables sample_created) =
     [Hash (bidx sample_repo) ''01712-345678'' \<mapsto> sample_application]"
proof -
  have "in_Phone sample_application = ''01712-345678''" by (simp add: sample_application_def)
  then show ?thesis
    using CreateApplication_refines [OF sample_keyed sample_entropy _ sample_texts _ sample_create]
    by (simp add: register_def registry_def)
qed

text \<open>
  C6. One application per phone: while the application of a phone is stored, no submission with a
  phone that normalizes alike succeeds, whatever the database and the network do, and none changes
  the database.
\<close>

theorem duplicate_phone_rejected:
  assumes "row \<in> set (applications (primary_tables d))" "row_encodes r b row"
    "normalize (in_Phone a) = normalize (in_Phone b)"
  shows "\<exists>err. exec (CreateApplication r a rnd) es d = (Inl err, d)"
proof -
  obtain res d' where e: "exec (CreateApplication r a rnd) es d = (res, d')" by fastforce
  have hash: "PhoneBIdx row = Hash (bidx r) (in_Phone a)"
    using assms(2) hmac_index.hash_norm [OF assms(3)] by (simp add: row_encodes_def)
  have clash: "\<exists>s \<in> set (applications (primary_tables d)). clash (new_row (es 0) v) s" if "encodes r a v" for v
    using assms(1) hash encodes_bidx(1) [OF that] by (auto simp: clash_new_row)
  show ?thesis using e
  proof (cases rule: create_ends)
    case (inserted v d1)
    then show ?thesis using clash query_inserted(3) by blast
  next
    case (rejected v err)
    then have "d' = d" using clash [OF rejected(1)]
      by (cases d) (auto simp: query_def exec_stmt_def insert_application_def Let_def
          split: delivery.splits if_splits)
    then show ?thesis using e rejected(3) by simp
  qed (use e in simp)
qed

lemma sample_row:
  obtains v row where "encodes sample_repo sample_application v"
    "applications (primary_tables sample_created) = [row]" "row_encodes sample_repo sample_application row"
    "ID row = ''1b4e28ba''"
proof -
  obtain v row where "encodes sample_repo sample_application v"
    "applications (primary_tables sample_created) = applications (primary_tables empty_db) @ [row]"
    "row = new_row (sample_env 0) v \<or>
     row = (new_row (sample_env 0) v)\<lparr>VerifyCode := DocCode (signer sample_repo) docCodePrefix ''1b4e28ba''\<rparr>"
    using sample_create by (rule created_rows)
  then show thesis using that [of v row] row_encodes_new [of sample_repo sample_application v "sample_env 0"]
    by auto
qed

theorem duplicate_phone_rejected_witness:
  "\<exists>err. exec (CreateApplication sample_repo (sample_application\<lparr>in_Phone := ''0171 2345678''\<rparr>) sample_entropy)
     sample_env sample_created = (Inl err, sample_created)"
proof (rule sample_row)
  fix v row
  assume row: "applications (primary_tables sample_created) = [row]" "row_encodes sample_repo sample_application row"
  have "normalize ''0171 2345678'' = normalize ''01712-345678''"
    by (subst (1 2) normalize_phone) (simp_all add: phone_char_def phone_noise_def)
  then show ?thesis
    using duplicate_phone_rejected [of row sample_created sample_repo sample_application
        "sample_application\<lparr>in_Phone := ''0171 2345678''\<rparr>"] row
    by (simp add: sample_application_def)
qed

text \<open>
  A submission that reports success has stored a row under the reported id, which encodes the
  application; one that reports an error has changed nothing, unless the server's answer to the
  INSERT was lost.
\<close>

theorem CreateApplication_atomic:
  "case exec (CreateApplication r a rnd) es d of
     (Inr ident, d') \<Rightarrow> \<exists>row. applications (primary_tables d') = applications (primary_tables d) @ [row] \<and>
       ID row = ident \<and> row_encodes r a row \<and> code_ok r row
   | (Inl err, d') \<Rightarrow> delivery (es 0) = Lost_reply \<or> d' = d"
proof -
  obtain res d' where e: "exec (CreateApplication r a rnd) es d = (res, d')" by fastforce
  show ?thesis
  proof (cases res)
    case (Inl err)
    have "delivery (es 0) = Lost_reply \<or> d' = d"
      using e
    proof (cases rule: create_ends)
      case (rejected v e)
      then show ?thesis using query_failed [OF rejected(2)] by blast
    qed (use Inl in auto)
    then show ?thesis using e Inl by simp
  next
    case (Inr ident)
    then have "exec (CreateApplication r a rnd) es d = (Inr ident, d')" using e by simp
    then obtain v row where c: "encodes r a v" "ident = new_uuid (es 0)"
      "applications (primary_tables d') = applications (primary_tables d) @ [row]"
      "row = new_row (es 0) v \<or> row = (new_row (es 0) v)\<lparr>VerifyCode := DocCode (signer r) docCodePrefix ident\<rparr>"
      by (rule created_rows)
    then have "ID row = ident \<and> row_encodes r a row \<and> code_ok r row"
      using row_encodes_new [OF c(1), of "es 0"] by (auto simp: code_ok_def)
    then show ?thesis using e Inr c(3) by simp
  qed
qed

section \<open>Properties: lookups\<close>

text \<open>
  Once the replica has caught up, the applicant finds the card with the same phone, written with
  other spaces or dashes, and the same date of birth in any of the three layouts: every field is
  the one submitted, decrypted, and the code is the code of the id, whether or not the second
  statement of the submission went through.
\<close>

theorem submit_then_lookup:
  assumes "repo_keyed r" "exec (CreateApplication r a rnd) es d = (Inr ident, d1)"
    "\<forall>row \<in> set (applications (primary_tables d)). PhoneDOBBIdx row \<noteq> lookup_key r (in_Phone a) (in_DOB a)"
    "bdphone (in_Phone a)" "bdphone (lk_Phone lk)" "normalize (lk_Phone lk) = normalize (in_Phone a)"
    "writes_date t (in_DOB a)" "writes_date t (lk_DOB lk)" "delivery (es' 0) = Up"
  shows "fst (exec (FindAdmitCard r lk) es' (catch_up d1)) = Inr (issued_card r a ident (now (es 0)))"
  using assms lookup_key_same [OF assms(5,4,6,8,7)] by (intro lookup_after_create)

theorem submit_then_lookup_witness:
  "fst (exec (FindAdmitCard sample_repo sample_lookup) sample_env (catch_up sample_created)) =
     Inr (issued_card sample_repo sample_application ''1b4e28ba'' \<lparr>year = 2025, month = 1, day = 2\<rparr>)"
proof -
  have s: "in_Phone sample_application = ''01712-345678''" "in_DOB sample_application = ''02/01/2001''"
    "lk_Phone sample_lookup = ''01712 345678''" "lk_DOB sample_lookup = '' 2001-01-02 ''"
    by (simp_all add: sample_application_def sample_lookup_def)
  show ?thesis
    using submit_then_lookup [OF sample_keyed sample_create, of sample_lookup _ sample_env] sample_phones
      bdphone_sample sample_dates by (simp add: s)
qed

text \<open>
  C10. What the code of an application resolves to, typed in lower case and with blanks around it, when the
  replica has the primary as its submission left it: to the status of the application; but if the
  statement that stores the code never arrived (or the id were no text), to nothing, and if an earlier row has
  the same 40 bit code, to the status of that row instead. There is no other case.
\<close>

theorem submit_then_verify:
  assumes "exec (CreateApplication r a rnd) es d = (Inr ident, d1)"
    "\<forall>c \<in> set w. blank c" "\<forall>c \<in> set v. blank c" "delivery (es' 0) = Up"
  shows "exec (FindByVerifyCode r (w @ map lower_char (DocCode (signer r) docCodePrefix ident) @ v)) es' (catch_up d1) =
    (case limit1 (pick (es' 0)) (\<lambda>row. VerifyCode row = DocCode (signer r) docCodePrefix ident)
        (applications (primary_tables d)) of
       Some earlier \<Rightarrow> Inr (verify_view earlier)
     | None \<Rightarrow> if delivery (es 1) = Down \<or> \<not> text_ok ident then Inl ErrNotFound
         else Inr \<lparr>vv_Valid = True, vv_DocType = ''admit-card'', vv_Status = ''submitted'', vv_Batch = batch r,
           vv_RollNo = [], vv_AdmissionConfirmed = False, vv_IssuedDate = format_iso (now (es 0))\<rparr>, catch_up d1)"
  using verify_after_create [where es' = es', OF assms(1) canonical_DocCode [OF assms(2,3)] assms(4)]
  by (simp only: submitted_view_def)

theorem submit_then_verify_witness:
  "\<exists>view. exec (FindByVerifyCode sample_repo
       ('' '' @ map lower_char (DocCode (signer sample_repo) docCodePrefix ''1b4e28ba'') @ [])) sample_env
       (catch_up sample_created) = (Inr view, catch_up sample_created) \<and> vv_Valid view"
  using submit_then_verify [OF sample_create, of "'' ''" "[]" sample_env]
  by (simp add: text_ok_ascii blank_def is_space_def limit1_def)

text \<open>
  The public answer to a code reveals nothing but the batch, the roll number, the confirmation,
  the status and the date of the application with that code: on databases that agree on these
  columns and the codes, whatever the names, phones, addresses and keys, the answers are equal.
  The query changes nothing.
\<close>

theorem FindByVerifyCode_no_pii:
  assumes "map public_part (applications (pool_tables Replica d1)) =
    map public_part (applications (pool_tables Replica d2))"
  shows "fst (exec (FindByVerifyCode r1 c) es d1) = fst (exec (FindByVerifyCode r2 c) es d2) \<and>
    snd (exec (FindByVerifyCode r1 c) es d1) = d1"
  using limit1_public [OF assms, of "pick (es 0)" "canonical_code c"] by (simp add: exec_verify)

theorem FindByVerifyCode_no_pii_witness:
  "fst (exec (FindByVerifyCode sample_repo ''dyd-ac-00000000'') sample_env sample_created) =
     fst (exec (FindByVerifyCode sample_repo ''dyd-ac-00000000'') sample_env
       (sample_created\<lparr>primary_tables := (primary_tables sample_created)
          \<lparr>applications := map (\<lambda>row. row\<lparr>NameEnc := ''QUJD''\<rparr>) (applications (primary_tables sample_created))\<rparr>\<rparr>))"
    (is "_ = fst (exec _ _ ?d2)")
proof (rule sample_row)
  fix row
  assume row: "applications (primary_tables sample_created) = [row]"
  have "map public_part (applications (pool_tables Replica sample_created)) =
      map public_part (applications (pool_tables Replica ?d2))"
    by (simp add: pool_tables_def row public_part_def sample_no_replica)
  then show ?thesis using FindByVerifyCode_no_pii by blast
qed

text \<open>
  C22. The admit-card lookup on every branch: the error of a failed query; \<open>ErrNotFound\<close> exactly when
  no row has the key of the phone and the date of birth, whichever of the two is wrong; otherwise
  the card of a row with that key, with the stored code or, when there is none yet, the code of
  the id.
\<close>

theorem FindAdmitCard_outcome:
  "fst (exec (FindAdmitCard r lk) es d) =
     (if delivery (es 0) \<noteq> Up then Inl (Wrapped ''lookup admit card'' (Failed ConnError))
      else case limit1 (pick (es 0)) (\<lambda>row. PhoneDOBBIdx row = lookup_key r (lk_Phone lk) (lk_DOB lk))
          (applications (pool_tables Replica d)) of
        None \<Rightarrow> Inl ErrNotFound
      | Some row \<Rightarrow> Inr (card_view r row (shown_code r row))) \<and>
   (fst (exec (FindAdmitCard r lk) es d) = Inl ErrNotFound \<longleftrightarrow> delivery (es 0) = Up \<and>
      PhoneDOBBIdx ` set (applications (pool_tables Replica d)) \<inter> {lookup_key r (lk_Phone lk) (lk_DOB lk)} = {})"
proof -
  let ?key = "lookup_key r (lk_Phone lk) (lk_DOB lk)"
  let ?found = "limit1 (pick (es 0)) (\<lambda>row. PhoneDOBBIdx row = ?key) (applications (pool_tables Replica d))"
  have "fst (query (es 0) Replica (Select_admit_card ?key) d) =
      (if delivery (es 0) = Up then (case ?found of None \<Rightarrow> NoRows | Some row \<Rightarrow> Row row)
       else Failed ConnError)"
  proof (cases "delivery (es 0) = Up")
    case True
    then show ?thesis by (simp add: query_lookup select_row_def)
  next
    case False
    then show ?thesis by (cases "delivery (es 0)") (auto simp: query_def Let_def split: prod.split)
  qed
  then have main: "fst (exec (FindAdmitCard r lk) es d) =
     (if delivery (es 0) \<noteq> Up then Inl (Wrapped ''lookup admit card'' (Failed ConnError))
      else case ?found of None \<Rightarrow> Inl ErrNotFound | Some row \<Rightarrow> Inr (card_view r row (shown_code r row)))"
    by (simp add: exec_FindAdmitCard exec_card_reply split: option.split)
  have "?found = None \<longleftrightarrow> PhoneDOBBIdx ` set (applications (pool_tables Replica d)) \<inter> {?key} = {}"
    by (auto simp: limit1_None image_iff)
  then show ?thesis using main by (auto split: option.split)
qed

lemma update_code_pointwise:
  "list_all2 (\<lambda>x y. y = x \<or> (hit x \<and> y = x\<lparr>VerifyCode := c\<rparr>)) (applications t)
     (applications (snd (update_code hit c t)))"
  by (auto simp: update_code_def list_all2_conv_all_nth)

lemma update_code_rest [simp]:
  "contact_messages (snd (update_code hit c t)) = contact_messages t"
  "newsletter_subscribers (snd (update_code hit c t)) = newsletter_subscribers t"
  by (simp_all add: update_code_def)

lemma primary_fill_code:
  "primary_tables (snd (query e Primary (Fill_verify_code c i) d)) =
     (if delivery e = Down \<or> \<not> text_ok c \<or> \<not> text_ok i then primary_tables d
      else snd (update_code (\<lambda>r. ID r = i \<and> VerifyCode r = []) c (primary_tables d)))"
  by (auto simp: query_def exec_stmt_def Let_def split: delivery.split prod.split)

lemma find_state:
  "snd (exec (FindAdmitCard r lk) es d) = d \<or>
   (\<exists>i. snd (exec (FindAdmitCard r lk) es d) =
      snd (query (es 1) Primary (Fill_verify_code (DocCode (signer r) docCodePrefix i) i) d))"
  unfolding exec_FindAdmitCard exec_card_reply by (auto split: reply.split if_split)

text \<open>
  C21. A lookup writes nothing but missing codes: whatever happens, every row of the primary is as
  before, or its code was empty and is now the code of its id; no row appears or disappears, and
  the other tables and the replica stay as they are.
\<close>

theorem FindAdmitCard_backfills_only:
  fixes r lk es d
  defines "d' \<equiv> snd (exec (FindAdmitCard r lk) es d)"
  shows "list_all2 (\<lambda>x y. y = x \<or>
        (VerifyCode x = [] \<and> y = x\<lparr>VerifyCode := DocCode (signer r) docCodePrefix (ID x)\<rparr>))
      (applications (primary_tables d)) (applications (primary_tables d')) \<and>
    contact_messages (primary_tables d') = contact_messages (primary_tables d) \<and>
    newsletter_subscribers (primary_tables d') = newsletter_subscribers (primary_tables d) \<and>
    replica_tables d' = replica_tables d"
proof (rule disjE [OF find_state [of r lk es d]]; (elim exE)?)
  assume "snd (exec (FindAdmitCard r lk) es d) = d"
  then show ?thesis by (simp add: d'_def list_all2_refl)
next
  fix i
  let ?c = "DocCode (signer r) docCodePrefix i"
  assume "snd (exec (FindAdmitCard r lk) es d) = snd (query (es 1) Primary (Fill_verify_code ?c i) d)"
  then have d': "d' = snd (query (es 1) Primary (Fill_verify_code ?c i) d)" by (simp add: d'_def)
  have "list_all2 (\<lambda>x y. y = x \<or> (VerifyCode x = [] \<and> y = x\<lparr>VerifyCode := DocCode (signer r) docCodePrefix (ID x)\<rparr>))
      (applications (primary_tables d)) (applications (primary_tables d'))"
    unfolding d' primary_fill_code
    using update_code_pointwise [of "\<lambda>r. ID r = i \<and> VerifyCode r = []" ?c "primary_tables d"]
    by (auto simp: list_all2_refl elim!: list_all2_mono)
  then show ?thesis by (simp add: d' primary_fill_code replica_query)
qed

section \<open>Properties: keys and dates\<close>

text \<open>
  \<open>normalizeDate\<close> maps every accepted way to write a date, in any of the three layouts with
  white space around it, to the same yyyy-mm-dd, and is idempotent on every string.
\<close>

theorem normalizeDate_canonical:
  "(writes_date t s \<longrightarrow> normalizeDate s = format_iso t) \<and>
   normalizeDate (normalizeDate s) = normalizeDate s"
proof -
  have "normalizeDate (normalizeDate s) = normalizeDate s"
  proof (cases "first_parse date_layouts (trim_space s)")
    case None
    then show ?thesis by (simp add: normalizeDate_def)
  next
    case (Some u)
    then have "valid_civil u"
      by (auto simp: date_layouts_def time_parse_iso_iff time_parse_dmy_iff split: option.splits)
    then show ?thesis using Some normalizeDate_writes [OF writes_iso]
      by (simp add: normalizeDate_def [of s])
  qed
  then show ?thesis using normalizeDate_writes by blast
qed

theorem normalizeDate_canonical_witness: "normalizeDate ''02/01/2001'' = normalizeDate '' 2001-01-02 ''"
  using normalizeDate_canonical [of "\<lparr>year = 2001, month = 1, day = 2\<rparr>"] sample_dates by metis

text \<open>
  C23. The lookup key of an accepted phone and date stands for exactly the digits of the phone and
  the calendar date: what is hashed is equal for two pairs if and only if both are. No digits can
  move from one part to the other.
\<close>

theorem lookup_key_identifies:
  assumes "bdphone p" "bdphone p'" "writes_date t b" "writes_date t' b'"
  shows "normalize (p @ ''|'' @ normalizeDate b) = normalize (p' @ ''|'' @ normalizeDate b') \<longleftrightarrow>
    normalize p = normalize p' \<and> t = t'"
proof -
  have v: "valid_civil t" "valid_civil t'" using assms(3,4) by (simp_all add: writes_date_def)
  have bar: "CHR ''|'' \<notin> set (normalize q)" if q: "bdphone q" for q
    using bdphone_chars [OF q] by (auto simp: normalize_phone phone_char_def phone_noise_def)
  have key: "normalize (p @ ''|'' @ normalizeDate b) = normalize p @ CHR ''|'' # compact t"
    "normalize (p' @ ''|'' @ normalizeDate b') = normalize p' @ CHR ''|'' # compact t'"
    unfolding normalizeDate_writes [OF assms(3)] normalizeDate_writes [OF assms(4)]
    by (rule normalize_key [OF assms(1) v(1)], rule normalize_key [OF assms(2) v(2)])
  show ?thesis
    unfolding key using append_sep_eq [OF _ bar [OF assms(1)] bar [OF assms(2)]] compact_inject [OF v] by auto
qed

theorem lookup_key_identifies_witness:
  "normalize (''01712-345678'' @ ''|'' @ normalizeDate ''02/01/2001'') =
   normalize (''01712-345678'' @ ''|'' @ normalizeDate '' 2001-01-02 '')"
  using lookup_key_identifies [OF bdphone_sample bdphone_sample sample_dates] by blast

section \<open>Properties: the contract with the database\<close>

text \<open>
  Confidentiality, in terms of the library alone: a protected value is empty (for an empty field) or the base64
  of a nonce and an AES-GCM sealing under the service's key, a searchable value is the hex of an HMAC-SHA256 under the
  key of the index. The other columns, and the subject of a message, are stored in plain.
\<close>

definition protected :: "Repository \<Rightarrow> string \<Rightarrow> bool" where
  "protected r e \<longleftrightarrow> e = [] \<or> (\<exists>nonce plain. plain \<noteq> [] \<and> length nonce = nonce_size (aead_of (cipher r)) \<and>
     e = b64_encode (nonce @ seal (aead_of (cipher r)) nonce plain))"

definition searchable :: "Repository \<Rightarrow> string \<Rightarrow> bool" where
  "searchable r b \<longleftrightarrow> (\<exists>msg. b = hex_encode (hmac_sha256 (bidx_key (bidx r)) msg))"

fun confidential :: "Repository \<Rightarrow> pool \<Rightarrow> stmt \<Rightarrow> bool" where
  "confidential r p (Insert_application v) = (p = Primary \<and>
     list_all (protected r) [v_name_enc v, v_phone_enc v, v_email_enc v, v_dob_enc v, v_address_enc v,
       v_education_enc v, v_gpa_enc v, v_photo_enc v] \<and>
     searchable r (v_phone_bidx v) \<and> searchable r (v_phone_dob_bidx v))"
| "confidential r p (Set_verify_code c i) = (p = Primary \<and> c = DocCode (signer r) docCodePrefix i)"
| "confidential r p (Fill_verify_code c i) = (p = Primary \<and> c = DocCode (signer r) docCodePrefix i)"
| "confidential r p (Select_admit_card b) = (p = Replica \<and> searchable r b)"
| "confidential r p (Select_by_code c) = (p = Replica)"
| "confidential r p (Insert_contact n e ph s m) = (p = Primary \<and> list_all (protected r) [n, e, ph, m])"
| "confidential r p (Insert_subscriber e b) = (p = Primary \<and> protected r e \<and> searchable r b)"

lemma is_enc_protected: "is_enc (cipher r) p e \<Longrightarrow> protected r e"
  unfolding is_enc_def protected_def by (elim exE Encrypt_cases) (auto simp: bytes_of_string_def)

lemma Hash_searchable: "searchable r (Hash (bidx r) v)"
  by (auto simp: searchable_def Hash_def)

lemma allowed_confidential: "allowed r p s \<Longrightarrow> confidential r p s"
  by (cases s) (auto simp: encodes_def encodes_contact_def lookup_key_def Hash_searchable intro: is_enc_protected)

lemma issues_confidential: "issues (allowed r) x \<Longrightarrow> issues (confidential r) x"
  by (erule issues_mono) (rule allowed_confidential)

text \<open>What a statement carries unprotected, beside ids and codes that are set.\<close>

fun in_plain :: "stmt \<Rightarrow> string list" where
  "in_plain (Insert_application v) = [v_gender v, v_passing_year v, v_computer_skill v, v_own_computer v,
     v_can_attend v, v_division v, v_district v, v_batch v]"
| "in_plain (Insert_contact n e ph s m) = [s]"
| "in_plain (Select_by_code c) = [c]"
| "in_plain _ = []"

lemma issues_conj: "issues g x \<Longrightarrow> issues h x \<Longrightarrow> issues (\<lambda>p s. g p s \<and> h p s) x"
  by (induction x) auto

lemma plain_create: "issues (\<lambda>p s. in_plain s \<in> {[], plain_texts r a}) (CreateApplication r a rnd)"
  by (rule create_cases [of r a rnd])
    (auto simp: encodes_def plain_texts_def create_reply_def split: reply.split db_error.split)

lemma plain_find: "issues (\<lambda>p s. in_plain s = []) (FindAdmitCard r lk)"
  by (simp add: FindAdmitCard_def card_reply_def Let_def split: reply.split)

lemma plain_verify: "issues (\<lambda>p s. in_plain s = [canonical_code c]) (FindByVerifyCode r c)"
  by (simp add: FindByVerifyCode_def canonical_code_def Let_def split: reply.split)

lemma plain_contact: "issues (\<lambda>p s. in_plain s = [ct_Subject m]) (CreateContact r m rnd)"
  unfolding CreateContact_def
  by (intro with_enc_cases [where P = "issues (\<lambda>p s. in_plain s = [ct_Subject m])"]) (auto split: reply.split)

lemma plain_subscribe: "issues (\<lambda>p s. in_plain s = []) (Subscribe r n rnd)"
  unfolding Subscribe_def
  by (intro with_enc_cases [where P = "issues (\<lambda>p s. in_plain s = [])"]) (auto split: reply.split)

text \<open>
  C15. Every statement that the five operations may send, whatever they are answered, writes to the
  primary or reads from the replica; name, phone, address, birth date, e-mail, education, grades,
  photo and message are in it only as ciphertext under the service's key, and what rows are found by, the phone, the phone
  with the date and the e-mail, only as keyed hash; the code that is set on a row is the code of its id. What is in
  plain beside the id is exactly this: the categorical answers, year, division, district and batch of an application, the
  subject of a message, and the code that is asked for.
\<close>

theorem repository_statements:
  "issues (\<lambda>p s. confidential r p s \<and> in_plain s \<in> {[], plain_texts r a}) (CreateApplication r a rnd) \<and>
   issues (\<lambda>p s. confidential r p s \<and> in_plain s = []) (FindAdmitCard r lk) \<and>
   issues (\<lambda>p s. confidential r p s \<and> in_plain s = [canonical_code c]) (FindByVerifyCode r c) \<and>
   issues (\<lambda>p s. confidential r p s \<and> in_plain s = [ct_Subject m]) (CreateContact r m rnd) \<and>
   issues (\<lambda>p s. confidential r p s \<and> in_plain s = []) (Subscribe r n rnd)"
  by (intro conjI issues_conj issues_confidential repository_allowed plain_create plain_find plain_verify
      plain_contact plain_subscribe)

text \<open>
  The invariant of the stored data: unique indexes hold, every application row encodes some
  application, every code is empty or the code of its row, messages and subscribers are encrypted.
  Each operation keeps it on both pools, for every behaviour of the network and the database.
\<close>

theorem repository_preserves_store:
  assumes "both (store_ok r) d"
  shows "both (store_ok r) (snd (exec (CreateApplication r a rnd) es d)) \<and>
    both (store_ok r) (snd (exec (FindAdmitCard r lk) es d)) \<and>
    both (store_ok r) (snd (exec (FindByVerifyCode r c) es d)) \<and>
    both (store_ok r) (snd (exec (CreateContact r m rnd) es d)) \<and>
    both (store_ok r) (snd (exec (Subscribe r n rnd) es d))"
  unfolding exec_def by (intro conjI repo_store.run_keeps [OF assms] repository_allowed)

lemma empty_store_ok: "both (store_ok r) empty_db"
  by (simp add: both_def store_ok_def schema_ok_def empty_db_def)

theorem repository_preserves_store_witness: "both (store_ok sample_repo) sample_created"
  using repository_preserves_store [OF empty_store_ok, of sample_repo sample_application sample_entropy sample_env]
  by (simp add: sample_created_def)

lemma text_Hash_enc: "is_enc c p e \<Longrightarrow> list_all text_ok [e, Hash b x]"
  by (simp add: is_enc_text Hash_text)

lemma subscribe_cases:
  obtains (failed) err where "Subscribe r n rnd = Done (Inl (CryptoError err))"
  | (insert) e k where "is_enc (cipher r) (nl_Email n) e"
      "Subscribe r n rnd = Query Primary (Insert_subscriber e (Hash (bidx r) (nl_Email n))) k"
      "k = (\<lambda>reply. case reply of Failed _ \<Rightarrow> Done (Inl (Wrapped ''insert subscriber'' reply)) | _ \<Rightarrow> Done (Inr ()))"
proof -
  let ?k = "\<lambda>reply. case reply of Failed _ \<Rightarrow> Done (Inl (Wrapped ''insert subscriber'' reply)) | _ \<Rightarrow> Done (Inr ())"
  let ?P = "\<lambda>x. (\<exists>err. x = Done (Inl (CryptoError err))) \<or> (\<exists>e. is_enc (cipher r) (nl_Email n) e \<and>
    x = Query Primary (Insert_subscriber e (Hash (bidx r) (nl_Email n))) ?k)"
  have "?P (Subscribe r n rnd)"
    unfolding Subscribe_def by (intro with_enc_cases [where P = ?P]) auto
  then show thesis using failed insert by blast
qed

lemma query_subscriber_known:
  assumes "is_enc c p e" "h = Hash b x" "h \<in> ns_EmailBIdx ` set (newsletter_subscribers (primary_tables d))"
  shows "query env Primary (Insert_subscriber e h) d =
    (if delivery env = Up then Executed else Failed ConnError, d)"
  using assms text_Hash_enc [OF assms(1), of b x]
  by (cases "delivery env"; cases d)
    (simp_all add: query_def exec_stmt_def insert_subscriber_def Let_def)

lemma query_subscriber_done:
  assumes "query env Primary (Insert_subscriber e h) d = (Executed, d')"
  shows "h \<in> ns_EmailBIdx ` set (newsletter_subscribers (primary_tables d'))"
  using assms by (auto simp: query_def exec_stmt_def insert_subscriber_def Let_def
      split: delivery.splits if_splits)

lemma query_subscriber_reply: "fst (query env Primary (Insert_subscriber e h) d) \<in> range Failed \<union> {Executed}"
  by (auto simp: query_def exec_stmt_def insert_subscriber_def Let_def split: delivery.splits)

text \<open>
  C38. Subscribing is idempotent: after a successful subscription, subscribing with an address that
  normalizes alike changes nothing, and succeeds when the database answers.
\<close>

theorem Subscribe_idempotent:
  assumes "exec (Subscribe r n rnd) es d = (Inr (), d1)"
    "normalize (nl_Email n') = normalize (nl_Email n)"
  shows "snd (exec (Subscribe r n' rnd') es' d1) = d1 \<and>
    (repo_keyed r \<longrightarrow> 12 \<le> length rnd' \<longrightarrow> delivery (es' 0) = Up \<longrightarrow>
       fst (exec (Subscribe r n' rnd') es' d1) = Inr ())"
proof -
  let ?h = "Hash (bidx r) (nl_Email n')"
  have same: "?h = Hash (bidx r) (nl_Email n)" using assms(2) by (rule hmac_index.hash_norm)
  have known: "?h \<in> ns_EmailBIdx ` set (newsletter_subscribers (primary_tables d1))"
  proof (cases rule: subscribe_cases [of r n rnd])
    case (insert e k)
    obtain rep d' where q: "query (es 0) Primary (Insert_subscriber e ?h) d = (rep, d')" by fastforce
    then have "rep = Executed" "d' = d1"
      using assms(1) query_subscriber_reply [of "es 0" e ?h d] insert(2,3) same by (auto simp: sql)
    then show ?thesis using query_subscriber_done q by blast
  qed (use assms(1) in \<open>simp add: sql\<close>)
  have "fst (exec (Subscribe r n' rnd') es' d1) = Inr ()"
    if "repo_keyed r" "12 \<le> length rnd'" "delivery (es' 0) = Up"
  proof -
    have "nonce_size (aead_of (cipher r)) + 0 \<le> length rnd'" using that repo_keyed(2) by simp
    then show ?thesis unfolding Subscribe_def
      by (rule with_enc_enough) (simp add: sql query_subscriber_known [OF _ refl known] that(3))
  qed
  moreover have "snd (exec (Subscribe r n' rnd') es' d1) = d1"
  proof (cases rule: subscribe_cases [of r n' rnd'])
    case (insert e k)
    then show ?thesis
      using query_subscriber_known [OF insert(1) refl known, of "es' 0"] by (simp add: sql split: if_split)
  qed (simp add: sql)
  ultimately show ?thesis by blast
qed

theorem Subscribe_idempotent_witness:
  "\<exists>d1. exec (Subscribe sample_repo \<lparr>nl_Email = ''a@b.c''\<rparr> sample_entropy) sample_env empty_db = (Inr (), d1) \<and>
     snd (exec (Subscribe sample_repo \<lparr>nl_Email = ''A@b.c ''\<rparr> sample_entropy) sample_env d1) = d1"
proof -
  let ?sub = "Subscribe sample_repo \<lparr>nl_Email = ''a@b.c''\<rparr> sample_entropy"
  have e: "nonce_size (aead_of (cipher sample_repo)) + 0 \<le> length sample_entropy"
    using repo_keyed(2) [OF sample_keyed] by (simp add: sample_entropy_def)
  have "fst (exec ?sub sample_env empty_db) = Inr ()"
    unfolding Subscribe_def
  proof (rule with_enc_enough [OF e])
    fix x assume x: "is_enc (cipher sample_repo) (nl_Email \<lparr>nl_Email = ''a@b.c''\<rparr>) x"
    have "fst (query (sample_env 0) Primary (Insert_subscriber x (Hash (bidx sample_repo) ''a@b.c'')) empty_db) = Executed"
      using text_Hash_enc [OF x] by (simp add: query_def exec_stmt_def insert_subscriber_def empty_db_def Let_def)
    then show "fst (exec (Query Primary (Insert_subscriber x (Hash (bidx sample_repo) (nl_Email \<lparr>nl_Email = ''a@b.c''\<rparr>)))
        (\<lambda>reply. case reply of Failed _ \<Rightarrow> Done (Inl (Wrapped ''insert subscriber'' reply)) | _ \<Rightarrow> Done (Inr ())))
        sample_env empty_db) = Inr ()"
      by (simp add: sql case_prod_beta)
  qed
  then obtain d1 where d1: "exec ?sub sample_env empty_db = (Inr (), d1)" by (metis prod.collapse)
  have "to_lower ''A@b.c '' = ''a@b.c ''" by (simp add: to_lower_Cons_ascii lower_char_def char_of_def bit_0)
  moreover have "to_lower ''a@b.c'' = ''a@b.c''" by (simp add: to_lower_Cons_ascii lower_char_def)
  moreover have "trim_space ([] @ ''a@b.c'' @ '' '') = ''a@b.c''"
    by (rule trim_space_blanks) (simp_all add: solid_code blank_def is_space_def)
  moreover have "trim_space ''a@b.c'' = ''a@b.c''" by (rule trim_space_solid) (simp_all add: solid_code)
  ultimately have "normalize ''A@b.c '' = normalize ''a@b.c''" by (simp add: normalize_def)
  then show ?thesis using Subscribe_idempotent [OF d1, of "\<lparr>nl_Email = ''A@b.c ''\<rparr>"] d1 by auto
qed

end
