(* ===== verification/Geo.thy ===== *)
theory Geo
  imports Go_Strings
begin

text \<open>
  The package \<open>internal/data\<close>: the tree of 8 divisions and 64 districts, the index of valid
  pairs that is built from it at start-up, and the check \<open>IsValidPair\<close>. Bengali labels are
  given by their code points and are UTF-8 encoded, as in the source file.
\<close>

section \<open>The tree\<close>

record District =
  BN :: string
  EN :: string

record Division =
  div_BN :: string
  div_EN :: string
  Districts :: "District list"

definition bengali :: "rune list \<Rightarrow> string" where
  "bengali rs = concat (map encode_rune rs)"

definition Divisions :: "Division list" where
  "Divisions = [
    \<lparr>div_BN = bengali [2466, 2494, 2453, 2494], div_EN = ''Dhaka'', Districts = [
      \<lparr>BN = bengali [2466, 2494, 2453, 2494],
        EN = ''Dhaka''\<rparr>,
      \<lparr>BN = bengali [2475, 2480, 2495, 2470, 2474, 2497, 2480],
        EN = ''Faridpur''\<rparr>,
      \<lparr>BN = bengali [2455, 2494, 2460, 2496, 2474, 2497, 2480],
        EN = ''Gazipur''\<rparr>,
      \<lparr>BN = bengali [2455, 2507, 2474, 2494, 2482, 2455, 2462, 2509, 2460],
        EN = ''Gopalganj''\<rparr>,
      \<lparr>BN = bengali [2453, 2495, 2486, 2507, 2480, 2455, 2462, 2509, 2460],
        EN = ''Kishoreganj''\<rparr>,
      \<lparr>BN = bengali [2478, 2494, 2470, 2494, 2480, 2496, 2474, 2497, 2480],
        EN = ''Madaripur''\<rparr>,
      \<lparr>BN = bengali [2478, 2494, 2472, 2495, 2453, 2455, 2462, 2509, 2460],
        EN = ''Manikganj''\<rparr>,
      \<lparr>BN = bengali [2478, 2497, 2472, 2509, 2486, 2495, 2455, 2462, 2509, 2460],
        EN = ''Munshiganj''\<rparr>,
      \<lparr>BN = bengali [2472, 2494, 2480, 2494, 2479, 2492, 2467, 2455, 2462, 2509, 2460],
        EN = ''Narayanganj''\<rparr>,
      \<lparr>BN = bengali [2472, 2480, 2488, 2495, 2434, 2470, 2496],
        EN = ''Narsingdi''\<rparr>,
      \<lparr>BN = bengali [2480, 2494, 2460, 2476, 2494, 2465, 2492, 2496],
        EN = ''Rajbari''\<rparr>,
      \<lparr>BN = bengali [2486, 2480, 2496, 2479, 2492, 2468, 2474, 2497, 2480],
        EN = ''Shariatpur''\<rparr>,
      \<lparr>BN = bengali [2463, 2494, 2457, 2509, 2455, 2494, 2439, 2482],
        EN = ''Tangail''\<rparr>]\<rparr>,
    \<lparr>div_BN = bengali [2458, 2463, 2509, 2463, 2455, 2509, 2480, 2494, 2478], div_EN = ''Chattogram'', Districts = [
      \<lparr>BN = bengali [2458, 2463, 2509, 2463, 2455, 2509, 2480, 2494, 2478],
        EN = ''Chattogram''\<rparr>,
      \<lparr>BN = bengali [2453, 2453, 2509, 2488, 2476, 2494, 2460, 2494, 2480],
        EN = ''Cox'' @ [CHR 0x27] @ ''s Bazar''\<rparr>,
      \<lparr>BN = bengali [2453, 2497, 2478, 2495, 2482, 2509, 2482, 2494],
        EN = ''Cumilla''\<rparr>,
      \<lparr>BN = bengali [2476, 2509, 2480, 2494, 2489, 2509, 2478, 2467, 2476, 2494, 2465, 2492, 2495, 2479, 2492, 2494],
        EN = ''Brahmanbaria''\<rparr>,
      \<lparr>BN = bengali [2458, 2494, 2433, 2470, 2474, 2497, 2480],
        EN = ''Chandpur''\<rparr>,
      \<lparr>BN = bengali [2475, 2503, 2472, 2496],
        EN = ''Feni''\<rparr>,
      \<lparr>BN = bengali [2454, 2494, 2455, 2465, 2492, 2494, 2459, 2465, 2492, 2495],
        EN = ''Khagrachhari''\<rparr>,
      \<lparr>BN = bengali [2482, 2453, 2509, 2487, 2509, 2478, 2496, 2474, 2497, 2480],
        EN = ''Lakshmipur''\<rparr>,
      \<lparr>BN = bengali [2472, 2507, 2479, 2492, 2494, 2454, 2494, 2482, 2496],
        EN = ''Noakhali''\<rparr>,
      \<lparr>BN = bengali [2480, 2494, 2457, 2509, 2455, 2494, 2478, 2494, 2463, 2495],
        EN = ''Rangamati''\<rparr>,
      \<lparr>BN = bengali [2476, 2494, 2472, 2509, 2470, 2480, 2476, 2494, 2472],
        EN = ''Bandarban''\<rparr>]\<rparr>,
    \<lparr>div_BN = bengali [2480, 2494, 2460, 2486, 2494, 2489, 2496], div_EN = ''Rajshahi'', Districts = [
      \<lparr>BN = bengali [2480, 2494, 2460, 2486, 2494, 2489, 2496],
        EN = ''Rajshahi''\<rparr>,
      \<lparr>BN = bengali [2476, 2455, 2497, 2465, 2492, 2494],
        EN = ''Bogura''\<rparr>,
      \<lparr>BN = bengali [2460, 2479, 2492, 2474, 2497, 2480, 2489, 2494, 2463],
        EN = ''Joypurhat''\<rparr>,
      \<lparr>BN = bengali [2472, 2451, 2455, 2494, 2433],
        EN = ''Naogaon''\<rparr>,
      \<lparr>BN = bengali [2472, 2494, 2463, 2507, 2480],
        EN = ''Natore''\<rparr>,
      \<lparr>BN = bengali [2458, 2494, 2433, 2474, 2494, 2439, 2472, 2476, 2494, 2476, 2455, 2462, 2509, 2460],
        EN = ''Chapainawabganj''\<rparr>,
      \<lparr>BN = bengali [2474, 2494, 2476, 2472, 2494],
        EN = ''Pabna''\<rparr>,
      \<lparr>BN = bengali [2488, 2495, 2480, 2494, 2460, 2455, 2462, 2509, 2460],
        EN = ''Sirajganj''\<rparr>]\<rparr>,
    \<lparr>div_BN = bengali [2454, 2497, 2482, 2472, 2494], div_EN = ''Khulna'', Districts = [
      \<lparr>BN = bengali [2454, 2497, 2482, 2472, 2494],
        EN = ''Khulna''\<rparr>,
      \<lparr>BN = bengali [2476, 2494, 2455, 2503, 2480, 2489, 2494, 2463],
        EN = ''Bagerhat''\<rparr>,
      \<lparr>BN = bengali [2458, 2497, 2479, 2492, 2494, 2465, 2494, 2457, 2509, 2455, 2494],
        EN = ''Chuadanga''\<rparr>,
      \<lparr>BN = bengali [2479, 2486, 2507, 2480],
        EN = ''Jashore''\<rparr>,
      \<lparr>BN = bengali [2461, 2495, 2472, 2494, 2439, 2470, 2489],
        EN = ''Jhenaidah''\<rparr>,
      \<lparr>BN = bengali [2453, 2497, 2487, 2509, 2463, 2495, 2479, 2492, 2494],
        EN = ''Kushtia''\<rparr>,
      \<lparr>BN = bengali [2478, 2494, 2455, 2497, 2480, 2494],
        EN = ''Magura''\<rparr>,
      \<lparr>BN = bengali [2478, 2503, 2489, 2503, 2480, 2474, 2497, 2480],
        EN = ''Meherpur''\<rparr>,
      \<lparr>BN = bengali [2472, 2465, 2492, 2494, 2439, 2482],
        EN = ''Narail''\<rparr>,
      \<lparr>BN = bengali [2488, 2494, 2468, 2453, 2509, 2487, 2496, 2480, 2494],
        EN = ''Satkhira''\<rparr>]\<rparr>,
    \<lparr>div_BN = bengali [2476, 2480, 2495, 2486, 2494, 2482], div_EN = ''Barishal'', Districts = [
      \<lparr>BN = bengali [2476, 2480, 2495, 2486, 2494, 2482],
        EN = ''Barishal''\<rparr>,
      \<lparr>BN = bengali [2476, 2480, 2455, 2497, 2472, 2494],
        EN = ''Barguna''\<rparr>,
      \<lparr>BN = bengali [2477, 2507, 2482, 2494],
        EN = ''Bhola''\<rparr>,
      \<lparr>BN = bengali [2461, 2494, 2482, 2453, 2494, 2464, 2495],
        EN = ''Jhalokati''\<rparr>,
      \<lparr>BN = bengali [2474, 2463, 2497, 2479, 2492, 2494, 2454, 2494, 2482, 2496],
        EN = ''Patuakhali''\<rparr>,
      \<lparr>BN = bengali [2474, 2495, 2480, 2507, 2460, 2474, 2497, 2480],
        EN = ''Pirojpur''\<rparr>]\<rparr>,
    \<lparr>div_BN = bengali [2488, 2495, 2482, 2503, 2463], div_EN = ''Sylhet'', Districts = [
      \<lparr>BN = bengali [2488, 2495, 2482, 2503, 2463],
        EN = ''Sylhet''\<rparr>,
      \<lparr>BN = bengali [2489, 2476, 2495, 2455, 2462, 2509, 2460],
        EN = ''Habiganj''\<rparr>,
      \<lparr>BN = bengali [2478, 2508, 2482, 2477, 2496, 2476, 2494, 2460, 2494, 2480],
        EN = ''Moulvibazar''\<rparr>,
      \<lparr>BN = bengali [2488, 2497, 2472, 2494, 2478, 2455, 2462, 2509, 2460],
        EN = ''Sunamganj''\<rparr>]\<rparr>,
    \<lparr>div_BN = bengali [2480, 2434, 2474, 2497, 2480], div_EN = ''Rangpur'', Districts = [
      \<lparr>BN = bengali [2480, 2434, 2474, 2497, 2480],
        EN = ''Rangpur''\<rparr>,
      \<lparr>BN = bengali [2470, 2495, 2472, 2494, 2460, 2474, 2497, 2480],
        EN = ''Dinajpur''\<rparr>,
      \<lparr>BN = bengali [2455, 2494, 2439, 2476, 2494, 2472, 2509, 2471, 2494],
        EN = ''Gaibandha''\<rparr>,
      \<lparr>BN = bengali [2453, 2497, 2465, 2492, 2495, 2455, 2509, 2480, 2494, 2478],
        EN = ''Kurigram''\<rparr>,
      \<lparr>BN = bengali [2482, 2494, 2482, 2478, 2472, 2495, 2480, 2489, 2494, 2463],
        EN = ''Lalmonirhat''\<rparr>,
      \<lparr>BN = bengali [2472, 2496, 2482, 2475, 2494, 2478, 2494, 2480, 2496],
        EN = ''Nilphamari''\<rparr>,
      \<lparr>BN = bengali [2474, 2462, 2509, 2458, 2455, 2465, 2492],
        EN = ''Panchagarh''\<rparr>,
      \<lparr>BN = bengali [2464, 2494, 2453, 2497, 2480, 2455, 2494, 2433, 2451],
        EN = ''Thakurgaon''\<rparr>]\<rparr>,
    \<lparr>div_BN = bengali [2478, 2479, 2492, 2478, 2472, 2488, 2495, 2434, 2489], div_EN = ''Mymensingh'', Districts = [
      \<lparr>BN = bengali [2478, 2479, 2492, 2478, 2472, 2488, 2495, 2434, 2489],
        EN = ''Mymensingh''\<rparr>,
      \<lparr>BN = bengali [2460, 2494, 2478, 2494, 2482, 2474, 2497, 2480],
        EN = ''Jamalpur''\<rparr>,
      \<lparr>BN = bengali [2472, 2503, 2468, 2509, 2480, 2453, 2507, 2467, 2494],
        EN = ''Netrokona''\<rparr>,
      \<lparr>BN = bengali [2486, 2503, 2480, 2474, 2497, 2480],
        EN = ''Sherpur''\<rparr>]\<rparr>]"

section \<open>The index of valid pairs\<close>

definition norm :: "string \<Rightarrow> string" where
  "norm s = to_lower (trim_space s)"

text \<open>
  The keys that the four nested loops of the initializer enter, in their order; the value of
  each is \<open>true\<close>, and a lookup of any other key gives \<open>false\<close>.
\<close>

definition pair_index :: "string list" where
  "pair_index =
     concat (map (\<lambda>dv.
       concat (map (\<lambda>ds.
         concat (map (\<lambda>dk.
           map (\<lambda>sk. dk @ ''|'' @ sk) [norm (BN ds), norm (EN ds)])
         [norm (div_BN dv), norm (div_EN dv)]))
       (Districts dv)))
     Divisions)"

definition IsValidPair :: "string \<Rightarrow> string \<Rightarrow> bool" where
  "IsValidPair division district \<longleftrightarrow> norm division @ ''|'' @ norm district \<in> set pair_index"

definition DistrictCount :: nat where
  "DistrictCount = foldl (\<lambda>n d. n + length (Districts d)) 0 Divisions"

section \<open>Bengali labels\<close>

definition bengali_rune :: "rune \<Rightarrow> bool" where
  "bengali_rune r \<longleftrightarrow> 2432 \<le> r \<and> r \<le> 2559"

lemma encode_bengali:
  assumes "bengali_rune r"
  shows "encode_rune r = [CHR 0xE0, char_of (128 + r div 64), char_of (128 + r mod 64)]"
    and "128 + r div 64 \<in> {166, 167}" and "r div 64 mod 64 = r div 64"
proof -
  have "r div 64 = 38 \<or> r div 64 = 39" "r div 4096 = 0" using assms by (auto simp: bengali_rune_def)
  moreover have "char_of (224 :: nat) = CHR 0xE0" by (simp add: char_of_eq_iff)
  ultimately show "encode_rune r = [CHR 0xE0, char_of (128 + r div 64), char_of (128 + r mod 64)]"
    "128 + r div 64 \<in> {166, 167}" "r div 64 mod 64 = r div 64"
    using assms by (auto simp: encode_rune_def bengali_rune_def Let_def)
qed

lemma decode_encode_bengali:
  assumes "bengali_rune r"
  shows "decode_rune (encode_rune r @ s) = (r, 3)"
proof -
  define b where "b = r mod 64"
  have b: "b < 64" "(128 + b) mod 64 = b"
    using mod_mult_self2 [of b 64 2] by (simp_all add: b_def add.commute)
  have "r div 64 = 38 \<or> r div 64 = 39" using assms by (auto simp: bengali_rune_def)
  then consider "r div 64 = 38" "r = 2432 + b" | "r div 64 = 39" "r = 2496 + b"
    using div_mult_mod_eq [of r 64] unfolding b_def [symmetric] by auto
  then show ?thesis
    unfolding encode_bengali(1) [OF assms] b_def [symmetric]
    by cases (use b in \<open>simp_all add: decode_rune.simps(2) second_ok_def is_cont_def\<close>)
qed

lemma runes_bengali: "\<forall>r \<in> set rs. bengali_rune r \<Longrightarrow> runes (bengali rs) = rs"
proof (induction rs)
  case (Cons r rs)
  then have dec: "decode_rune (encode_rune r @ bengali rs) = (r, 3)"
    by (simp add: decode_encode_bengali)
  have enc: "encode_rune r = [CHR 0xE0, char_of (128 + r div 64), char_of (128 + r mod 64)]"
    using Cons.prems by (simp add: encode_bengali)
  show ?case using Cons dec by (simp add: bengali_def enc)
qed (simp add: bengali_def)

lemma to_lower_bengali: "\<forall>r \<in> set rs. bengali_rune r \<Longrightarrow> to_lower (bengali rs) = bengali rs"
proof -
  assume b: "\<forall>r \<in> set rs. bengali_rune r"
  have "rune_to_lower r = r" if "r \<in> set rs" for r
  proof -
    have "2432 \<le> r" "r \<le> 2559" using b that by (auto simp: bengali_rune_def)
    then show ?thesis
      using case_map_avoids [OF lower_avoids_bengali, of r] by (simp add: rune_to_lower_def)
  qed
  then have "map (encode_rune \<circ> rune_to_lower) rs = map encode_rune rs" by simp
  then show ?thesis unfolding to_lower_def runes_bengali [OF b] by (simp only: bengali_def)
qed

lemma bengali_not_space: "bengali_rune r \<Longrightarrow> \<not> is_space r"
  by (auto simp: bengali_rune_def is_space_def)

lemma trim_space_bengali: "\<forall>r \<in> set rs. bengali_rune r \<Longrightarrow> trim_space (bengali rs) = bengali rs"
proof (cases rs rule: rev_cases)
  case (snoc us u)
  assume b: "\<forall>r \<in> set rs. bengali_rune r"
  obtain v vs where v: "rs = v # vs" using snoc by (metis append_is_Nil_conv list.exhaust not_Cons_self2)
  have "trim_left (bengali rs) = bengali rs"
    using b v by (intro trim_left_done) (simp add: bengali_def decode_encode_bengali bengali_not_space)
  moreover have "decode_last_rune (bengali rs) = (u, 3)"
  proof -
    have u: "bengali_rune u" using b snoc by simp
    let ?a = "char_of (128 + u div 64) :: char" and ?b = "char_of (128 + u mod 64) :: char"
    have s: "bengali rs = bengali us @ [CHR 0xE0, ?a, ?b]"
      using snoc encode_bengali(1) [OF u] by (simp add: bengali_def)
    have "u mod 64 < 64" by simp
    then have "code ?b = 128 + u mod 64" "code ?a \<in> {166, 167}"
      using encode_bengali(2) [OF u] by auto
    moreover from this have "snd (decode_rune [?a, ?b]) = 1"
      by (auto simp: decode_rune.simps(2))
    ultimately show ?thesis
      using decode_encode_bengali [OF u, of "[]"] encode_bengali(1) [OF u]
      by (simp add: s decode_last_rune_def suffix_rune_def)
  qed
  ultimately show ?thesis using b snoc
    by (simp add: trim_space_def trim_right_done bengali_not_space)
qed (simp add: bengali_def)

lemma norm_bengali: "\<forall>r \<in> set rs. bengali_rune r \<Longrightarrow> norm (bengali rs) = bengali rs"
  by (simp add: norm_def trim_space_bengali to_lower_bengali)

section \<open>Labels have no separator and no two of them meet\<close>

lemma set_trim_space: "set (trim_space s) \<subseteq> set s"
proof -
  have "set (trim_left s) \<subseteq> set s"
  proof (induction s rule: trim_left.induct)
    case (1 s)
    then show ?case
      by (cases "s \<noteq> [] \<and> is_space (fst (decode_rune s))")
        (auto simp: trim_left.simps [of s] dest: in_set_dropD)
  qed
  moreover have "set (trim_right s) \<subseteq> set s" for s
    using trim_right_prefix [of s] by (metis set_append Un_upper1)
  ultimately show ?thesis unfolding trim_space_def by blast
qed

definition bar :: char where
  "bar = CHR ''|''"

lemma lower_char_bar: "lower_char c = bar \<longleftrightarrow> c = bar"
  by (auto simp: lower_char_def bar_def char_of_eq_iff take_bit_nat_eq_self)

lemma norm_ascii_no_bar:
  assumes "ascii s" "bar \<notin> set s"
  shows "bar \<notin> set (norm s)"
proof -
  have "ascii (trim_space s)" "bar \<notin> set (trim_space s)"
    using assms set_trim_space [of s] by (auto simp: ascii_def)
  have "bar \<notin> lower_char ` set (trim_space s)"
  proof
    assume "bar \<in> lower_char ` set (trim_space s)"
    then obtain x where "bar = lower_char x" "x \<in> set (trim_space s)" by (rule imageE)
    then have "lower_char x = bar" by simp
    then show False using \<open>x \<in> set (trim_space s)\<close> \<open>bar \<notin> set (trim_space s)\<close> by (simp add: lower_char_bar)
  qed
  then show ?thesis using \<open>ascii (trim_space s)\<close> by (simp add: norm_def to_lower_ascii)
qed

lemma encode_bengali_not_ascii: "bengali_rune r \<Longrightarrow> c \<in> set (encode_rune r) \<Longrightarrow> 128 \<le> code c"
  using encode_bengali [of r] by auto

lemma bengali_no_bar: "\<forall>r \<in> set rs. bengali_rune r \<Longrightarrow> bar \<notin> set (bengali rs)"
  using encode_bengali_not_ascii by (fastforce simp: bengali_def bar_def)

text \<open>Every label is Bengali or ASCII, checked once over the table.\<close>

definition is_bengali_label :: "string \<Rightarrow> bool" where
  "is_bengali_label s \<longleftrightarrow> (\<exists>rs. s = bengali rs \<and> rs \<noteq> [] \<and> (\<forall>r \<in> set rs. bengali_rune r))"

definition is_english_label :: "string \<Rightarrow> bool" where
  "is_english_label s \<longleftrightarrow>
     s \<noteq> [] \<and> ascii s \<and> bar \<notin> set s \<and> solid (hd s) \<and> solid (last s)"

lemma bengali_labelI: "rs \<noteq> [] \<Longrightarrow> \<forall>r \<in> set rs. bengali_rune r \<Longrightarrow> is_bengali_label (bengali rs)"
  by (auto simp: is_bengali_label_def)

lemma label_no_bar: "is_bengali_label s \<or> is_english_label s \<Longrightarrow> bar \<notin> set (norm s)"
  by (auto simp: is_bengali_label_def is_english_label_def norm_bengali bengali_no_bar norm_ascii_no_bar)

lemma bengali_labels:
  "\<forall>dv \<in> set Divisions. is_bengali_label (div_BN dv) \<and> (\<forall>ds \<in> set (Districts dv). is_bengali_label (BN ds))"
  unfolding Divisions_def by (simp add: bengali_labelI bengali_rune_def)

lemma english_labels:
  "\<forall>dv \<in> set Divisions. is_english_label (div_EN dv) \<and> (\<forall>ds \<in> set (Districts dv). is_english_label (EN ds))"
  unfolding Divisions_def by (simp add: is_english_label_def bar_def solid_code)

lemma bar_split_unique:
  assumes "p @ bar # q = a @ bar # b" "bar \<notin> set a" "bar \<notin> set b"
  shows "p = a \<and> q = b"
proof -
  have "count_list (p @ bar # q) bar = 1" using assms by (simp add: count_list_0_iff)
  then have "bar \<notin> set p" by (simp add: count_list_0_iff)
  then show ?thesis using append_sep_eq [OF assms(1)] assms(2) by blast
qed

lemma pair_index_iff:
  "k \<in> set pair_index \<longleftrightarrow>
     (\<exists>dv \<in> set Divisions. \<exists>ds \<in> set (Districts dv).
        \<exists>dk \<in> {norm (div_BN dv), norm (div_EN dv)}. \<exists>sk \<in> {norm (BN ds), norm (EN ds)}. k = dk @ bar # sk)"
  by (auto simp: pair_index_def bar_def)

text \<open>No label, in either language, belongs to two districts.\<close>

lemma norm_english: "is_english_label s \<Longrightarrow> norm s = map lower_char s"
  by (simp add: is_english_label_def norm_def trim_space_solid to_lower_ascii)

lemma norm_BN: "is_bengali_label s \<Longrightarrow> norm s = s"
  by (auto simp: is_bengali_label_def norm_bengali)

lemma english_not_bengali:
  assumes "is_english_label s" "is_bengali_label t"
  shows "norm s \<noteq> norm t"
proof
  obtain r rs where t: "t = bengali (r # rs)" "bengali_rune r"
    using assms(2) by (auto simp: is_bengali_label_def neq_Nil_conv)
  assume "norm s = norm t"
  then have "map lower_char s = CHR 0xE0 # tl t"
    using norm_english [OF assms(1)] norm_BN [OF assms(2)] t
    by (simp add: bengali_def encode_bengali(1))
  then obtain c where "c \<in> set s" "lower_char c = CHR 0xE0" by (cases s) auto
  then show False using assms(1) code_lower_char [of c]
    by (auto simp: is_english_label_def ascii_def)
qed

lemma distinct_bengali_labels:
  "distinct (concat (map (\<lambda>dv. map (runes \<circ> BN) (Districts dv)) Divisions))"
  unfolding Divisions_def by (simp add: runes_bengali bengali_rune_def)

lemma distinct_english_labels:
  "distinct (concat (map (\<lambda>dv. map (map lower_char \<circ> EN) (Districts dv)) Divisions))"
  unfolding Divisions_def by (simp add: lower_char_def)

lemma distinct_concat_same:
  "distinct (concat (map g xs)) \<Longrightarrow> x \<in> set xs \<Longrightarrow> y \<in> set xs \<Longrightarrow>
     a \<in> set (g x) \<Longrightarrow> a \<in> set (g y) \<Longrightarrow> x = y"
  by (induction xs) auto

lemma image_mem: "x \<in> set xs \<Longrightarrow> f x = y \<Longrightarrow> y \<in> set (map f xs)"
  by auto

lemma label_same_division:
  assumes "dv \<in> set Divisions" "dw \<in> set Divisions" "ds \<in> set (Districts dv)" "dt \<in> set (Districts dw)"
    "l \<in> {norm (BN ds), norm (EN ds)}" "l \<in> {norm (BN dt), norm (EN dt)}"
  shows "dv = dw"
proof -
  have lab: "is_bengali_label (BN ds)" "is_bengali_label (BN dt)"
    "is_english_label (EN ds)" "is_english_label (EN dt)"
    using assms bengali_labels english_labels by blast+
  then consider "norm (BN ds) = norm (BN dt)" | "norm (EN ds) = norm (EN dt)"
    using assms(5,6) english_not_bengali by fastforce
  then show ?thesis
  proof cases
    case 1
    then have "runes (BN ds) = runes (BN dt)" using lab by (simp add: norm_BN)
    then have "runes (BN ds) \<in> set (map (runes \<circ> BN) (Districts dv))"
      "runes (BN ds) \<in> set (map (runes \<circ> BN) (Districts dw))"
      using assms(3,4) by (auto intro!: image_mem simp del: set_map)
    then show ?thesis by (rule distinct_concat_same [OF distinct_bengali_labels assms(1,2)])
  next
    case 2
    then have "map lower_char (EN ds) = map lower_char (EN dt)" using lab by (simp add: norm_english)
    then have "map lower_char (EN ds) \<in> set (map (map lower_char \<circ> EN) (Districts dv))"
      "map lower_char (EN ds) \<in> set (map (map lower_char \<circ> EN) (Districts dw))"
      using assms(3,4) by (auto intro!: image_mem simp del: set_map)
    then show ?thesis by (rule distinct_concat_same [OF distinct_english_labels assms(1,2)])
  qed
qed

lemma valid_pair_iff:
  "IsValidPair division district \<longleftrightarrow>
     (\<exists>dv \<in> set Divisions. norm division \<in> {norm (div_BN dv), norm (div_EN dv)} \<and>
        (\<exists>ds \<in> set (Districts dv). norm district \<in> {norm (BN ds), norm (EN ds)}))"
    (is "_ \<longleftrightarrow> ?R")
proof
  assume "IsValidPair division district"
  then obtain dv ds dk sk where m: "dv \<in> set Divisions" "ds \<in> set (Districts dv)"
    "dk \<in> {norm (div_BN dv), norm (div_EN dv)}" "sk \<in> {norm (BN ds), norm (EN ds)}"
    and k: "norm division @ bar # norm district = dk @ bar # sk"
    unfolding IsValidPair_def pair_index_iff bar_def by auto
  have "bar \<notin> set dk" "bar \<notin> set sk"
    using m bengali_labels english_labels label_no_bar by blast+
  then have "norm division = dk" "norm district = sk" using bar_split_unique [OF k] by auto
  then show ?R using m by blast
next
  assume ?R
  then show "IsValidPair division district"
    unfolding IsValidPair_def pair_index_iff bar_def append_Cons append_Nil by blast
qed

section \<open>Properties\<close>

text \<open>
  C27. \<open>IsValidPair\<close> accepts exactly the pairs of the tree: the division is, up to case and
  surrounding white space, one of the two labels of a division, and the district one of the two
  labels of a district of that same division. The separator of the index keys cannot be abused
  by an input that contains it.
\<close>

theorem IsValidPair_iff:
  "IsValidPair division district \<longleftrightarrow>
     (\<exists>dv \<in> set Divisions. norm division \<in> {norm (div_BN dv), norm (div_EN dv)} \<and>
        (\<exists>ds \<in> set (Districts dv). norm district \<in> {norm (BN ds), norm (EN ds)}))"
  by (rule valid_pair_iff)

text \<open>
  A district is accepted under one division only: two divisions that \<open>IsValidPair\<close> accepts
  with the same district are labels of one entry of the tree.
\<close>

theorem IsValidPair_one_division:
  assumes "IsValidPair d1 district" "IsValidPair d2 district"
  shows "\<exists>dv \<in> set Divisions. {norm d1, norm d2} \<subseteq> {norm (div_BN dv), norm (div_EN dv)}"
  using assms label_same_division unfolding valid_pair_iff by blast

lemma IsValidPair_tree:
  "dv \<in> set Divisions \<Longrightarrow> ds \<in> set (Districts dv) \<Longrightarrow> d \<in> {div_BN dv, div_EN dv} \<Longrightarrow>
     s \<in> {BN ds, EN ds} \<Longrightarrow> IsValidPair d s"
  unfolding valid_pair_iff by blast

lemma Dhaka_Gazipur: "IsValidPair ''Dhaka'' ''Gazipur''" "IsValidPair (bengali [2466, 2494, 2453, 2494]) ''Gazipur''"
  unfolding valid_pair_iff by (simp_all add: Divisions_def)

theorem IsValidPair_one_division_witness:
  "\<exists>dv \<in> set Divisions. {norm ''Dhaka'', norm (bengali [2466, 2494, 2453, 2494])} \<subseteq>
     {norm (div_BN dv), norm (div_EN dv)}"
  by (rule IsValidPair_one_division [OF Dhaka_Gazipur])

text \<open>
  The tree has 8 divisions and 64 districts, every label is non-empty, and every pair of the
  tree is valid in each of the four mixtures of languages.
\<close>

theorem geo_tree_complete:
  "length Divisions = 8 \<and> DistrictCount = 64 \<and>
   (\<forall>dv \<in> set Divisions. \<forall>ds \<in> set (Districts dv). \<forall>d \<in> {div_BN dv, div_EN dv}.
      \<forall>s \<in> {BN ds, EN ds}. IsValidPair d s \<and> d \<noteq> [] \<and> s \<noteq> [])"
proof -
  have label: "\<not> is_bengali_label []" "\<not> is_english_label []"
    using encode_bengali by (auto simp: is_bengali_label_def is_english_label_def bengali_def neq_Nil_conv)
  have "length Divisions = 8" by (simp add: Divisions_def)
  moreover have "DistrictCount = 64"
    by (simp only: DistrictCount_def Divisions_def foldl.simps Division.select_convs list.size)
  moreover have "IsValidPair d s \<and> d \<noteq> [] \<and> s \<noteq> []"
    if m: "dv \<in> set Divisions" "ds \<in> set (Districts dv)" "d \<in> {div_BN dv, div_EN dv}"
      "s \<in> {BN ds, EN ds}" for dv ds d s
  proof -
    have "is_bengali_label d \<or> is_english_label d" "is_bengali_label s \<or> is_english_label s"
      using m(2,3,4) bengali_labels [rule_format, OF m(1)] english_labels [rule_format, OF m(1)] by auto
    then have "d \<noteq> []" "s \<noteq> []" using label by auto
    then show ?thesis using IsValidPair_tree [OF m] by simp
  qed
  ultimately show ?thesis by metis
qed

theorem geo_tree_complete_witness:
  "IsValidPair (div_BN (hd Divisions)) (EN (hd (Districts (hd Divisions))))"
proof -
  have "hd Divisions \<in> set Divisions" "hd (Districts (hd Divisions)) \<in> set (Districts (hd Divisions))"
    by (simp_all add: Divisions_def)
  then show ?thesis using geo_tree_complete by (simp add: Ball_def del: insert_iff) (metis insertCI)
qed

end
