(* ===== verification/Go_Url.thy ===== *)
theory Go_Url
  imports Go_Strings Go_Encoding
begin

text \<open>
  \<open>url.Values.Encode\<close> of Go's \<open>net/url\<close>: form fields are percent-encoded and joined in the order of
  their keys. \<open>parse_query\<close> is what the receiver of a form does; it undoes the encoding whatever
  bytes the fields contain, so a value cannot introduce another field.
\<close>

section \<open>Escaping\<close>

definition unreserved :: "char \<Rightarrow> bool" where
  "unreserved c \<longleftrightarrow> (65 \<le> code c \<and> code c \<le> 90) \<or> (97 \<le> code c \<and> code c \<le> 122) \<or>
     (48 \<le> code c \<and> code c \<le> 57) \<or> c \<in> {CHR ''-'', CHR ''_'', CHR ''.'', CHR ''~''}"

definition upper_hex :: "nat \<Rightarrow> char" where
  "upper_hex n = ''0123456789ABCDEF'' ! n"

definition escape_char :: "char \<Rightarrow> string" where
  "escape_char c =
     (if unreserved c then [c]
      else if c = CHR '' '' then ''+''
      else [CHR ''%'', upper_hex (code c div 16), upper_hex (code c mod 16)])"

definition query_escape :: "string \<Rightarrow> string" where
  "query_escape s = concat (map escape_char s)"

text \<open>Fields with distinct keys, in the order of the keys.\<close>

definition form_pair :: "string \<times> string \<Rightarrow> string" where
  "form_pair kv = query_escape (fst kv) @ ''='' @ query_escape (snd kv)"

fun form_encode :: "(string \<times> string) list \<Rightarrow> string" where
  "form_encode [] = []"
| "form_encode [kv] = form_pair kv"
| "form_encode (kv # kvs) = form_pair kv @ ''&'' @ form_encode kvs"

section \<open>Parsing\<close>

definition unhex :: "char \<Rightarrow> nat option" where
  "unhex c =
     (if 48 \<le> code c \<and> code c \<le> 57 then Some (code c - 48)
      else if 65 \<le> code c \<and> code c \<le> 70 then Some (code c - 55)
      else if 97 \<le> code c \<and> code c \<le> 102 then Some (code c - 87)
      else None)"

fun query_unescape :: "string \<Rightarrow> string option" where
  "query_unescape [] = Some []"
| "query_unescape (c # s) =
     (if c = CHR ''+'' then map_option ((#) (CHR '' '')) (query_unescape s)
      else if c = CHR ''%'' then
        (case s of
           h # l # t \<Rightarrow>
             (case (unhex h, unhex l) of
                (Some x, Some y) \<Rightarrow> map_option ((#) (char_of (16 * x + y))) (query_unescape t)
              | _ \<Rightarrow> None)
         | _ \<Rightarrow> None)
      else map_option ((#) c) (query_unescape s))"

fun cut :: "char \<Rightarrow> string \<Rightarrow> string \<times> string" where
  "cut sep [] = ([], [])"
| "cut sep (c # s) = (if c = sep then ([], s) else (case cut sep s of (a, b) \<Rightarrow> (c # a, b)))"

definition parse_pair :: "string \<Rightarrow> (string \<times> string) option" where
  "parse_pair s =
     (case cut (CHR ''='') s of (k, v) \<Rightarrow>
        (case (query_unescape k, query_unescape v) of
           (Some k', Some v') \<Rightarrow> Some (k', v')
         | _ \<Rightarrow> None))"

fun parse_all :: "string list \<Rightarrow> (string \<times> string) list option" where
  "parse_all [] = Some []"
| "parse_all (s # ss) =
     (case (parse_pair s, parse_all ss) of (Some kv, Some kvs) \<Rightarrow> Some (kv # kvs) | _ \<Rightarrow> None)"

definition parse_query :: "string \<Rightarrow> (string \<times> string) list option" where
  "parse_query s = parse_all (split (CHR ''&'') s)"

section \<open>The round trip\<close>

lemma upper_hex_in: "n < 16 \<Longrightarrow> upper_hex n \<in> set ''0123456789ABCDEF''"
  unfolding upper_hex_def by (intro nth_mem) simp

lemma unhex_upper [simp]: "n < 16 \<Longrightarrow> unhex (upper_hex n) = Some n"
proof -
  assume "n < 16"
  then have "n \<in> {0, 1, 2, 3, 4, 5, 6, 7, 8, 9, 10, 11, 12, 13, 14, 15}" by simp presburger
  then show ?thesis by (auto simp: upper_hex_def unhex_def)
qed

lemma unreserved_plain:
  "unreserved c \<Longrightarrow> c \<noteq> CHR ''+'' \<and> c \<noteq> CHR ''%'' \<and> c \<noteq> CHR ''&'' \<and> c \<noteq> CHR ''=''"
  by (auto simp: unreserved_def)

lemma query_unescape_char:
  "query_unescape (escape_char c @ s) = map_option ((#) c) (query_unescape s)"
proof -
  have "code c < 256" by simp
  then have "code c div 16 < 16" "code c mod 16 < 16" by (simp_all add: less_mult_imp_div_less)
  moreover have "16 * (code c div 16) + code c mod 16 = code c" by simp
  ultimately show ?thesis
    using unreserved_plain [of c] by (simp add: escape_char_def del: mult_div_mod_eq)
qed

lemma query_unescape_escape: "query_unescape (query_escape s) = Some s"
  by (induction s) (simp_all add: query_escape_def query_unescape_char)

lemma upper_hex_safe: "n < 16 \<Longrightarrow> upper_hex n \<noteq> CHR ''&'' \<and> upper_hex n \<noteq> CHR ''=''"
  using upper_hex_in [of n] by auto

lemma escape_char_safe: "x \<in> set (escape_char c) \<Longrightarrow> x \<noteq> CHR ''&'' \<and> x \<noteq> CHR ''=''"
proof (cases "unreserved c")
  case True
  then show "x \<in> set (escape_char c) \<Longrightarrow> x \<noteq> CHR ''&'' \<and> x \<noteq> CHR ''=''"
    using unreserved_plain [of c] by (simp add: escape_char_def)
next
  case False
  assume "x \<in> set (escape_char c)"
  then have "x \<in> {CHR ''+'', CHR ''%'', upper_hex (code c div 16), upper_hex (code c mod 16)}"
    using False by (auto simp: escape_char_def split: if_splits)
  moreover have "code c div 16 < 16" "code c mod 16 < 16" by (simp_all add: less_mult_imp_div_less)
  ultimately show "x \<noteq> CHR ''&'' \<and> x \<noteq> CHR ''=''" using upper_hex_safe by auto
qed

lemma query_escape_safe: "CHR ''&'' \<notin> set (query_escape s)" "CHR ''='' \<notin> set (query_escape s)"
  using escape_char_safe by (auto simp: query_escape_def)

lemma cut_sep: "sep \<notin> set a \<Longrightarrow> cut sep (a @ sep # b) = (a, b)"
  by (induction a) auto

lemma parse_form_pair: "parse_pair (form_pair kv) = Some kv"
  using cut_sep [OF query_escape_safe(2)]
  by (simp add: parse_pair_def form_pair_def query_unescape_escape)

lemma form_pair_safe: "CHR ''&'' \<notin> set (form_pair kv)"
  by (simp add: form_pair_def query_escape_safe)

lemma split_none: "sep \<notin> set s \<Longrightarrow> split sep s = [s]"
  by (induction s) auto

lemma split_sep: "sep \<notin> set s \<Longrightarrow> split sep (s @ sep # t) = s # split sep t"
  by (induction s) auto

lemma split_form: "kvs \<noteq> [] \<Longrightarrow> split (CHR ''&'') (form_encode kvs) = map form_pair kvs"
  by (induction kvs rule: form_encode.induct) (simp_all add: form_pair_safe split_none split_sep)

lemma parse_all_pairs: "parse_all (map form_pair kvs) = Some kvs"
  by (induction kvs) (simp_all add: parse_form_pair)

lemma parse_form_encode: "kvs \<noteq> [] \<Longrightarrow> parse_query (form_encode kvs) = Some kvs"
  by (simp add: parse_query_def split_form parse_all_pairs)

end
