(* ===== verification/Turnstile.thy ===== *)
theory Turnstile
  imports Go_Url
begin

text \<open>
  The package \<open>internal/turnstile\<close>: bot verification of a form by Cloudflare. The service behind
  the request, with the network and the decoding of its JSON answer, is the parameter
  \<open>siteverify\<close>: it maps the request to no usable answer (\<open>client.Do\<close> or the decoder fails) or to
  the decoded answer.
\<close>

definition verifyURL :: string where
  "verifyURL = ''https://challenges.cloudflare.com/turnstile/v0/siteverify''"

record Verifier =
  secret :: string
  enabled :: bool

definition NewVerifier :: "string \<Rightarrow> bool \<Rightarrow> Verifier" where
  "NewVerifier s e = \<lparr>secret = s, enabled = e\<rparr>"

record siteVerifyResp =
  Success :: bool
  ErrorCodes :: "string list"

record http_request =
  req_method :: string
  req_url :: string
  req_content_type :: string
  req_body :: string

datatype verify_error =
    ErrFailed
  | NoAnswer string

type_synonym siteverify = "http_request \<Rightarrow> string + siteVerifyResp"

text \<open>\<open>Encode\<close> sorts by key, and \<open>remoteip\<close>, \<open>response\<close>, \<open>secret\<close> are in that order.\<close>

definition verify_form :: "Verifier \<Rightarrow> string \<Rightarrow> string \<Rightarrow> (string \<times> string) list" where
  "verify_form v token remoteIP =
     (if remoteIP \<noteq> [] then [(''remoteip'', remoteIP)] else []) @
     [(''response'', token), (''secret'', secret v)]"

definition verify_request :: "Verifier \<Rightarrow> string \<Rightarrow> string \<Rightarrow> http_request" where
  "verify_request v token remoteIP =
     \<lparr>req_method = ''POST'', req_url = verifyURL,
      req_content_type = ''application/x-www-form-urlencoded'',
      req_body = form_encode (verify_form v token remoteIP)\<rparr>"

definition Verify_token :: "siteverify \<Rightarrow> Verifier \<Rightarrow> string \<Rightarrow> string \<Rightarrow> verify_error + unit" where
  "Verify_token site v token remoteIP =
     (if \<not> enabled v then Inr ()
      else if trim_space token = [] then Inl ErrFailed
      else case site (verify_request v token remoteIP) of
          Inl err \<Rightarrow> Inl (NoAnswer err)
        | Inr out \<Rightarrow> if \<not> Success out then Inl ErrFailed else Inr ())"

section \<open>Properties\<close>

text \<open>
  C26. The check fails closed: it passes only when it is disabled, or when the token is not blank
  and Cloudflare answered the request for exactly this token with success. No answer, an answer
  that cannot be decoded and a negative answer all fail.
\<close>

theorem Verify_token_passes:
  "Verify_token site v token ip = Inr () \<longleftrightarrow>
     (if enabled v
      then trim_space token \<noteq> [] \<and> (\<exists>out. site (verify_request v token ip) = Inr out \<and> Success out)
      else True)"
  by (auto simp: Verify_token_def split: sum.split)

text \<open>
  C35. The request carries exactly the secret, the token and the address: the form parses back to
  them whatever bytes a client puts into the token, so a token cannot add or replace a field.
\<close>

theorem verify_request_fields:
  "parse_query (req_body (verify_request v token ip)) = Some (verify_form v token ip)"
  by (simp add: verify_request_def parse_form_encode verify_form_def)

end
