(* ===== verification/Handlers.thy ===== *)
theory Handlers
  imports Repository_Spec Geo Turnstile
begin

text \<open>
  The package \<open>internal/handlers\<close>: the HTTP handlers of the public API and the health probes. A
  handler maps a request to a program over the database whose result is the response. Of a request
  it sees what the Go handler reads: the parsed body (\<open>None\<close> when \<open>BodyParser\<close> fails), the token
  header and the client address. Log lines are not modelled.
\<close>

section \<open>Requests and responses\<close>

record 'a request =
  parsed_body :: "'a option"
  token_header :: string
  client_ip :: string

record response =
  status :: nat
  body :: json

record Handler =
  repo :: Repository
  validator :: Validator
  turnstile :: Verifier

definition NewHandler :: "Repository \<Rightarrow> Validator \<Rightarrow> Verifier \<Rightarrow> Handler" where
  "NewHandler r v ts = \<lparr>repo = r, validator = v, turnstile = ts\<rparr>"

definition turnstileToken :: "'a request \<Rightarrow> string" where
  "turnstileToken c = (if token_header c \<noteq> [] then token_header c else [])"

definition badRequest :: "string \<Rightarrow> response" where
  "badRequest msg =
     \<lparr>status = 400, body = JObject [(''error'', JString ''bad_request''), (''message'', JString msg)]\<rparr>"

definition validationFailed :: "field_messages \<Rightarrow> response" where
  "validationFailed errs =
     \<lparr>status = 422, body = JObject [(''error'', JString ''validation_failed''), (''fields'', JMap errs)]\<rparr>"

definition internalError :: response where
  "internalError =
     \<lparr>status = 500, body = JObject [(''error'', JString ''internal_error''),
       (''message'', JString ''Something went wrong. Please try again.'')]\<rparr>"

definition botCheckFailed :: response where
  "botCheckFailed =
     \<lparr>status = 403, body = JObject [(''error'', JString ''bot_check_failed''),
       (''message'', JString ''Verification failed. Please retry.'')]\<rparr>"

section \<open>The public API\<close>

definition application_response :: "repo_error + string \<Rightarrow> response" where
  "application_response res =
     (case res of
        Inl ErrDuplicate \<Rightarrow>
          \<lparr>status = 409, body = JObject [(''error'', JString ''already_applied''),
            (''message'', JString ''An application with this phone number already exists.'')]\<rparr>
      | Inl err \<Rightarrow> internalError
      | Inr ident \<Rightarrow>
          \<lparr>status = 201, body = JObject [(''ok'', JBool True), (''applicationId'', JString ident),
            (''message'', JString ''Application received.'')]\<rparr>)"

definition HandleCreateApplication ::
    "siteverify \<Rightarrow> Handler \<Rightarrow> ApplicationInput request \<Rightarrow> entropy \<Rightarrow> response prog" where
  "HandleCreateApplication site h c rnd =
     (case parsed_body c of
        None \<Rightarrow> Done (badRequest ''malformed request body'')
      | Some a \<Rightarrow>
          (case Verify_token site (turnstile h) (turnstileToken c) (client_ip c) of
             Inl err \<Rightarrow> Done botCheckFailed
           | Inr _ \<Rightarrow>
               (case Struct (validator h) (ApplicationInput_fields a) of
                  Some fieldErrs \<Rightarrow> Done (validationFailed fieldErrs)
                | None \<Rightarrow>
                    if \<not> IsValidPair (in_Division a) (in_District a) then
                      Done (validationFailed
                        [''district'' \<mapsto> ''district does not belong to the selected division''])
                    else bind_prog (CreateApplication (repo h) a rnd) (\<lambda>res. Done (application_response res)))))"

definition lookup_response :: "repo_error + AdmitCardView \<Rightarrow> response" where
  "lookup_response res =
     (case res of
        Inl ErrNotFound \<Rightarrow>
          \<lparr>status = 404, body = JObject [(''error'', JString ''not_found''), (''message'',
            JString ''No matching application found. Check your phone number and date of birth.'')]\<rparr>
      | Inl err \<Rightarrow> internalError
      | Inr view \<Rightarrow>
          \<lparr>status = 200, body = JObject [(''ok'', JBool True), (''record'', AdmitCardView_json view)]\<rparr>)"

definition LookupAdmitCard :: "siteverify \<Rightarrow> Handler \<Rightarrow> AdmitCardLookup request \<Rightarrow> response prog" where
  "LookupAdmitCard site h c =
     (case parsed_body c of
        None \<Rightarrow> Done (badRequest ''malformed request body'')
      | Some a \<Rightarrow>
          (case Verify_token site (turnstile h) (turnstileToken c) (client_ip c) of
             Inl err \<Rightarrow> Done botCheckFailed
           | Inr _ \<Rightarrow>
               (case Struct (validator h) (AdmitCardLookup_fields a) of
                  Some fieldErrs \<Rightarrow> Done (validationFailed fieldErrs)
                | None \<Rightarrow> bind_prog (FindAdmitCard (repo h) a) (\<lambda>res. Done (lookup_response res)))))"

definition contact_response :: "repo_error + unit \<Rightarrow> response" where
  "contact_response res =
     (case res of
        Inl err \<Rightarrow> internalError
      | Inr _ \<Rightarrow>
          \<lparr>status = 201, body = JObject [(''ok'', JBool True), (''message'', JString ''Message received.'')]\<rparr>)"

definition HandleCreateContact ::
    "siteverify \<Rightarrow> Handler \<Rightarrow> ContactInput request \<Rightarrow> entropy \<Rightarrow> response prog" where
  "HandleCreateContact site h c rnd =
     (case parsed_body c of
        None \<Rightarrow> Done (badRequest ''malformed request body'')
      | Some a \<Rightarrow>
          (case Verify_token site (turnstile h) (turnstileToken c) (client_ip c) of
             Inl err \<Rightarrow> Done botCheckFailed
           | Inr _ \<Rightarrow>
               (case Struct (validator h) (ContactInput_fields a) of
                  Some fieldErrs \<Rightarrow> Done (validationFailed fieldErrs)
                | None \<Rightarrow> bind_prog (CreateContact (repo h) a rnd) (\<lambda>res. Done (contact_response res)))))"

definition subscribe_response :: "repo_error + unit \<Rightarrow> response" where
  "subscribe_response res =
     (case res of
        Inl err \<Rightarrow> internalError
      | Inr _ \<Rightarrow>
          \<lparr>status = 201, body = JObject [(''ok'', JBool True), (''message'', JString ''Subscribed.'')]\<rparr>)"

definition HandleSubscribe ::
    "siteverify \<Rightarrow> Handler \<Rightarrow> NewsletterInput request \<Rightarrow> entropy \<Rightarrow> response prog" where
  "HandleSubscribe site h c rnd =
     (case parsed_body c of
        None \<Rightarrow> Done (badRequest ''malformed request body'')
      | Some a \<Rightarrow>
          (case Verify_token site (turnstile h) (turnstileToken c) (client_ip c) of
             Inl err \<Rightarrow> Done botCheckFailed
           | Inr _ \<Rightarrow>
               (case Struct (validator h) (NewsletterInput_fields a) of
                  Some fieldErrs \<Rightarrow> Done (validationFailed fieldErrs)
                | None \<Rightarrow> bind_prog (Subscribe (repo h) a rnd) (\<lambda>res. Done (subscribe_response res)))))"

definition District_json :: "District \<Rightarrow> json" where
  "District_json d = JObject [(''bn'', JString (BN d)), (''en'', JString (EN d))]"

definition Division_json :: "Division \<Rightarrow> json" where
  "Division_json d = JObject [(''bn'', JString (div_BN d)), (''en'', JString (div_EN d)),
     (''districts'', JArray (map District_json (Districts d)))]"

definition HandleGeo :: "response prog" where
  "HandleGeo = Done \<lparr>status = 200, body = JObject [(''divisions'', JArray (map Division_json Divisions))]\<rparr>"

definition notValid :: response where
  "notValid = \<lparr>status = 200, body = JObject [(''ok'', JBool True), (''valid'', JBool False)]\<rparr>"

definition verify_response :: "repo_error + VerifyView \<Rightarrow> response" where
  "verify_response res =
     (case res of
        Inl ErrNotFound \<Rightarrow> notValid
      | Inl err \<Rightarrow> internalError
      | Inr view \<Rightarrow>
          \<lparr>status = 200, body = JObject [(''ok'', JBool True), (''valid'', JBool True),
            (''result'', VerifyView_json view)]\<rparr>)"

definition VerifyDocument :: "Handler \<Rightarrow> string \<Rightarrow> response prog" where
  "VerifyDocument h query_code =
     (let c = trim_space query_code
      in if c = [] then Done (badRequest ''missing verification code'')
         else if 64 < length c then
           Done notValid
         else bind_prog (FindByVerifyCode (repo h) c) (\<lambda>res. Done (verify_response res)))"

section \<open>Health probes\<close>

text \<open>
  A \<open>Pinger\<close> is anything that can be pinged: what it answers depends on the state of the world at
  the probe. \<open>redis\<close> is absent (the nil interface) with in-memory rate limiting.
\<close>

type_synonym 'w Pinger = "'w \<Rightarrow> string option"

record 'w Health =
  db :: "'w Pinger"
  redis :: "'w Pinger option"

definition NewHealth :: "'w Pinger \<Rightarrow> 'w Pinger option \<Rightarrow> 'w Health" where
  "NewHealth d r = \<lparr>db = d, redis = r\<rparr>"

definition Live :: response where
  "Live = \<lparr>status = 200, body = JObject [(''status'', JString ''ok'')]\<rparr>"

text \<open>The database is asked first, then Redis if there is one; each failure makes the service not ready.\<close>

definition Ready :: "'w Health \<Rightarrow> 'w \<Rightarrow> response" where
  "Ready h w =
     (let (db_check, ready) = (case db h w of Some err \<Rightarrow> (''unavailable'', False) | None \<Rightarrow> (''ok'', True));
          (redis_checks, ready) = (case redis h of
              None \<Rightarrow> ([], ready)
            | Some p \<Rightarrow> (case p w of
                  Some err \<Rightarrow> ([(''redis'', JString ''unavailable'')], False)
                | None \<Rightarrow> ([(''redis'', JString ''ok'')], ready)));
          st = (if \<not> ready then 503 else 200)
      in \<lparr>status = st, body = JObject [(''ready'', JBool ready),
           (''checks'', JObject ((''database'', JString db_check) # redis_checks))]\<rparr>)"

end
