(* ===== verification/Handlers_Spec.thy ===== *)
theory Handlers_Spec
  imports Handlers
begin

text \<open>
  The properties of the handlers: what each response means for the database, in which order the
  gates stand, what an error reveals, and how a submission, a lookup and a verification fit
  together over HTTP.
\<close>

section \<open>Running a handler\<close>

lemma exec_bind_Done:
  "exec (bind_prog p (\<lambda>x. Done (f x))) es d = (case exec p es d of (x, d') \<Rightarrow> (f x, d'))"
  by (induction p arbitrary: es d) (simp_all add: sql split: prod.split)

lemma issues_bind_Done [simp]: "issues g (bind_prog p (\<lambda>x. Done (f x))) \<longleftrightarrow> issues g p"
  by (induction p) auto

text \<open>What an application must satisfy before it gets to the repository.\<close>

definition accepted :: "Handler \<Rightarrow> ApplicationInput \<Rightarrow> bool" where
  "accepted h a \<longleftrightarrow> Struct (validator h) (ApplicationInput_fields a) = None \<and>
     IsValidPair (in_Division a) (in_District a)"

definition bot_check :: "siteverify \<Rightarrow> Handler \<Rightarrow> 'a request \<Rightarrow> bool" where
  "bot_check site h c \<longleftrightarrow> Verify_token site (turnstile h) (turnstileToken c) (client_ip c) = Inr ()"

lemmas form_gates = HandleCreateApplication_def LookupAdmitCard_def HandleCreateContact_def
  HandleSubscribe_def bot_check_def

lemmas rejections = badRequest_def botCheckFailed_def validationFailed_def

text \<open>The gates of the form handlers: a rejection that touches nothing, or the repository.\<close>

lemma application_gate:
  "(\<exists>resp. HandleCreateApplication site h c rnd = Done resp \<and> status resp \<in> {400, 403, 422}) \<or>
   (\<exists>a. parsed_body c = Some a \<and> bot_check site h c \<and> accepted h a \<and>
     HandleCreateApplication site h c rnd =
       bind_prog (CreateApplication (repo h) a rnd) (\<lambda>res. Done (application_response res)))"
  by (auto simp: form_gates accepted_def rejections split: option.split sum.split)

lemma lookup_gate:
  "(\<exists>resp. LookupAdmitCard site h c = Done resp \<and> status resp \<in> {400, 403, 422}) \<or>
   (\<exists>a. parsed_body c = Some a \<and> bot_check site h c \<and>
     Struct (validator h) (AdmitCardLookup_fields a) = None \<and>
     LookupAdmitCard site h c = bind_prog (FindAdmitCard (repo h) a) (\<lambda>res. Done (lookup_response res)))"
  by (auto simp: form_gates rejections split: option.split sum.split)

lemma contact_gate:
  "(\<exists>resp. HandleCreateContact site h c rnd = Done resp \<and> status resp \<in> {400, 403, 422}) \<or>
   (\<exists>a. parsed_body c = Some a \<and> bot_check site h c \<and>
     Struct (validator h) (ContactInput_fields a) = None \<and>
     HandleCreateContact site h c rnd =
       bind_prog (CreateContact (repo h) a rnd) (\<lambda>res. Done (contact_response res)))"
  by (auto simp: form_gates rejections split: option.split sum.split)

lemma subscribe_gate:
  "(\<exists>resp. HandleSubscribe site h c rnd = Done resp \<and> status resp \<in> {400, 403, 422}) \<or>
   (\<exists>a. parsed_body c = Some a \<and> bot_check site h c \<and>
     Struct (validator h) (NewsletterInput_fields a) = None \<and>
     HandleSubscribe site h c rnd =
       bind_prog (Subscribe (repo h) a rnd) (\<lambda>res. Done (subscribe_response res)))"
  by (auto simp: form_gates rejections split: option.split sum.split)

lemma application_response_status:
  "status (application_response (Inl err)) = (if err = ErrDuplicate then 409 else 500)"
  "status (application_response (Inr i)) = 201"
  by (cases err) (simp_all add: application_response_def internalError_def)

lemma create_duplicate_unchanged:
  assumes "exec (CreateApplication r a rnd) es d = (Inl ErrDuplicate, d')"
  shows "d' = d"
  using assms
proof (cases rule: create_ends)
  case (rejected v e)
  then have e: "e = PgError unique_violation" by (auto split: if_splits)
  then have "delivery (es 0) \<noteq> Lost_reply"
    using rejected(2) by (auto simp: query_def Let_def split: prod.splits)
  then show ?thesis using query_failed [OF rejected(2)] by blast
qed auto

section \<open>What errors reveal\<close>

text \<open>The messages of validation: eleven fixed texts, a default, and the one for a broken call.\<close>

definition validation_messages :: "string set" where
  "validation_messages = range message \<union>
     {''invalid input'', ''district does not belong to the selected division''}"

lemma foldl_ran: "ran (foldl (\<lambda>out x. out(g x \<mapsto> message (h x))) m xs) \<subseteq> ran m \<union> range message"
proof (induction xs arbitrary: m)
  case (Cons x xs)
  have "ran (m(g x \<mapsto> message (h x))) \<subseteq> ran m \<union> range message" by (auto simp: ran_def)
  then show ?case using Cons [of "m(g x \<mapsto> message (h x))"] unfolding foldl_Cons by blast
qed simp

lemma Struct_messages: "Struct v s = Some m \<Longrightarrow> ran m \<subseteq> validation_messages"
  using foldl_ran [of "\<lambda>fe. to_lower (err_field fe)" err_tag Map.empty]
  by (force simp: Struct_def validation_messages_def split: option.splits)

text \<open>All that a client ever learns from a response that is not a success.\<close>

definition fixed_errors :: "response set" where
  "fixed_errors = {badRequest ''malformed request body'', badRequest ''missing verification code'',
     botCheckFailed, internalError, application_response (Inl ErrDuplicate), lookup_response (Inl ErrNotFound)}"

definition plain_error :: "response \<Rightarrow> bool" where
  "plain_error resp \<longleftrightarrow> resp \<in> fixed_errors \<or> (\<exists>m. resp = validationFailed m \<and> ran m \<subseteq> validation_messages)"

lemma plain_errors:
  "plain_error (badRequest ''malformed request body'')" "plain_error (badRequest ''missing verification code'')"
  "plain_error botCheckFailed" "plain_error internalError"
  by (simp_all add: plain_error_def fixed_errors_def)

lemma plain_validation: "Struct v s = Some m \<Longrightarrow> plain_error (validationFailed m)"
  unfolding plain_error_def using Struct_messages by blast

lemma plain_district:
  "plain_error (validationFailed [''district'' \<mapsto> ''district does not belong to the selected division''])"
  by (auto simp: plain_error_def validation_messages_def)

text \<open>Every response of a program, whatever its statements are answered.\<close>

primrec results :: "('r \<Rightarrow> bool) \<Rightarrow> 'r prog \<Rightarrow> bool" where
  "results P (Done x) = P x"
| "results P (Query p s k) = (\<forall>r. results P (k r))"

lemma results_bind_Done [simp]: "results P (bind_prog p (\<lambda>x. Done (f x))) \<longleftrightarrow> results (\<lambda>x. P (f x)) p"
  by (induction p) auto

lemma results_True: "(\<And>x. P x) \<Longrightarrow> results P p"
  by (induction p) auto

lemma results_exec: "results P p \<Longrightarrow> P (fst (exec p es d))"
  by (induction p arbitrary: es d) (auto simp: sql split: prod.split)

definition tame :: "response \<Rightarrow> bool" where
  "tame resp \<longleftrightarrow> plain_error resp \<or> status resp \<in> {200, 201}"

lemma tame_success [simp]: "tame \<lparr>status = 200, body = b\<rparr>" "tame \<lparr>status = 201, body = b\<rparr>"
  by (simp_all add: tame_def)

lemma tame_internal [simp]: "tame internalError"
  using plain_errors(4) by (simp add: tame_def)

lemma tame_responses:
  "tame (application_response res)" "tame (lookup_response lres)" "tame (contact_response cres)"
  "tame (subscribe_response cres)" "tame (verify_response vres)"
proof -
  have "tame (application_response (Inl ErrDuplicate))" "tame (lookup_response (Inl ErrNotFound))"
    by (simp_all add: tame_def plain_error_def fixed_errors_def)
  then show "tame (application_response res)" "tame (lookup_response lres)"
    by (auto simp: application_response_def lookup_response_def split: sum.split repo_error.split)
  show "tame (contact_response cres)" "tame (subscribe_response cres)" "tame (verify_response vres)"
    by (auto simp: contact_response_def subscribe_response_def verify_response_def notValid_def
        split: sum.split repo_error.split)
qed

lemma tame_errors:
  "tame (badRequest ''malformed request body'')" "tame (badRequest ''missing verification code'')"
  "tame botCheckFailed" "Struct v s = Some m \<Longrightarrow> tame (validationFailed m)"
  "tame (validationFailed [''district'' \<mapsto> ''district does not belong to the selected division''])"
  using plain_errors plain_validation plain_district by (auto simp: tame_def)

lemma tame_application: "results tame (HandleCreateApplication site h c rnd)"
  by (auto simp: form_gates tame_errors tame_responses split: option.split sum.split intro: results_True)

lemma tame_lookup: "results tame (LookupAdmitCard site h c)"
  by (auto simp: form_gates tame_errors tame_responses split: option.split sum.split intro: results_True)

lemma tame_contact: "results tame (HandleCreateContact site h c rnd)"
  by (auto simp: form_gates tame_errors tame_responses split: option.split sum.split intro: results_True)

lemma tame_subscribe: "results tame (HandleSubscribe site h c rnd)"
  by (auto simp: form_gates tame_errors tame_responses split: option.split sum.split intro: results_True)

lemma tame_verify: "results tame (VerifyDocument h q)"
  by (auto simp: VerifyDocument_def Let_def tame_errors tame_responses intro: results_True)
    (simp add: tame_def notValid_def)

lemma CreateApplication_ends_error:
  "exec (CreateApplication r a rnd) es d = (Inl err, d') \<Longrightarrow> delivery (es 0) = Lost_reply \<or> d' = d"
  by (erule create_ends) (use query_failed in auto, metis query_failed reply.distinct(3))

section \<open>Properties\<close>

text \<open>
  C9. \<open>POST /v1/applications\<close>: a 201 means that the body parsed, the bot check passed, the
  application is valid with its district in its division, and a row that encodes it is stored
  under the id in the response. Any other response leaves the database as it was, except a 500
  after a lost answer to the INSERT.
\<close>

theorem HandleCreateApplication_outcome:
  "case exec (HandleCreateApplication site h c rnd) es d of (resp, d') \<Rightarrow>
     if status resp = 201
     then \<exists>a row. parsed_body c = Some a \<and> bot_check site h c \<and> accepted h a \<and>
       applications (primary_tables d') = applications (primary_tables d) @ [row] \<and>
       row_encodes (repo h) a row \<and> resp = application_response (Inr (ID row))
     else d' = d \<or> (resp = internalError \<and> delivery (es 0) = Lost_reply)"
proof (rule disjE [OF application_gate [of site h c rnd]])
  assume "\<exists>resp. HandleCreateApplication site h c rnd = Done resp \<and> status resp \<in> {400, 403, 422}"
  then show ?thesis by (auto simp: sql)
next
  assume "\<exists>a. parsed_body c = Some a \<and> bot_check site h c \<and> accepted h a \<and>
     HandleCreateApplication site h c rnd =
       bind_prog (CreateApplication (repo h) a rnd) (\<lambda>res. Done (application_response res))"
  then obtain a where a: "parsed_body c = Some a" "bot_check site h c" "accepted h a"
    "HandleCreateApplication site h c rnd =
       bind_prog (CreateApplication (repo h) a rnd) (\<lambda>res. Done (application_response res))" by blast
  obtain res d' where e: "exec (CreateApplication (repo h) a rnd) es d = (res, d')" by fastforce
  then have x: "exec (HandleCreateApplication site h c rnd) es d = (application_response res, d')"
    by (simp add: a(4) exec_bind_Done)
  show ?thesis
  proof (cases res)
    case (Inl err)
    have "d' = d \<or> (err \<noteq> ErrDuplicate \<and> delivery (es 0) = Lost_reply)"
      using CreateApplication_ends_error [OF e [unfolded Inl]] create_duplicate_unchanged e Inl by blast
    then show ?thesis
      using x Inl application_response_status(1) [of err]
      by (cases err) (auto simp: application_response_def)
  next
    case (Inr ident)
    then obtain v row where c: "encodes (repo h) a v"
      "applications (primary_tables d') = applications (primary_tables d) @ [row]"
      "row = new_row (es 0) v \<or> row = (new_row (es 0) v)\<lparr>VerifyCode := DocCode (signer (repo h)) docCodePrefix ident\<rparr>"
      "ident = new_uuid (es 0)"
      using created_rows [OF e [unfolded Inr]] by metis
    have "row_encodes (repo h) a row" "ID row = ident"
      using c(3,4) row_encodes_new [OF c(1), of "es 0"] by auto
    then show ?thesis using x Inr a(1-3) c(2) application_response_status(2) by auto
  qed
qed

text \<open>
  C14. An error response reveals nothing: every response of the five endpoints that is not a 200 or
  201 is one of six fixed responses or a validation error whose messages are from a fixed set,
  whatever was submitted, stored, or went wrong inside.
\<close>

theorem errors_reveal_nothing:
  "tame (fst (exec (HandleCreateApplication site h ca rnd) es d)) \<and>
   tame (fst (exec (LookupAdmitCard site h cl) es d)) \<and>
   tame (fst (exec (HandleCreateContact site h cc rnd) es d)) \<and>
   tame (fst (exec (HandleSubscribe site h cs rnd) es d)) \<and>
   tame (fst (exec (VerifyDocument h q) es d))"
  by (intro conjI results_exec tame_application tame_lookup tame_contact tame_subscribe tame_verify)

text \<open>
  C7. \<open>GET /v1/verify\<close> is public: its response depends on nothing but the codes, batches, roll numbers,
  confirmations, statuses and dates in the database, not on personal data, keys or the validator,
  and asking never changes the database.
\<close>

theorem VerifyDocument_public:
  assumes "map public_part (applications (pool_tables Replica d1)) =
    map public_part (applications (pool_tables Replica d2))"
  shows "fst (exec (VerifyDocument h1 q) es d1) = fst (exec (VerifyDocument h2 q) es d2) \<and>
    snd (exec (VerifyDocument h1 q) es d1) = d1"
proof -
  have "fst (exec (FindByVerifyCode (repo h1) c) es d1) = fst (exec (FindByVerifyCode (repo h2) c) es d2)"
    "snd (exec (FindByVerifyCode (repo h1) c) es d1) = d1" for c
    using limit1_public [OF assms, of "pick (es 0)" "canonical_code c"] by (simp_all add: exec_verify)
  then show ?thesis
    by (simp add: VerifyDocument_def Let_def exec_bind_Done sql case_prod_beta)
qed

theorem VerifyDocument_public_witness:
  "\<exists>d2. NameEnc (hd (applications (primary_tables d2))) = ''QUJD'' \<and>
     fst (exec (VerifyDocument (NewHandler sample_repo (NewValidator sample_library) (NewVerifier [] False))
       ''dyd-ac-00000000'') sample_env sample_created) =
     fst (exec (VerifyDocument (NewHandler sample_repo (NewValidator sample_library) (NewVerifier [] False))
       ''dyd-ac-00000000'') sample_env d2)"
proof (rule sample_row)
  fix row
  assume row: "applications (primary_tables sample_created) = [row]"
  let ?d2 = "sample_created\<lparr>primary_tables := (primary_tables sample_created)\<lparr>applications := [row\<lparr>NameEnc := ''QUJD''\<rparr>]\<rparr>\<rparr>"
  have "map public_part (applications (pool_tables Replica sample_created)) =
      map public_part (applications (pool_tables Replica ?d2))"
    by (simp add: pool_tables_def row public_part_def sample_no_replica)
  then show ?thesis using VerifyDocument_public by (intro exI [of _ ?d2]) auto
qed

text \<open>Every dependency there is answers its ping.\<close>

definition reachable :: "'w Pinger \<Rightarrow> 'w Pinger option \<Rightarrow> 'w \<Rightarrow> bool" where
  "reachable d r w \<longleftrightarrow> d w = None \<and> (case r of None \<Rightarrow> True | Some p \<Rightarrow> p w = None)"

text \<open>
  A probe for readiness is answered 200 exactly when the database and, if there is one, Redis
  answer their pings; otherwise 503. Liveness is always 200.
\<close>

theorem Ready_iff:
  "status (Ready (NewHealth d r) w) = (if reachable d r w then 200 else 503) \<and>
   (\<exists>checks. body (Ready (NewHealth d r) w) =
      JObject [(''ready'', JBool (reachable d r w)), (''checks'', checks)]) \<and>
   status Live = 200"
  by (auto simp: Ready_def NewHealth_def Live_def reachable_def Let_def split: option.split)

section \<open>A submission and its lookup over HTTP\<close>

definition sample_handler :: Handler where
  "sample_handler = NewHandler sample_repo (NewValidator sample_library) (NewVerifier [] False)"

lemma created_201:
  assumes "exec (HandleCreateApplication site h c rnd) es d = (resp, d1)" "status resp = 201"
  obtains a ident where "parsed_body c = Some a" "bot_check site h c" "accepted h a"
    "exec (CreateApplication (repo h) a rnd) es d = (Inr ident, d1)"
    "resp = application_response (Inr ident)"
proof (rule disjE [OF application_gate [of site h c rnd]])
  assume "\<exists>resp. HandleCreateApplication site h c rnd = Done resp \<and> status resp \<in> {400, 403, 422}"
  then show thesis using assms by (auto simp: sql)
next
  assume "\<exists>a. parsed_body c = Some a \<and> bot_check site h c \<and> accepted h a \<and>
     HandleCreateApplication site h c rnd =
       bind_prog (CreateApplication (repo h) a rnd) (\<lambda>res. Done (application_response res))"
  then obtain a where a: "parsed_body c = Some a" "bot_check site h c" "accepted h a"
    "HandleCreateApplication site h c rnd =
       bind_prog (CreateApplication (repo h) a rnd) (\<lambda>res. Done (application_response res))" by blast
  obtain res where e: "exec (CreateApplication (repo h) a rnd) es d = (res, d1)" "resp = application_response res"
    using assms(1) by (auto simp: a(4) exec_bind_Done split: prod.splits)
  then obtain ident where "res = Inr ident"
    using assms(2) by (cases res) (auto simp: application_response_status split: if_splits)
  then show thesis using that a(1-3) e by blast
qed

lemma exec_lookup:
  assumes "parsed_body c = Some lk" "bot_check site h c" "Struct (validator h) (AdmitCardLookup_fields lk) = None"
  shows "exec (LookupAdmitCard site h c) es d =
    (case exec (FindAdmitCard (repo h) lk) es d of (res, d') \<Rightarrow> (lookup_response res, d'))"
  using assms by (simp add: LookupAdmitCard_def bot_check_def exec_bind_Done)

text \<open>
  C1. End to end: after \<open>POST /v1/applications\<close> answered 201 and the replica caught up, a valid
  \<open>POST /v1/admit-card/lookup\<close> with the same phone digits and date of birth is answered 200 with
  the card of that application, all fields as submitted.
\<close>

theorem apply_then_lookup:
  assumes "repo_keyed (repo h)" "library_ok l" "validator h = NewValidator l"
    "parsed_body c = Some a" "exec (HandleCreateApplication site h c rnd) es d = (resp, d1)" "status resp = 201"
    "\<forall>row \<in> set (applications (primary_tables d)).
       PhoneDOBBIdx row \<noteq> lookup_key (repo h) (in_Phone a) (in_DOB a)"
    "parsed_body c' = Some lk" "bot_check site h c'" "Struct (validator h) (AdmitCardLookup_fields lk) = None"
    "normalize (lk_Phone lk) = normalize (in_Phone a)" "writes_date t (in_DOB a)" "writes_date t (lk_DOB lk)"
    "delivery (es' 0) = Up"
  shows "\<exists>ident. resp = application_response (Inr ident) \<and>
    fst (exec (LookupAdmitCard site h c') es' (catch_up d1)) =
      \<lparr>status = 200, body = JObject [(''ok'', JBool True),
        (''record'', AdmitCardView_json (issued_card (repo h) a ident (now (es 0))))]\<rparr>"
proof -
  obtain ident where x: "accepted h a" "exec (CreateApplication (repo h) a rnd) es d = (Inr ident, d1)"
    "resp = application_response (Inr ident)"
    using assms(4) by (auto intro: created_201 [OF assms(5,6)])
  have "bdphone (in_Phone a)" "bdphone (lk_Phone lk)"
    using x(1) assms(3,10) valid_application(1) [OF assms(2)] valid_lookup(1) [OF assms(2)]
    by (simp_all add: accepted_def)
  then have "lookup_key (repo h) (lk_Phone lk) (lk_DOB lk) = lookup_key (repo h) (in_Phone a) (in_DOB a)"
    by (intro lookup_key_same [OF _ _ assms(11,13,12)])
  then have "fst (exec (FindAdmitCard (repo h) lk) es' (catch_up d1)) =
      Inr (issued_card (repo h) a ident (now (es 0)))"
    by (rule lookup_after_create [where es' = es', OF assms(1) x(2) assms(7) _ assms(14)])
  then show ?thesis
    using x(3) by (auto simp: exec_lookup [OF assms(8-10)] lookup_response_def split: prod.splits)
qed

definition sample_request :: "'a \<Rightarrow> 'a request" where
  "sample_request b = \<lparr>parsed_body = Some b, token_header = [], client_ip = ''203.0.113.7''\<rparr>"

lemma sample_application_passes:
  "exec (HandleCreateApplication (\<lambda>_. Inl []) sample_handler (sample_request sample_application) sample_entropy)
     sample_env empty_db = (application_response (Inr ''1b4e28ba''), sample_created)"
proof -
  have "IsValidPair (in_Division sample_application) (in_District sample_application)"
    using Dhaka_Gazipur by (simp add: sample_application_def)
  then show ?thesis
    using sample_application_valid sample_create
    by (simp add: HandleCreateApplication_def sample_request_def sample_handler_def NewHandler_def
        Verify_token_def NewVerifier_def exec_bind_Done)
qed

lemma sample_lookup_valid:
  "Struct (NewValidator sample_library) (AdmitCardLookup_fields sample_lookup) = None"
proof -
  have "datestr '' 2001-01-02 ''"
    using sample_dates(2) by (auto simp: writes_date_def datestr_cases)
  then have "\<forall>f \<in> set (AdmitCardLookup_fields sample_lookup). field_ok (NewValidator sample_library) f"
    using sample_phones(2) sample_library_ok
    by (simp add: AdmitCardLookup_fields_def sample_lookup_def field_ok_simps)
  then show ?thesis by (simp add: Struct_ok sample_library_ok)
qed

theorem apply_then_lookup_witness:
  "status (fst (exec (LookupAdmitCard (\<lambda>_. Inl []) sample_handler (sample_request sample_lookup)) sample_env
     (catch_up sample_created))) = 200"
proof -
  have s: "in_Phone sample_application = ''01712-345678''" "in_DOB sample_application = ''02/01/2001''"
    "lk_Phone sample_lookup = ''01712 345678''" "lk_DOB sample_lookup = '' 2001-01-02 ''"
    by (simp_all add: sample_application_def sample_lookup_def)
  have h: "repo sample_handler = sample_repo" "validator sample_handler = NewValidator sample_library"
    "bot_check (\<lambda>_. Inl []) sample_handler c" for c :: "'a request"
    by (simp_all add: sample_handler_def NewHandler_def bot_check_def Verify_token_def NewVerifier_def)
  show ?thesis
    using apply_then_lookup [of sample_handler sample_library "sample_request sample_application" sample_application
        "\<lambda>_. Inl []" sample_entropy sample_env empty_db _ sample_created "sample_request sample_lookup" sample_lookup
        "\<lparr>year = 2001, month = 1, day = 2\<rparr>" sample_env] sample_keyed sample_library_ok sample_application_passes
      sample_lookup_valid sample_phones sample_dates
    by (auto simp: s h sample_request_def application_response_status)
qed

end
