(* ===== verification/Service.thy ===== *)
theory Service
  imports "HOL-Library.Sublist" Handlers_Spec
begin

text \<open>
  The service under load: any number of requests are in flight at once, on any number of
  instances that share the databases and the keys. Their statements interleave in any order,
  the replica catches up at any time, and an instance may stop and lose its requests. What is in flight and what
  was sent is kept with its request. The theory shows what holds in every reachable state.
\<close>

section \<open>Requests\<close>

datatype api_request =
    Apply "ApplicationInput request" entropy
  | Lookup "AdmitCardLookup request"
  | Contact "ContactInput request" entropy
  | Newsletter "NewsletterInput request" entropy
  | Check_code string
  | Geo_tree

fun serve :: "siteverify \<Rightarrow> Handler \<Rightarrow> api_request \<Rightarrow> response prog" where
  "serve site h (Apply c rnd) = HandleCreateApplication site h c rnd"
| "serve site h (Lookup c) = LookupAdmitCard site h c"
| "serve site h (Contact c rnd) = HandleCreateContact site h c rnd"
| "serve site h (Newsletter c rnd) = HandleSubscribe site h c rnd"
| "serve site h (Check_code c) = VerifyDocument h c"
| "serve site h Geo_tree = HandleGeo"

section \<open>Steps\<close>

record world =
  store :: database
  in_flight :: "(api_request \<times> response prog) list"
  sent :: "(api_request \<times> response) list"

datatype event = Arrive | Work | Replicate | Stop

inductive step :: "siteverify \<Rightarrow> Handler \<Rightarrow> event \<Rightarrow> world \<Rightarrow> world \<Rightarrow> bool" for site h where
  arrive: "step site h Arrive w (w\<lparr>in_flight := in_flight w @ [(q, serve site h q)]\<rparr>)"
| statement: "in_flight w = ps @ (q, Query p s k) # qs \<Longrightarrow> query e p s (store w) = (rep, d) \<Longrightarrow>
    step site h Work w (w\<lparr>store := d, in_flight := ps @ (q, k rep) # qs\<rparr>)"
| respond: "in_flight w = ps @ (q, Done resp) # qs \<Longrightarrow>
    step site h Work w (w\<lparr>in_flight := ps @ qs, sent := sent w @ [(q, resp)]\<rparr>)"
| replicate: "step site h Replicate w (w\<lparr>store := catch_up (store w)\<rparr>)"
| stop: "subseq ps (in_flight w) \<Longrightarrow> step site h Stop w (w\<lparr>in_flight := ps\<rparr>)"

inductive_cases step_Work: "step site h Work w w'"
lemmas step_Work_cases = step_Work [consumes 1, case_names statement respond]
inductive_simps step_Replicate: "step site h Replicate w w'"

definition initial :: "database \<Rightarrow> world" where
  "initial d = \<lparr>store = d, in_flight = [], sent = []\<rparr>"

inductive reachable_from :: "siteverify \<Rightarrow> Handler \<Rightarrow> world \<Rightarrow> world \<Rightarrow> bool" for site h w0 where
  start: "reachable_from site h w0 w0"
| step: "reachable_from site h w0 w \<Longrightarrow> step site h l w w' \<Longrightarrow> reachable_from site h w0 w'"

lemma stop_subset: "subseq xs ys \<Longrightarrow> set xs \<subseteq> set ys"
  by (auto dest: list_emb_set)

lemma reachable_trans:
  "reachable_from site h v w \<Longrightarrow> reachable_from site h u v \<Longrightarrow> reachable_from site h u w"
  by (induction rule: reachable_from.induct) (auto intro: reachable_from.step)

section \<open>Invariants of the store\<close>

text \<open>
  The contract of a service on a store: the programs of all requests send only good statements, and
  good statements and replication keep the invariant. Then it holds in every reachable state.
\<close>

locale served = statement_store query good inv
  for good :: "pool \<Rightarrow> stmt \<Rightarrow> bool" and inv :: "database \<Rightarrow> bool" +
  fixes site :: siteverify and h :: Handler
  assumes issued: "issues good (serve site h q)"
    and caught_up: "inv d \<Longrightarrow> inv (catch_up d)"
begin

definition safe :: "world \<Rightarrow> bool" where
  "safe w \<longleftrightarrow> inv (store w) \<and> (\<forall>(q, p) \<in> set (in_flight w). issues good p)"

lemma safe_step: "step site h l w w' \<Longrightarrow> safe w \<Longrightarrow> safe w'"
proof (induction rule: step.induct)
  case (statement w ps q p s k qs e rep d)
  then have "inv (store w)" "good p s" "\<And>r. issues good (k r)" by (auto simp: safe_def)
  then show ?case using statement keeps_step by (auto simp: safe_def)
next
  case (stop ps w)
  then show ?case using stop_subset [OF stop(1)] by (auto simp: safe_def)
qed (auto simp: safe_def issued caught_up)

lemma safe_reachable: "reachable_from site h w0 w \<Longrightarrow> safe w0 \<Longrightarrow> safe w"
  by (induction rule: reachable_from.induct) (auto intro: safe_step)

lemma inv_reachable: "reachable_from site h (initial d) w \<Longrightarrow> inv d \<Longrightarrow> inv (store w)"
  using safe_reachable [of "initial d" w] by (simp add: safe_def initial_def)

end

text \<open>
  What the service may ask of the database: as the repository, and only accepted applications are
  inserted.
\<close>

definition admissible :: "Handler \<Rightarrow> pool \<Rightarrow> stmt \<Rightarrow> bool" where
  "admissible h p s \<longleftrightarrow> allowed (repo h) p s \<and>
     (\<forall>v. s = Insert_application v \<longrightarrow> (\<exists>a. accepted h a \<and> encodes (repo h) a v))"

definition accepted_rows :: "Handler \<Rightarrow> tables \<Rightarrow> bool" where
  "accepted_rows h t \<longleftrightarrow> (\<forall>row \<in> set (applications t). \<exists>a. accepted h a \<and> row_encodes (repo h) a row)"

definition service_ok :: "Handler \<Rightarrow> tables \<Rightarrow> bool" where
  "service_ok h t \<longleftrightarrow> store_ok (repo h) t \<and> accepted_rows h t"

definition inserts :: "stmt \<Rightarrow> bool" where
  "inserts s = (case s of Insert_application _ \<Rightarrow> True | _ \<Rightarrow> False)"

lemma admissible_other: "\<not> inserts s \<Longrightarrow> admissible h p s \<longleftrightarrow> allowed (repo h) p s"
  by (auto simp: admissible_def inserts_def)

lemma admissible_reply: "issues (admissible h) (create_reply (repo h) rep)"
  by (simp add: create_reply_def admissible_other inserts_def split: reply.split db_error.split)

lemma admissible_create:
  assumes "accepted h a"
  shows "issues (admissible h) (CreateApplication (repo h) a rnd)"
proof (cases rule: create_cases [of "repo h" a rnd])
  case (insert v)
  then show ?thesis using assms by (auto simp: admissible_def [of h Primary] admissible_reply)
qed simp

lemma issues_other: "issues (\<lambda>p s. allowed (repo h) p s \<and> \<not> inserts s) p \<Longrightarrow> issues (admissible h) p"
  by (erule issues_mono) (simp add: admissible_other)

lemma other_find: "issues (\<lambda>p s. allowed r p s \<and> \<not> inserts s) (FindAdmitCard r lk)"
  by (auto simp: FindAdmitCard_def card_reply_def inserts_def lookup_key_def Let_def split: reply.split)

lemma other_verify: "issues (\<lambda>p s. allowed r p s \<and> \<not> inserts s) (FindByVerifyCode r c)"
  by (simp add: FindByVerifyCode_def inserts_def Let_def split: reply.split)

lemma other_contact: "issues (\<lambda>p s. allowed r p s \<and> \<not> inserts s) (CreateContact r c rnd)"
  unfolding CreateContact_def
  by (intro with_enc_cases [where P = "issues (\<lambda>p s. allowed r p s \<and> \<not> inserts s)"])
    (auto simp: encodes_contact_def inserts_def split: reply.split)

lemma other_subscribe: "issues (\<lambda>p s. allowed r p s \<and> \<not> inserts s) (Subscribe r n rnd)"
  unfolding Subscribe_def
  by (intro with_enc_cases [where P = "issues (\<lambda>p s. allowed r p s \<and> \<not> inserts s)"])
    (auto simp: inserts_def split: reply.split)

lemma admissible_serve: "issues (admissible h) (serve site h q)"
proof (cases q)
  case (Apply c rnd)
  then show ?thesis
    using application_gate [of site h c rnd] by (auto simp: admissible_create)
next
  case (Lookup c)
  then show ?thesis using lookup_gate [of site h c] issues_other [OF other_find] by auto
next
  case (Contact c rnd)
  then show ?thesis using contact_gate [of site h c rnd] issues_other [OF other_contact] by auto
next
  case (Newsletter c rnd)
  then show ?thesis using subscribe_gate [of site h c rnd] issues_other [OF other_subscribe] by auto
next
  case (Check_code c)
  then show ?thesis using issues_other [OF other_verify] by (auto simp: VerifyDocument_def Let_def)
qed (simp add: HandleGeo_def)

lemma accepted_rows_update: "accepted_rows h t \<Longrightarrow> accepted_rows h (snd (update_code hit c t))"
  by (auto simp: accepted_rows_def update_code_def)

lemma accepted_rows_exec:
  assumes "accepted_rows h t" "admissible h p s"
  shows "accepted_rows h (snd (exec_stmt e s t))"
proof (cases s)
  case (Insert_application v)
  then obtain a where "accepted h a" "encodes (repo h) a v" using assms(2) by (auto simp: admissible_def)
  then show ?thesis
    using Insert_application assms(1) row_encodes_new [of "repo h" a v e]
    by (auto simp: accepted_rows_def exec_stmt_def insert_application_def)
qed (use assms(1) accepted_rows_update in
    \<open>auto simp: exec_stmt_def accepted_rows_def insert_contact_def insert_subscriber_def\<close>)

lemma service_ok_query:
  "both (service_ok h) d \<Longrightarrow> admissible h p s \<Longrightarrow> both (service_ok h) (snd (query e p s d))"
  by (rule query_keeps)
    (auto simp: service_ok_def intro: store_ok_exec accepted_rows_exec dest: admissible_def [THEN iffD1])

interpretation service: served "admissible h" "both (service_ok h)" site h for site h
  by unfold_locales (auto intro: service_ok_query admissible_serve both_catch_up)

section \<open>What is stored stays\<close>

text \<open>A row without its verification code: nothing else of a row ever changes.\<close>

definition fixed_part :: "application_row \<Rightarrow> application_row" where
  "fixed_part row = row\<lparr>VerifyCode := []\<rparr>"

definition grows :: "tables \<Rightarrow> tables \<Rightarrow> bool" where
  "grows t t' \<longleftrightarrow> prefix (map fixed_part (applications t)) (map fixed_part (applications t'))"

lemma grows_refl [simp]: "grows t t"
  by (simp add: grows_def)

lemma grows_trans: "grows t u \<Longrightarrow> grows u v \<Longrightarrow> grows t v"
  unfolding grows_def by (rule prefix_order.trans)

lemma grows_same: "applications t' = applications t \<Longrightarrow> grows t t'"
  by (simp add: grows_def)

lemma grows_update: "grows t (snd (update_code hit c t))"
proof -
  have "fixed_part (if hit row then row\<lparr>VerifyCode := c\<rparr> else row) = fixed_part row" for row
    by (simp add: fixed_part_def)
  then show ?thesis by (auto simp: grows_def update_code_def o_def)
qed

lemma grows_exec: "grows t (snd (exec_stmt e s t))"
proof (cases s)
  case (Insert_application v)
  then show ?thesis by (auto simp: exec_stmt_def insert_application_def grows_def)
qed (auto simp: exec_stmt_def grows_update insert_contact_def insert_subscriber_def intro: grows_same)

lemma primary_query:
  "primary_tables (snd (query e p s d)) \<in> {primary_tables d, snd (exec_stmt e s (primary_tables d))}"
  by (auto simp: query_def pool_tables_def set_pool_tables_def Let_def
      split: delivery.split pool.split option.split prod.split)

lemma grows_query: "query e p s d = (rep, d') \<Longrightarrow> grows (primary_tables d) (primary_tables d')"
  using primary_query [of e p s d] grows_exec [of "primary_tables d" e s] by auto

lemma grows_step: "step site h l w w' \<Longrightarrow> grows (primary_tables (store w)) (primary_tables (store w'))"
  by (induction rule: step.induct) (auto simp: grows_query catch_up_def)

lemma grows_reachable:
  "reachable_from site h w0 w \<Longrightarrow> grows (primary_tables (store w0)) (primary_tables (store w))"
  by (induction rule: reachable_from.induct) (auto intro: grows_trans grows_step)

lemma registry_fixed: "registry r t = map_of (map (\<lambda>row. (PhoneBIdx row, decode_row r row)) (map fixed_part (applications t)))"
  by (simp add: registry_def o_def fixed_part_def)

lemma registry_grows: "grows t t' \<Longrightarrow> registry r t \<subseteq>\<^sub>m registry r t'"
  unfolding grows_def registry_fixed prefix_def by (auto simp: map_le_def simp del: map_map)

definition ids :: "database \<Rightarrow> string set" where
  "ids d = ID ` set (applications (primary_tables d))"

lemma ids_fixed: "ids d = ID ` set (map fixed_part (applications (primary_tables d)))"
  by (simp add: ids_def image_image fixed_part_def)

lemma ids_grows: "grows (primary_tables d) (primary_tables d') \<Longrightarrow> ids d \<subseteq> ids d'"
  unfolding grows_def ids_fixed by (intro image_mono set_mono_prefix)

section \<open>What is acknowledged is stored\<close>

abbreviation created :: "string \<Rightarrow> response" where
  "created i \<equiv> application_response (Inr i)"

text \<open>The application that a request carries, and the statement that stores it.\<close>

definition asked :: "api_request \<Rightarrow> ApplicationInput \<Rightarrow> bool" where
  "asked q a \<longleftrightarrow> (\<exists>c rnd. q = Apply c rnd \<and> parsed_body c = Some a)"

definition submits :: "Handler \<Rightarrow> api_request \<Rightarrow> stmt \<Rightarrow> bool" where
  "submits h q s \<longleftrightarrow> (\<exists>a v. asked q a \<and> accepted h a \<and> s = Insert_application v \<and> encodes (repo h) a v)"

text \<open>
  The ids that a program may still acknowledge without an answer of the database to a statement
  of the given sort that confirms them.
\<close>

primrec owes :: "(stmt \<Rightarrow> bool) \<Rightarrow> response prog \<Rightarrow> string set" where
  "owes m (Done resp) = {i. resp = created i}"
| "owes m (Query p s k) = (\<Union>rep. owes m (k rep) - {i. rep = Inserted i \<and> m s})"

lemma owes_step: "i \<in> owes m (k rep) \<Longrightarrow> i \<in> owes m (Query p s k) \<or> (rep = Inserted i \<and> m s)"
  by auto

lemma owes_other: "results (\<lambda>resp. \<forall>i. resp \<noteq> created i) p \<Longrightarrow> owes m p = {}"
  by (induction p) auto

lemma created_inject [simp]: "created i = created j \<longleftrightarrow> i = j"
  by (simp add: application_response_def)

lemma not_created:
  "contact_response cres \<noteq> created i" "subscribe_response cres \<noteq> created i"
  by (cases cres; simp add: contact_response_def subscribe_response_def application_response_def internalError_def)+

lemma not_created_lookup: "lookup_response lres \<noteq> created i"
proof (cases lres)
  case (Inl err)
  then show ?thesis by (cases err) (simp_all add: lookup_response_def application_response_def internalError_def)
qed (simp add: lookup_response_def application_response_def)

lemma not_created_verify: "verify_response vres \<noteq> created i"
proof (cases vres)
  case (Inl err)
  then show ?thesis
    by (cases err) (simp_all add: verify_response_def application_response_def internalError_def notValid_def)
qed (simp add: verify_response_def application_response_def)

lemma not_created_error: "application_response (Inl err) \<noteq> created i"
proof
  assume "application_response (Inl err) = created i"
  then have "status (application_response (Inl err)) = 201" by (simp add: application_response_status)
  then show False by (simp add: application_response_status split: if_splits)
qed

lemma owes_bind: "(\<And>x i. f x \<noteq> created i) \<Longrightarrow> owes m (bind_prog p (\<lambda>x. Done (f x))) = {}"
  by (intro owes_other) (simp add: results_True)

lemma owes_reject: "status resp \<in> {200, 400, 403, 422} \<Longrightarrow> owes m (Done resp) = {}"
  by (auto simp: application_response_def)

lemma owes_create_reply:
  "owes m (bind_prog (create_reply r rep) (\<lambda>res. Done (application_response res))) \<subseteq> {i. rep = Inserted i}"
  by (auto simp: create_reply_def not_created_error split: reply.splits db_error.splits if_splits)

lemma owes_create:
  assumes "asked q a" "accepted h a"
  shows "owes (submits h q) (bind_prog (CreateApplication (repo h) a rnd) (\<lambda>res. Done (application_response res))) = {}"
proof (cases rule: create_cases [of "repo h" a rnd])
  case (insert v)
  then have "submits h q (Insert_application v)" using assms by (auto simp: submits_def)
  then show ?thesis using owes_create_reply [of "submits h q" "repo h"] by (auto simp: insert(2))
qed (simp add: not_created_error)

lemma owes_serve: "owes (submits h q) (serve site h q) = {}"
proof (cases q)
  case (Apply c rnd)
  have "asked q a" if "parsed_body c = Some a" for a using that by (auto simp: asked_def Apply)
  then show ?thesis unfolding Apply serve.simps
    using application_gate [of site h c rnd] owes_reject owes_create by (metis Apply insert_iff)
next
  case (Lookup c)
  show ?thesis unfolding Lookup serve.simps
    by (rule disjE [OF lookup_gate [of site h c]])
      (auto simp del: owes.simps simp: owes_reject owes_bind [OF not_created_lookup])
next
  case (Contact c rnd)
  show ?thesis unfolding Contact serve.simps
    by (rule disjE [OF contact_gate [of site h c rnd]])
      (auto simp del: owes.simps simp: owes_reject owes_bind [OF not_created(1)])
next
  case (Newsletter c rnd)
  show ?thesis unfolding Newsletter serve.simps
    by (rule disjE [OF subscribe_gate [of site h c rnd]])
      (auto simp del: owes.simps simp: owes_reject owes_bind [OF not_created(2)])
next
  case (Check_code c)
  show ?thesis unfolding Check_code serve.simps VerifyDocument_def Let_def
    by (auto simp: notValid_def badRequest_def owes_reject owes_bind [OF not_created_verify] simp del: owes.simps)
qed (simp add: HandleGeo_def application_response_def)

text \<open>The ids of the rows that encode the application of a request.\<close>

definition backing :: "Handler \<Rightarrow> api_request \<Rightarrow> database \<Rightarrow> string set" where
  "backing h q d = {i. \<exists>a row. asked q a \<and> accepted h a \<and> row \<in> set (applications (primary_tables d)) \<and>
     ID row = i \<and> row_encodes (repo h) a row}"

lemma backing_ids: "backing h q d \<subseteq> ids d"
  by (auto simp: backing_def ids_def)

lemma backing_fixed: "backing h q d = {i. \<exists>a row. asked q a \<and> accepted h a \<and>
    row \<in> set (map fixed_part (applications (primary_tables d))) \<and> ID row = i \<and> row_encodes (repo h) a row}"
  unfolding backing_def by (simp add: fixed_part_def) blast

lemma backing_grows: "grows (primary_tables d) (primary_tables d') \<Longrightarrow> backing h q d \<subseteq> backing h q d'"
  unfolding grows_def backing_fixed by (blast dest: set_mono_prefix)

lemma inserted_id:
  assumes "query e p s d = (Inserted i, d')" "submits h q s" "admissible h p s"
  shows "i \<in> backing h q d'" "i \<notin> ids d"
proof -
  obtain a v where a: "asked q a" "accepted h a" "s = Insert_application v" "encodes (repo h) a v"
    using assms(2) by (auto simp: submits_def)
  then have "p = Primary" using assms(3) by (simp add: admissible_def)
  note q = query_inserted [OF assms(1) [unfolded this a(3)]]
  have "new_row e v \<in> set (applications (primary_tables d'))" "ID (new_row e v) = i"
    using q(2) by (simp_all add: q(4) new_row_def)
  then show "i \<in> backing h q d'"
    unfolding backing_def using a(1,2) row_encodes_new [OF a(4), of e] by blast
  show "i \<notin> ids d" using q(2,3) by (auto simp: ids_def clash_new_row)
qed

text \<open>
  The invariant: what was sent and what may still be sent is backed by a row of the application of
  its own request, and no id is acknowledged, or may be, to two requests.
\<close>

definition claims :: "Handler \<Rightarrow> string \<Rightarrow> world \<Rightarrow> nat" where
  "claims h i w = length (filter (\<lambda>(q, resp). resp = created i) (sent w)) +
     length (filter (\<lambda>(q, p). i \<in> owes (submits h q) p) (in_flight w))"

definition backed :: "Handler \<Rightarrow> world \<Rightarrow> bool" where
  "backed h w \<longleftrightarrow> (\<forall>(q, resp) \<in> set (sent w). \<forall>i. resp = created i \<longrightarrow> i \<in> backing h q (store w)) \<and>
     (\<forall>(q, p) \<in> set (in_flight w). owes (submits h q) p \<subseteq> backing h q (store w) \<and> issues (admissible h) p) \<and>
     (\<forall>i. claims h i w \<le> 1)"

lemma unclaimed:
  assumes "backed h w" "i \<notin> ids (store w)"
  shows "claims h i w = 0"
proof -
  have "filter (\<lambda>(q, resp). resp = created i) (sent w) = []"
    "filter (\<lambda>(q, p). i \<in> owes (submits h q) p) (in_flight w) = []"
    using assms backing_ids by (fastforce simp: backed_def filter_empty_conv)+
  then show ?thesis by (simp only: claims_def list.size add_0)
qed

lemma backed_step: "step site h l w w' \<Longrightarrow> backed h w \<Longrightarrow> backed h w'"
proof (induction rule: step.induct)
  case (statement w ps q p s k qs e rep d)
  have sub: "backing h q' (store w) \<subseteq> backing h q' d" for q'
    using grows_query [OF statement(2)] by (rule backing_grows)
  have old: "owes (submits h q) (Query p s k) \<subseteq> backing h q (store w)" "admissible h p s" "issues (admissible h) (k rep)"
    using statement(1,3) by (auto simp: backed_def simp del: owes.simps)
  have new: "i \<in> owes (submits h q) (Query p s k) \<or> (i \<in> backing h q d \<and> i \<notin> ids (store w))"
    if "i \<in> owes (submits h q) (k rep)" for i
    using owes_step [where m = "submits h q" and p = p and s = s and k = k and rep = rep, OF that] inserted_id [OF _ _ old(2)] statement(2) by blast
  let ?w = "w\<lparr>store := d, in_flight := ps @ (q, k rep) # qs\<rparr>"
  have "claims h i ?w \<le> 1" for i
  proof (cases "i \<in> owes (submits h q) (k rep) \<and> i \<notin> owes (submits h q) (Query p s k)")
    case True
    then have "claims h i w = 0" using new unclaimed [OF statement(3)] by blast
    then show ?thesis using True by (simp add: claims_def statement(1) del: owes.simps)
  next
    case False
    then have "claims h i ?w \<le> claims h i w" by (auto simp: claims_def statement(1) simp del: owes.simps)
    also have "claims h i w \<le> 1" using statement(3) by (simp add: backed_def)
    finally show ?thesis .
  qed
  moreover have "owes (submits h q) (k rep) \<subseteq> backing h q d" using new old(1) sub by blast
  ultimately show ?case using statement(1,3) sub old(3)
    unfolding backed_def by (simp del: owes.simps) blast
next
  case (respond w ps q resp qs)
  have "claims h i (w\<lparr>in_flight := ps @ qs, sent := sent w @ [(q, resp)]\<rparr>) = claims h i w" for i
    by (simp add: claims_def respond(1))
  then show ?case using respond by (auto simp: backed_def)
next
  case (replicate w)
  have "claims h i (w\<lparr>store := catch_up (store w)\<rparr>) = claims h i w" for i by (simp add: claims_def)
  then show ?case using replicate by (simp add: backed_def backing_def catch_up_def)
next
  case (arrive w q)
  have "claims h i (w\<lparr>in_flight := in_flight w @ [(q, serve site h q)]\<rparr>) = claims h i w" for i
    by (simp add: claims_def owes_serve)
  then show ?case using arrive by (auto simp: backed_def owes_serve admissible_serve)
next
  case (stop ps w)
  have "claims h i (w\<lparr>in_flight := ps\<rparr>) \<le> 1" for i
  proof -
    have "claims h i (w\<lparr>in_flight := ps\<rparr>) \<le> claims h i w"
      using list_emb_length [OF subseq_filter [OF stop(1)]] by (simp add: claims_def)
    also have "claims h i w \<le> 1" using stop(2) by (simp add: backed_def)
    finally show ?thesis .
  qed
  moreover have "\<forall>(q, p) \<in> set ps. owes (submits h q) p \<subseteq> backing h q (store w) \<and> issues (admissible h) p"
    using stop(2) stop_subset [OF stop(1)] unfolding backed_def by blast
  ultimately show ?case using stop(2) by (simp add: backed_def)
qed

lemma backed_reachable: "reachable_from site h w0 w \<Longrightarrow> backed h w0 \<Longrightarrow> backed h w"
  by (induction rule: reachable_from.induct) (auto intro: backed_step)

lemma backed_initial: "reachable_from site h (initial d) w \<Longrightarrow> backed h w"
  by (erule backed_reachable) (simp add: backed_def initial_def claims_def)

section \<open>Requests are answered\<close>

text \<open>A program that sends at most \<open>n\<close> statements, whatever it is answered.\<close>

primrec within :: "'r prog \<Rightarrow> nat \<Rightarrow> bool" where
  "within (Done x) n = True"
| "within (Query p s k) n = (n \<noteq> 0 \<and> (\<forall>r. within (k r) (n - 1)))"

lemma within_mono: "within p m \<Longrightarrow> m \<le> n \<Longrightarrow> within p n"
  by (induction p arbitrary: m n) (auto, meson diff_le_mono rangeI)

lemma within_bind [simp]: "within (bind_prog p (\<lambda>x. Done (f x))) n = within p n"
  by (induction p arbitrary: n) auto

lemma within_create: "within (CreateApplication r a rnd) 2"
  by (rule create_cases [of r a rnd]) (simp_all add: create_reply_def split: reply.split db_error.split)

lemma within_find: "within (FindAdmitCard r lk) 2"
  by (simp add: FindAdmitCard_def card_reply_def Let_def split: reply.split)

lemma within_verify: "within (FindByVerifyCode r c) 2"
  by (simp add: FindByVerifyCode_def Let_def split: reply.split)

lemma within_contact: "within (CreateContact r c rnd) 2"
  unfolding CreateContact_def
  by (intro with_enc_cases [where P = "\<lambda>p. within p 2"]) (simp_all split: reply.split)

lemma within_subscribe: "within (Subscribe r n rnd) 2"
  unfolding Subscribe_def
  by (intro with_enc_cases [where P = "\<lambda>p. within p 2"]) (simp_all split: reply.split)

lemma within_serve: "within (serve site h q) 2"
proof (cases q)
  case (Apply c rnd)
  then show ?thesis using application_gate [of site h c rnd] within_create by auto
next
  case (Lookup c)
  then show ?thesis using lookup_gate [of site h c] within_find by auto
next
  case (Contact c rnd)
  then show ?thesis using contact_gate [of site h c rnd] within_contact by auto
next
  case (Newsletter c rnd)
  then show ?thesis using subscribe_gate [of site h c rnd] within_subscribe by auto
next
  case (Check_code c)
  then show ?thesis using within_verify by (simp add: VerifyDocument_def Let_def)
qed (simp add: HandleGeo_def)

lemma within_step: "step site h l w w' \<Longrightarrow> \<forall>x \<in> set (in_flight w). within (snd x) 2 \<Longrightarrow> \<forall>x \<in> set (in_flight w'). within (snd x) 2"
proof (induction rule: step.induct)
  case (statement w ps q p s k qs e rep d)
  then have "within (k rep) 1" by simp
  then have "within (k rep) 2" by (rule within_mono) simp
  then show ?case using statement(1,3) by auto
next
  case (stop ps w)
  then show ?case using stop_subset [OF stop(1)] by auto
qed (auto simp: within_serve)

lemma within_reachable:
  "reachable_from site h w0 w \<Longrightarrow> \<forall>x \<in> set (in_flight w0). within (snd x) 2 \<Longrightarrow> \<forall>x \<in> set (in_flight w). within (snd x) 2"
  by (induction rule: reachable_from.induct) (use within_step in blast)+

text \<open>The statements and the response that each request in flight may still need.\<close>

lemma work_step:
  assumes "step site h Work w w'" "list_all2 within (map snd (in_flight w)) ns"
  obtains ns' where "list_all2 within (map snd (in_flight w')) ns'" "sum_list (map Suc ns') < sum_list (map Suc ns)"
  using assms(1)
proof (cases rule: step_Work_cases)
  case (statement ps q p s k qs e rep d)
  obtain ms n os where ns: "ns = ms @ n # os" "list_all2 within (map snd ps) ms" "within (Query p s k) n"
    "list_all2 within (map snd qs) os"
    using assms(2) unfolding statement(2) map_append list.map snd_conv list_all2_append1 list_all2_Cons1 by blast
  show thesis
    by (rule that [of "ms @ (n - 1) # os"]) (use ns in \<open>auto simp: statement(1) list_all2_appendI\<close>)
next
  case (respond ps q resp qs)
  obtain ms n os where ns: "ns = ms @ n # os" "list_all2 within (map snd ps) ms" "list_all2 within (map snd qs) os"
    using assms(2) unfolding respond(2) map_append list.map snd_conv list_all2_append1 list_all2_Cons1 by blast
  show thesis
    by (rule that [of "ms @ os"]) (use ns in \<open>auto simp: respond(1) list_all2_appendI\<close>)
qed

lemma work_bound: "(step site h Work ^^ k) w w' \<Longrightarrow> list_all2 within (map snd (in_flight w)) ns \<Longrightarrow> k \<le> sum_list (map Suc ns)"
proof (induction k arbitrary: w ns)
  case (Suc k)
  obtain v where v: "step site h Work w v" "(step site h Work ^^ k) v w'"
    using relpowp_Suc_D2 [OF Suc.prems(1)] by blast
  obtain ns' where n: "list_all2 within (map snd (in_flight v)) ns'" "sum_list (map Suc ns') < sum_list (map Suc ns)"
    using work_step [OF v(1) Suc.prems(2)] .
  show ?case using Suc.IH [OF v(2) n(1)] n(2) by linarith
qed simp

lemma work_count:
  "(step site h Work ^^ k) w w' \<Longrightarrow> length (sent w') + length (in_flight w') = length (sent w) + length (in_flight w)"
proof (induction k arbitrary: w')
  case (Suc k)
  obtain v where v: "(step site h Work ^^ k) w v" "step site h Work v w'" using Suc.prems by auto
  show ?case using v(2) Suc.IH [OF v(1)] by (cases rule: step_Work_cases) auto
qed simp

lemma work_possible: "in_flight w \<noteq> [] \<Longrightarrow> \<exists>w'. step site h Work w w'"
proof (cases "in_flight w")
  case (Cons x ps)
  obtain q p where x: "x = (q, p)" by fastforce
  show ?thesis
  proof (cases p)
    case (Done resp)
    then show ?thesis using respond [of w "[]" q resp ps site h] Cons x by auto
  next
    case (Query po s k)
    obtain rep d where "query undefined po s (store w) = (rep, d)" by fastforce
    then show ?thesis using statement [of w "[]" q po s k ps undefined rep d site h] Cons x Query by auto
  qed
qed simp

section \<open>Requests one after the other\<close>

text \<open>An execution of the program of a request is a run of it among the others.\<close>

lemma exec_steps:
  "exec p es d = (resp, d') \<Longrightarrow>
     (step site h Work)\<^sup>*\<^sup>* \<lparr>store = d, in_flight = ps @ (q, p) # qs, sent = rs\<rparr>
       \<lparr>store = d', in_flight = ps @ qs, sent = rs @ [(q, resp)]\<rparr>"
proof (induction p arbitrary: es d)
  case (Done x)
  then show ?case
    using respond [of "\<lparr>store = d, in_flight = ps @ (q, Done x) # qs, sent = rs\<rparr>" ps q x qs site h] by (simp add: sql)
next
  case (Query p s k)
  obtain rep d1 where q: "query (es 0) p s d = (rep, d1)" by fastforce
  have e: "exec (k rep) (\<lambda>n. es (Suc n)) d1 = (resp, d')" using Query.prems q by (simp add: sql)
  have "step site h Work \<lparr>store = d, in_flight = ps @ (q, Query p s k) # qs, sent = rs\<rparr>
      \<lparr>store = d1, in_flight = ps @ (q, k rep) # qs, sent = rs\<rparr>"
    using statement [of "\<lparr>store = d, in_flight = ps @ (q, Query p s k) # qs, sent = rs\<rparr>" ps q p s k qs] q by simp
  then show ?case using Query.IH [OF rangeI e] by (rule converse_rtranclp_into_rtranclp)
qed

lemma work_reachable: "(step site h Work)\<^sup>*\<^sup>* w w' \<Longrightarrow> reachable_from site h w w'"
  by (induction rule: rtranclp_induct) (auto intro: reachable_from.intros)

text \<open>An acknowledged application, as the tables have it.\<close>

definition stored_as :: "Handler \<Rightarrow> tables \<Rightarrow> string \<Rightarrow> ApplicationInput \<Rightarrow> bool" where
  "stored_as h t i a \<longleftrightarrow> (\<exists>row \<in> set (applications t). ID row = i \<and> row_encodes (repo h) a row) \<and>
     registry (repo h) t (Hash (bidx (repo h)) (in_Phone a)) = Some a"

lemma schema_phones: "sorted_wrt (\<lambda>r s. \<not> clash r s) rows \<Longrightarrow> distinct (map PhoneBIdx rows)"
  by (induction rows) (auto simp: clash_defs)

lemma registry_row:
  assumes "cipher_ok (cipher (repo h))" "store_ok (repo h) t" "row \<in> set (applications t)" "row_encodes (repo h) a row"
  shows "stored_as h t (ID row) a"
proof -
  have "distinct (map PhoneBIdx (applications t))"
    using assms(2) by (intro schema_phones) (simp add: store_ok_def schema_ok_def)
  then have "registry (repo h) t (PhoneBIdx row) = Some (decode_row (repo h) row)"
    unfolding registry_def using assms(3) by (intro map_of_is_SomeI) (auto simp: o_def)
  moreover have "PhoneBIdx row = Hash (bidx (repo h)) (in_Phone a)" using assms(4) by (simp add: row_encodes_def)
  ultimately show ?thesis
    using assms decode_encodes [OF assms(1,4)] by (auto simp: stored_as_def)
qed

lemma asked_unique: "asked q a \<Longrightarrow> asked q b \<Longrightarrow> a = b"
  by (auto simp: asked_def)

lemma acknowledged_row:
  assumes "reachable_from site h (initial d) w" "x \<in> set (sent w)" "snd x = created i" "asked (fst x) a"
  obtains row where "row \<in> set (applications (primary_tables (store w)))" "ID row = i" "row_encodes (repo h) a row"
proof -
  have "i \<in> backing h (fst x) (store w)" using backed_initial [OF assms(1)] assms(2,3) by (auto simp: backed_def)
  then obtain b row where "asked (fst x) b" "row \<in> set (applications (primary_tables (store w)))" "ID row = i"
    "row_encodes (repo h) b row" by (auto simp: backing_def)
  then show thesis using that asked_unique [OF assms(4)] by blast
qed

text \<open>An acknowledgement of an application with a phone.\<close>

definition acknowledges :: "string \<Rightarrow> api_request \<times> response \<Rightarrow> bool" where
  "acknowledges phone x \<longleftrightarrow> (\<exists>a i. asked (fst x) a \<and> normalize (in_Phone a) = normalize phone \<and> snd x = created i)"

lemma two_of:
  "1 < length (filter P xs) \<Longrightarrow> \<exists>us x vs y ws. xs = us @ x # vs @ y # ws \<and> P x \<and> P y"
proof -
  assume "1 < length (filter P xs)"
  then obtain x y r where "filter P xs = x # y # r"
    by (metis length_0_conv length_Suc_conv less_nat_zero_code less_one nat_neq_iff neq_Nil_conv One_nat_def)
  then show ?thesis by (auto simp: filter_eq_Cons_iff) (metis append.assoc append_Cons filter_eq_Cons_iff)
qed

lemma same_phone_same_row:
  assumes "schema_ok t" "row \<in> set (applications t)" "row' \<in> set (applications t)"
    "row_encodes r a row" "row_encodes r b row'" "normalize (in_Phone a) = normalize (in_Phone b)"
  shows "row = row'"
proof -
  have "PhoneBIdx row = PhoneBIdx row'"
    using assms(4,5) hmac_index.hash_norm [OF assms(6)] by (simp add: row_encodes_def)
  moreover have "distinct (map PhoneBIdx (applications t))"
    using assms(1) by (intro schema_phones) (simp add: schema_ok_def)
  ultimately show ?thesis using assms(2,3) by (auto simp: distinct_map dest: inj_onD)
qed

section \<open>A sample run, for the witnesses\<close>

definition no_site :: siteverify where
  "no_site = (\<lambda>_. Inl [])"

definition sample_apply :: api_request where
  "sample_apply = Apply (sample_request sample_application) sample_entropy"

definition sample_world :: world where
  "sample_world = \<lparr>store = sample_created, in_flight = [], sent = [(sample_apply, created ''1b4e28ba'')]\<rparr>"

definition sample_arrived :: world where
  "sample_arrived = \<lparr>store = empty_db, in_flight = [(sample_apply, serve no_site sample_handler sample_apply)], sent = []\<rparr>"

lemma sample_arrives: "reachable_from no_site sample_handler (initial empty_db) sample_arrived"
  using reachable_from.step [OF reachable_from.start arrive, of no_site sample_handler "initial empty_db" sample_apply]
  by (simp add: sample_arrived_def initial_def)

lemma sample_works: "(step no_site sample_handler Work)\<^sup>*\<^sup>* sample_arrived sample_world"
  using exec_steps [OF sample_application_passes [folded no_site_def], of no_site sample_handler "[]" sample_apply "[]" "[]"]
  by (simp add: sample_arrived_def sample_world_def sample_apply_def)

lemma sample_reachable: "reachable_from no_site sample_handler (initial empty_db) sample_world"
  by (rule reachable_trans [OF work_reachable [OF sample_works] sample_arrives])

lemma sample_asked: "asked sample_apply a \<longleftrightarrow> a = sample_application"
  by (auto simp: asked_def sample_apply_def sample_request_def)

lemma empty_service_ok: "both (service_ok h) empty_db"
  using empty_store_ok by (simp add: both_def service_ok_def accepted_rows_def empty_db_def)

section \<open>Properties\<close>

text \<open>
  C3. Under any interleaving of any number of requests, with replication and crashes at any time:
  in both databases the unique indexes hold, every column of personal data is a ciphertext under the
  service's key, every code is the code of its row, and every application passed validation with a
  district of its division.
\<close>

theorem reachable_store:
  assumes "both (service_ok h) d" "reachable_from site h (initial d) w"
  shows "both (\<lambda>t. store_ok (repo h) t \<and> accepted_rows h t) (store w)"
  using service.inv_reachable [OF assms(2,1)] by (simp add: both_def service_ok_def)

theorem reachable_store_witness: "both (\<lambda>t. store_ok (repo sample_handler) t \<and> accepted_rows sample_handler t) (store sample_world)"
  by (rule reachable_store [OF empty_service_ok sample_reachable])

text \<open>
  C4. No acknowledged application is lost: once a client was told an id, its request was an accepted
  application, and in every later state, whatever runs concurrently, the primary has a row with that id that
  encodes the application of that very request, and the registry maps its phone to it, as submitted. No
  registered application is ever replaced or removed.
\<close>

theorem acknowledged_durable:
  assumes "repo_keyed (repo h)" "both (service_ok h) d" "reachable_from site h (initial d) w"
    "(q, created i) \<in> set (sent w)" "reachable_from site h w w'"
  shows "(\<exists>c rnd a. q = Apply c rnd \<and> parsed_body c = Some a \<and> accepted h a \<and>
      stored_as h (primary_tables (store w')) i a) \<and>
    registry (repo h) (primary_tables (store w)) \<subseteq>\<^sub>m registry (repo h) (primary_tables (store w'))"
proof -
  have grow: "grows (primary_tables (store w)) (primary_tables (store w'))" by (rule grows_reachable [OF assms(5)])
  have "i \<in> backing h q (store w)" using backed_initial [OF assms(3)] assms(4) by (auto simp: backed_def)
  then obtain a row where a: "asked q a" "accepted h a"
    and row: "row \<in> set (applications (primary_tables (store w')))" "ID row = i" "row_encodes (repo h) a row"
    using backing_grows [OF grow, of h q] unfolding backing_def by blast
  have "store_ok (repo h) (primary_tables (store w'))"
    using service.inv_reachable [OF reachable_trans [OF assms(5,3)] assms(2)] by (simp add: both_def service_ok_def)
  then have "stored_as h (primary_tables (store w')) i a"
    using registry_row [OF repo_keyed(1) [OF assms(1)] _ row(1,3)] row(2) by simp
  then show ?thesis using a registry_grows [OF grow] unfolding asked_def by blast
qed

theorem acknowledged_durable_witness:
  "stored_as sample_handler (primary_tables (catch_up sample_created)) ''1b4e28ba'' sample_application"
proof -
  have "repo_keyed (repo sample_handler)" using sample_keyed by (simp add: sample_handler_def NewHandler_def)
  moreover have "reachable_from no_site sample_handler sample_world (sample_world\<lparr>store := catch_up (store sample_world)\<rparr>)"
    by (rule reachable_from.step [OF reachable_from.start replicate])
  ultimately show ?thesis
    using acknowledged_durable [OF _ empty_service_ok sample_reachable, of sample_apply "''1b4e28ba''"
        "sample_world\<lparr>store := catch_up (store sample_world)\<rparr>"]
    by (simp add: sample_world_def sample_apply_def sample_request_def)
qed

text \<open>
  C18. One acknowledgement per phone: however many requests with phones that normalize alike run at
  once, double clicks, retries, on any instances, at most one of them is ever answered with an id,
  and no id is answered twice.
\<close>

theorem one_acknowledgement_per_phone:
  assumes "both (service_ok h) d" "reachable_from site h (initial d) w"
  shows "length (filter (acknowledges phone) (sent w)) \<le> 1 \<and>
    length (filter (\<lambda>x. snd x = created i) (sent w)) \<le> 1"
proof
  have "claims h i w \<le> 1" for i using backed_initial [OF assms(2)] by (simp add: backed_def)
  then have ids: "length (filter (\<lambda>x. snd x = created i) (sent w)) \<le> 1" for i
    using add_leD1 unfolding claims_def case_prod_unfold by blast
  then show "length (filter (\<lambda>x. snd x = created i) (sent w)) \<le> 1" .
  have ok: "schema_ok (primary_tables (store w))"
    using service.inv_reachable [OF assms(2,1)] by (simp add: both_def service_ok_def store_ok_def)
  show "length (filter (acknowledges phone) (sent w)) \<le> 1"
  proof (rule ccontr)
    assume "\<not> length (filter (acknowledges phone) (sent w)) \<le> 1"
    then obtain us x vs y ws where xy: "sent w = us @ x # vs @ y # ws" "acknowledges phone x" "acknowledges phone y"
      using two_of [of "acknowledges phone" "sent w"] by auto
    obtain a i where a: "asked (fst x) a" "normalize (in_Phone a) = normalize phone" "snd x = created i"
      using xy(2) unfolding acknowledges_def by blast
    obtain b j where b: "asked (fst y) b" "normalize (in_Phone b) = normalize phone" "snd y = created j"
      using xy(3) unfolding acknowledges_def by blast
    have mem: "x \<in> set (sent w)" "y \<in> set (sent w)" by (simp_all add: xy(1))
    obtain r where r: "r \<in> set (applications (primary_tables (store w)))" "ID r = i" "row_encodes (repo h) a r"
      using assms(2) mem(1) a(3,1) by (rule acknowledged_row)
    obtain s where s: "s \<in> set (applications (primary_tables (store w)))" "ID s = j" "row_encodes (repo h) b s"
      using assms(2) mem(2) b(3,1) by (rule acknowledged_row)
    have "r = s" using same_phone_same_row [OF ok r(1) s(1) r(3) s(3)] a(2) b(2) by simp
    then have "i = j" using r(2) s(2) by simp
    then have "2 \<le> length (filter (\<lambda>x. snd x = created i) (sent w))" using a(3) b(3) by (simp add: xy(1))
    then show False using ids [of i] by simp
  qed
qed

theorem one_acknowledgement_per_phone_witness:
  "length (filter (acknowledges ''01712-345678'') (sent sample_world)) = 1"
proof -
  have "acknowledges ''01712-345678'' (sample_apply, created ''1b4e28ba'')"
    by (auto simp: acknowledges_def sample_asked sample_application_def)
  then have "1 \<le> length (filter (acknowledges ''01712-345678'') (sent sample_world))" by (simp add: sample_world_def)
  then show ?thesis
    using one_acknowledgement_per_phone [OF empty_service_ok sample_reachable, of "''01712-345678''" "[]"]
    by linarith
qed

text \<open>
  C8. Every request is answered once, after at most two statements: when no more requests arrive,
  work stops after at most three steps per request in flight, it can always go on while a request
  is in flight, and responses and requests in flight together stay as many as they are. So a graceful
  shutdown drains.
\<close>

theorem requests_drain:
  assumes "reachable_from site h (initial d) w" "(step site h Work ^^ k) w w'"
  shows "k \<le> 3 * length (in_flight w) \<and>
    (in_flight w' = [] \<or> (\<exists>v. step site h Work w' v)) \<and>
    length (sent w') + length (in_flight w') = length (sent w) + length (in_flight w)"
proof -
  have "\<forall>x \<in> set (in_flight w). within (snd x) 2"
    by (rule within_reachable [OF assms(1)]) (simp add: initial_def)
  then have "list_all2 within (map snd (in_flight w)) (replicate (length (in_flight w)) 2)"
    by (simp add: list_all2_conv_all_nth)
  from work_bound [OF assms(2) this] show ?thesis
    using work_count [OF assms(2)] work_possible by (auto simp: sum_list_replicate)
qed

theorem requests_drain_witness:
  "\<exists>k \<le> 3. (step no_site sample_handler Work ^^ k) sample_arrived sample_world"
proof -
  obtain k where k: "(step no_site sample_handler Work ^^ k) sample_arrived sample_world"
    using sample_works by (auto simp: rtranclp_power)
  then show ?thesis using requests_drain [OF sample_arrives k] by (auto simp: sample_arrived_def)
qed

text \<open>
  C20. Every request ends: whatever the database and the network answer, its program sends at most two statements, and
  none when the input is rejected or the tree is asked for.
\<close>

theorem serve_bounded:
  "within (serve site h q) 2 \<and>
   (case q of
      Apply c rnd \<Rightarrow> (case parsed_body c of
          Some a \<Rightarrow> if bot_check site h c \<and> accepted h a then True else within (serve site h q) 0
        | None \<Rightarrow> within (serve site h q) 0)
    | Geo_tree \<Rightarrow> within (serve site h q) 0
    | _ \<Rightarrow> True)"
proof (cases q)
  case (Apply c rnd)
  have "within (serve site h q) 0" if "\<not> (\<exists>a. parsed_body c = Some a \<and> bot_check site h c \<and> accepted h a)"
    using that application_gate [of site h c rnd] by (auto simp: Apply)
  then show ?thesis using within_serve [of site h q] by (auto simp: Apply split: option.split)
qed (use within_serve [of site h q] in \<open>simp_all add: HandleGeo_def\<close>)

end
