(* ===== verification/Go_Strconv.thy ===== *)
theory Go_Strconv
  imports Go_Time "HOL-Library.Word"
begin

text \<open>
  What the configuration uses of \<open>strconv\<close> and of machine integers: \<open>Atoi\<close> and \<open>ParseBool\<close>, and
  values of type \<open>int\<close> and \<open>time.Duration\<close>, which are 64 bit words whose arithmetic wraps.
\<close>

type_synonym int64 = "64 word"
type_synonym int32 = "32 word"

abbreviation in_int64 :: "int \<Rightarrow> bool" where
  "in_int64 n \<equiv> - (2 ^ 63) \<le> n \<and> n < 2 ^ 63"

definition decimal :: "string \<Rightarrow> int" where
  "decimal ds = foldl (\<lambda>n c. 10 * n + int (digit_val c)) 0 ds"

definition signed_decimal :: "bool \<Rightarrow> string \<Rightarrow> int option" where
  "signed_decimal neg ds =
     (if ds = [] \<or> \<not> list_all is_digit ds then None
      else let n = (if neg then - decimal ds else decimal ds) in if in_int64 n then Some n else None)"

text \<open>An optional sign and at least one digit; a value that does not fit is an error.\<close>

definition Atoi :: "string \<Rightarrow> int option" where
  "Atoi s =
     (case s of
        [] \<Rightarrow> None
      | c # r \<Rightarrow> if c = CHR ''-'' then signed_decimal True r
                else if c = CHR ''+'' then signed_decimal False r
                else signed_decimal False s)"

definition ParseBool :: "string \<Rightarrow> bool option" where
  "ParseBool s =
     (if s \<in> {''1'', ''t'', ''T'', ''true'', ''TRUE'', ''True''} then Some True
      else if s \<in> {''0'', ''f'', ''F'', ''false'', ''FALSE'', ''False''} then Some False
      else None)"

lemma Atoi_range: "Atoi s = Some n \<Longrightarrow> in_int64 n"
  by (auto simp: Atoi_def signed_decimal_def Let_def split: list.splits if_splits)

text \<open>A product that fits is exact, one that does not wraps around.\<close>

definition wrap64 :: "int \<Rightarrow> int" where
  "wrap64 n = (n + 2 ^ 63) mod 2 ^ 64 - 2 ^ 63"

definition wrap32 :: "int \<Rightarrow> int" where
  "wrap32 n = (n + 2 ^ 31) mod 2 ^ 32 - 2 ^ 31"

lemma sint_word64: "sint (word_of_int n :: int64) = wrap64 n"
  unfolding wrap64_def
  by (simp add: sint_sbintrunc' signed_take_bit_eq_take_bit_shift take_bit_eq_mod)

lemma sint_word32: "sint (word_of_int n :: int32) = wrap32 n"
  unfolding wrap32_def
  by (simp add: sint_sbintrunc' signed_take_bit_eq_take_bit_shift take_bit_eq_mod)

lemma wrap64_id: "in_int64 n \<Longrightarrow> wrap64 n = n"
  by (simp add: wrap64_def)

end
