(* ===== verification/Config.thy ===== *)
theory Config
  imports Go_Strconv Go_Encoding Crypto Geo "HOL-Library.Sublist"
begin

text \<open>
  The package \<open>internal/config\<close>: the configuration is a function of the process environment, where
  an unset variable reads as the empty string. Numbers are 64 bit words, as Go's \<open>int\<close> and
  \<open>time.Duration\<close> on the platforms served, and the sizes of the pools are 32 bit words.
\<close>

section \<open>Loading\<close>

type_synonym environment = "string \<Rightarrow> string"

datatype key_error =
    KeyRequired
  | NotBase64
  | WrongLength nat

datatype config_error =
    KeyError string key_error
  | DatabaseURLRequired
  | OriginsRequired
  | TurnstileSecretRequired

record Config =
  Env :: string
  Prod :: bool
  HTTPPort :: string
  BodyLimitBytes :: int64
  ReadTimeout :: int64
  WriteTimeout :: int64
  IdleTimeout :: int64
  ShutdownTimeout :: int64
  DatabaseURL :: string
  DatabaseReplicaURL :: string
  DBMaxConns :: int32
  DBMinConns :: int32
  DBMaxConnLifetime :: int64
  RedisURL :: string
  CORSAllowedOrigins :: "string list"
  TrustedProxies :: "string list"
  PIIEncryptionKey :: bytes
  BlindIndexKey :: bytes
  VerificationHMACKey :: bytes
  TurnstileSecretKey :: string
  TurnstileEnabled :: bool
  RateGeneralPerMin :: int64
  RateSubmitPerMin :: int64
  RateLookupPerMin :: int64
  CurrentBatch :: string
  AutoMigrate :: bool

definition getEnv :: "environment \<Rightarrow> string \<Rightarrow> string \<Rightarrow> string" where
  "getEnv env k def = (if env k \<noteq> [] then env k else def)"

definition getInt :: "environment \<Rightarrow> string \<Rightarrow> int \<Rightarrow> int" where
  "getInt env k def =
     (if env k \<noteq> [] then (case Atoi (env k) of Some n \<Rightarrow> n | None \<Rightarrow> def) else def)"

definition getBool :: "environment \<Rightarrow> string \<Rightarrow> bool \<Rightarrow> bool" where
  "getBool env k def =
     (if env k \<noteq> [] then (case ParseBool (env k) of Some b \<Rightarrow> b | None \<Rightarrow> def) else def)"

definition second :: int64 where
  "second = 1000000000"

definition minute :: int64 where
  "minute = 60 * second"

definition getSeconds :: "environment \<Rightarrow> string \<Rightarrow> int \<Rightarrow> int64" where
  "getSeconds env k def = word_of_int (getInt env k def) * second"

definition dev_key :: "string \<Rightarrow> bytes" where
  "dev_key name = take 32 (bytes_of_string (''dev-insecure-key::'' @ name) @ replicate 32 0)"

definition decodeKey :: "environment \<Rightarrow> string \<Rightarrow> key_error + bytes" where
  "decodeKey env name =
     (let raw = env name
      in if raw = [] \<or> prefix ''CHANGE_ME'' raw then
           (if env ''APP_ENV'' = ''production'' then Inl KeyRequired else Inr (dev_key name))
         else case b64_decode raw of
             None \<Rightarrow> Inl NotBase64
           | Some key \<Rightarrow> if length key \<noteq> 32 then Inl (WrongLength (length key)) else Inr key)"

definition splitCSV :: "string \<Rightarrow> string list" where
  "splitCSV s =
     (if trim_space s = [] then []
      else filter (\<lambda>t. t \<noteq> []) (map trim_space (split CHR '','' s)))"

definition validate_config :: "Config \<Rightarrow> config_error option" where
  "validate_config c =
     (if DatabaseURL c = [] then Some DatabaseURLRequired
      else if Prod c then
        (if CORSAllowedOrigins c = [] then Some OriginsRequired
         else if TurnstileEnabled c \<and> TurnstileSecretKey c = [] then Some TurnstileSecretRequired
         else None)
      else None)"

definition default_batch :: string where
  "default_batch = bengali [2535, 2478, 32, 2476, 2509, 2479, 2494, 2458]"

text \<open>The composite literal that \<open>Load\<close> starts from: everything but the keys.\<close>

definition from_env :: "environment \<Rightarrow> Config" where
  "from_env env =
     \<lparr>Env = getEnv env ''APP_ENV'' ''development'',
      Prod = (getEnv env ''APP_ENV'' ''development'' = ''production''),
      HTTPPort = getEnv env ''PORT'' (getEnv env ''HTTP_PORT'' ''8080''),
      BodyLimitBytes = word_of_int (getInt env ''HTTP_BODY_LIMIT_BYTES'' 8388608),
      ReadTimeout = getSeconds env ''READ_TIMEOUT_SECONDS'' 15,
      WriteTimeout = getSeconds env ''WRITE_TIMEOUT_SECONDS'' 20,
      IdleTimeout = getSeconds env ''IDLE_TIMEOUT_SECONDS'' 60,
      ShutdownTimeout = getSeconds env ''SHUTDOWN_TIMEOUT_SECONDS'' 25,
      DatabaseURL = env ''DATABASE_URL'',
      DatabaseReplicaURL = env ''DATABASE_REPLICA_URL'',
      DBMaxConns = word_of_int (getInt env ''DB_MAX_CONNS'' 25),
      DBMinConns = word_of_int (getInt env ''DB_MIN_CONNS'' 2),
      DBMaxConnLifetime = word_of_int (getInt env ''DB_MAX_CONN_LIFETIME_MINUTES'' 30) * minute,
      RedisURL = env ''REDIS_URL'',
      CORSAllowedOrigins = splitCSV (getEnv env ''CORS_ALLOWED_ORIGINS'' []),
      TrustedProxies = splitCSV (getEnv env ''TRUSTED_PROXIES'' ''127.0.0.1,::1''),
      PIIEncryptionKey = [], BlindIndexKey = [], VerificationHMACKey = [],
      TurnstileSecretKey = env ''TURNSTILE_SECRET_KEY'',
      TurnstileEnabled = getBool env ''TURNSTILE_ENABLED'' True,
      RateGeneralPerMin = word_of_int (getInt env ''RATE_LIMIT_GENERAL_PER_MIN'' 120),
      RateSubmitPerMin = word_of_int (getInt env ''RATE_LIMIT_SUBMIT_PER_MIN'' 5),
      RateLookupPerMin = word_of_int (getInt env ''RATE_LIMIT_LOOKUP_PER_MIN'' 10),
      CurrentBatch = getEnv env ''CURRENT_BATCH'' default_batch,
      AutoMigrate = getBool env ''AUTO_MIGRATE'' True\<rparr>"

definition Load :: "environment \<Rightarrow> config_error + Config" where
  "Load env =
     (case decodeKey env ''PII_ENCRYPTION_KEY'' of
        Inl err \<Rightarrow> Inl (KeyError ''PII_ENCRYPTION_KEY'' err)
      | Inr pii \<Rightarrow>
     (case decodeKey env ''BLIND_INDEX_KEY'' of
        Inl err \<Rightarrow> Inl (KeyError ''BLIND_INDEX_KEY'' err)
      | Inr bix \<Rightarrow>
     (case decodeKey env ''VERIFICATION_HMAC_KEY'' of
        Inl err \<Rightarrow> Inl (KeyError ''VERIFICATION_HMAC_KEY'' err)
      | Inr sig \<Rightarrow>
          let c = (from_env env)\<lparr>PIIEncryptionKey := pii, BlindIndexKey := bix, VerificationHMACKey := sig\<rparr>
          in case validate_config c of
               Some err \<Rightarrow> Inl err
             | None \<Rightarrow> Inr c)))"

section \<open>Keys\<close>

lemma length_dev_key [simp]: "length (dev_key name) = 32"
  by (simp add: dev_key_def)

lemma decodeKey_length: "decodeKey env name = Inr key \<Longrightarrow> length key = 32"
  by (auto simp: decodeKey_def Let_def split: if_splits option.splits)

text \<open>A key that an operator really set.\<close>

definition key_set :: "environment \<Rightarrow> string \<Rightarrow> bytes \<Rightarrow> bool" where
  "key_set env name key \<longleftrightarrow> env name \<noteq> [] \<and> \<not> prefix ''CHANGE_ME'' (env name) \<and>
     b64_decode (env name) = Some key \<and> length key = 32"

definition placeholder :: "environment \<Rightarrow> string \<Rightarrow> bool" where
  "placeholder env name \<longleftrightarrow> env name = [] \<or> prefix ''CHANGE_ME'' (env name)"

lemma decodeKey_iff:
  "decodeKey env name = Inr key \<longleftrightarrow> key_set env name key \<or>
     (placeholder env name \<and> env ''APP_ENV'' \<noteq> ''production'' \<and> key = dev_key name)"
  by (auto simp: decodeKey_def key_set_def placeholder_def Let_def split: option.split)

lemma Load_cases:
  assumes "Load env = Inr c"
  obtains pii bix sig where "decodeKey env ''PII_ENCRYPTION_KEY'' = Inr pii"
    "decodeKey env ''BLIND_INDEX_KEY'' = Inr bix" "decodeKey env ''VERIFICATION_HMAC_KEY'' = Inr sig"
    "c = (from_env env)\<lparr>PIIEncryptionKey := pii, BlindIndexKey := bix, VerificationHMACKey := sig\<rparr>"
    "validate_config c = None"
  using assms by (auto simp: Load_def Let_def split: sum.splits option.splits)

lemma from_env_Prod: "Prod (from_env env) \<longleftrightarrow> env ''APP_ENV'' = ''production''"
  by (simp add: from_env_def getEnv_def)

text \<open>What an environment must have for the service to start.\<close>

definition key_ok :: "environment \<Rightarrow> string \<Rightarrow> bool" where
  "key_ok env name \<longleftrightarrow> (\<exists>key. key_set env name key) \<or> (placeholder env name \<and> env ''APP_ENV'' \<noteq> ''production'')"

definition production_ok :: "environment \<Rightarrow> bool" where
  "production_ok env \<longleftrightarrow> splitCSV (env ''CORS_ALLOWED_ORIGINS'') \<noteq> [] \<and>
     (getBool env ''TURNSTILE_ENABLED'' True = False \<or> env ''TURNSTILE_SECRET_KEY'' \<noteq> [])"

lemma key_ok_iff: "key_ok env name \<longleftrightarrow> (\<exists>key. decodeKey env name = Inr key)"
  by (auto simp: key_ok_def decodeKey_iff)

lemma getEnv_empty [simp]: "getEnv env k [] = env k"
  by (simp add: getEnv_def)

lemma validate_from_env:
  "validate_config ((from_env env)\<lparr>PIIEncryptionKey := a, BlindIndexKey := b, VerificationHMACKey := s\<rparr>) = None \<longleftrightarrow>
     env ''DATABASE_URL'' \<noteq> [] \<and> (if env ''APP_ENV'' = ''production'' then production_ok env else True)"
  by (simp add: validate_config_def from_env_def production_ok_def) (simp add: getEnv_def)

lemma Load_Inr_iff:
  "(\<exists>c. Load env = Inr c) \<longleftrightarrow>
     (\<exists>a. decodeKey env ''PII_ENCRYPTION_KEY'' = Inr a) \<and> (\<exists>b. decodeKey env ''BLIND_INDEX_KEY'' = Inr b) \<and>
     (\<exists>s. decodeKey env ''VERIFICATION_HMAC_KEY'' = Inr s) \<and>
     env ''DATABASE_URL'' \<noteq> [] \<and> (if env ''APP_ENV'' = ''production'' then production_ok env else True)"
  unfolding Load_def Let_def
  by (simp add: validate_from_env option.case_eq_if split: sum.split)

section \<open>Numbers\<close>

lemma getInt_range: "in_int64 def \<Longrightarrow> in_int64 (getInt env k def)"
  using Atoi_range by (auto simp: getInt_def split: option.split)

lemma sint_times: "sint (word_of_int n * (word_of_int m :: int64)) = wrap64 (n * m)"
  by (simp only: wi_hom_mult sint_word64)

lemma sint_second: "sint (word_of_int n * second) = wrap64 (n * 1000000000)"
proof -
  have "second = word_of_int 1000000000" by (simp add: second_def)
  then show ?thesis by (metis sint_times)
qed

lemma sint_minute: "sint (word_of_int n * minute) = wrap64 (n * 60000000000)"
proof -
  have "minute = word_of_int 60000000000" by (simp add: minute_def second_def)
  then show ?thesis by (metis sint_times)
qed

text \<open>
  What a numeral means, independently of how it is parsed: an optional sign and at least one digit, each
  counted by its position.
\<close>

definition positional :: "string \<Rightarrow> int" where
  "positional ds = (\<Sum>i < length ds. int (digit_val (ds ! i)) * 10 ^ (length ds - 1 - i))"

definition reads :: "string \<Rightarrow> int \<Rightarrow> bool" where
  "reads s n \<longleftrightarrow> (\<exists>sign ds. s = sign @ ds \<and> sign \<in> {[], ''+'', ''-''} \<and> ds \<noteq> [] \<and> list_all is_digit ds \<and>
     n = (if sign = ''-'' then - positional ds else positional ds))"

lemma decimal_snoc: "decimal (ds @ [c]) = 10 * decimal ds + int (digit_val c)"
  by (simp add: decimal_def)

lemma positional_snoc: "positional (ds @ [c]) = 10 * positional ds + int (digit_val c)"
proof -
  have "int (digit_val ((ds @ [c]) ! i)) * 10 ^ (length ds - i) = 10 * (int (digit_val (ds ! i)) * 10 ^ (length ds - 1 - i))"
    if "i < length ds" for i
  proof -
    have "length ds - i = Suc (length ds - 1 - i)" using that by simp
    then show ?thesis using that by (simp add: nth_append)
  qed
  then have "(\<Sum>i < length ds. int (digit_val ((ds @ [c]) ! i)) * 10 ^ (length ds - i)) = 10 * positional ds"
    unfolding positional_def sum_distrib_left by (intro sum.cong) auto
  then show ?thesis unfolding positional_def [of "ds @ [c]"] by simp
qed

lemma decimal_positional: "decimal ds = positional ds"
proof (induction ds rule: rev_induct)
  case Nil
  show ?case by (simp add: decimal_def positional_def)
qed (simp add: decimal_snoc positional_snoc)

lemma reads_cases: "reads s n \<longleftrightarrow> (s \<noteq> [] \<and> list_all is_digit s \<and> n = positional s) \<or>
    (\<exists>ds. s = CHR ''+'' # ds \<and> ds \<noteq> [] \<and> list_all is_digit ds \<and> n = positional ds) \<or>
    (\<exists>ds. s = CHR ''-'' # ds \<and> ds \<noteq> [] \<and> list_all is_digit ds \<and> n = - positional ds)"
proof -
  have "reads s n \<longleftrightarrow> (\<exists>sign \<in> {[], ''+'', ''-''}. \<exists>ds. s = sign @ ds \<and> ds \<noteq> [] \<and> list_all is_digit ds \<and>
     n = (if sign = ''-'' then - positional ds else positional ds))"
    unfolding reads_def by blast
  then show ?thesis by simp
qed

lemma reads_Cons: "reads (c # r) n \<longleftrightarrow>
    (if c = CHR ''-'' then r \<noteq> [] \<and> list_all is_digit r \<and> n = - positional r
     else if c = CHR ''+'' then r \<noteq> [] \<and> list_all is_digit r \<and> n = positional r
     else list_all is_digit (c # r) \<and> n = positional (c # r))"
  unfolding reads_cases by (simp add: is_digit_def)

lemma reads_Nil [simp]: "\<not> reads [] n"
  by (simp add: reads_cases)

lemma signed_decimal_Some:
  "signed_decimal neg ds = Some n \<longleftrightarrow>
     (ds \<noteq> [] \<and> list_all is_digit ds \<and> n = (if neg then - positional ds else positional ds)) \<and> in_int64 n"
  unfolding signed_decimal_def Let_def decimal_positional by (cases neg) (auto simp del: power_numeral)

lemma Atoi_iff: "Atoi s = Some n \<longleftrightarrow> reads s n \<and> in_int64 n"
  by (cases s) (auto simp: Atoi_def reads_Cons signed_decimal_Some simp del: power_numeral)

lemma getInt_reads:
  "if \<exists>n. reads (env k) n \<and> in_int64 n then reads (env k) (getInt env k def) \<and> in_int64 (getInt env k def)
   else getInt env k def = def"
  unfolding Atoi_iff [symmetric] by (auto simp: getInt_def Atoi_def)

lemma wrap64_exact: "wrap64 n = n \<longleftrightarrow> in_int64 n"
proof
  assume "wrap64 n = n"
  moreover have "- (2 ^ 63) \<le> wrap64 n" "wrap64 n < 2 ^ 63"
    unfolding wrap64_def using pos_mod_bound [of "2 ^ 64" "n + 2 ^ 63"] by simp_all
  ultimately show "in_int64 n" by simp
qed (rule wrap64_id)

lemma wrap32_exact: "wrap32 n = n \<longleftrightarrow> - (2 ^ 31) \<le> n \<and> n < 2 ^ 31"
proof
  assume "wrap32 n = n"
  moreover have "- (2 ^ 31) \<le> wrap32 n" "wrap32 n < 2 ^ 31"
    unfolding wrap32_def using pos_mod_bound [of "2 ^ 32" "n + 2 ^ 31"] by simp_all
  ultimately show "- (2 ^ 31) \<le> n \<and> n < 2 ^ 31" by simp
qed (simp add: wrap32_def)

lemma second_exact: "wrap64 (n * 1000000000) = n * 1000000000 \<longleftrightarrow> \<bar>n\<bar> \<le> 9223372036"
  unfolding wrap64_exact by (simp add: abs_le_iff) linarith

lemma minute_exact: "wrap64 (n * 60000000000) = n * 60000000000 \<longleftrightarrow> \<bar>n\<bar> \<le> 153722867"
  unfolding wrap64_exact by (simp add: abs_le_iff) linarith

definition sample_environment :: environment where
  "sample_environment k = (if k = ''DATABASE_URL'' then ''postgres://db'' else [])"

lemma sample_loads: "\<exists>c. Load sample_environment = Inr c"
proof -
  have "key_ok sample_environment k" if "k \<noteq> ''DATABASE_URL''" for k
    using that by (simp add: key_ok_def placeholder_def sample_environment_def)
  then show ?thesis
    unfolding Load_Inr_iff key_ok_iff [symmetric] by (simp add: sample_environment_def)
qed

section \<open>Properties\<close>

text \<open>
  C13. Start-up fails fast: \<open>Load\<close> succeeds exactly when every key is set to the base64 of 32 bytes, or is a
  placeholder outside production, the database is named, and in production at least one origin is
  allowed and the bot check has its secret unless it is switched off, which production permits.
\<close>

theorem Load_succeeds_iff:
  "(\<exists>c. Load env = Inr c) \<longleftrightarrow>
     key_ok env ''PII_ENCRYPTION_KEY'' \<and> key_ok env ''BLIND_INDEX_KEY'' \<and> key_ok env ''VERIFICATION_HMAC_KEY'' \<and>
     env ''DATABASE_URL'' \<noteq> [] \<and> (if env ''APP_ENV'' = ''production'' then production_ok env else True)"
  unfolding key_ok_iff by (rule Load_Inr_iff)

text \<open>
  C11. The keys of a loaded configuration: each has 32 bytes, so the cipher can be made and \<open>main\<close> cannot
  fail there; in production each is the one the operator set, never the insecure key for development.
\<close>

theorem Load_keys:
  assumes "Load env = Inr c"
  shows "(\<exists>ciph. NewCipher (PIIEncryptionKey c) = Inr ciph) \<and>
    map length [PIIEncryptionKey c, BlindIndexKey c, VerificationHMACKey c] = [32, 32, 32] \<and>
    (if Prod c then key_set env ''PII_ENCRYPTION_KEY'' (PIIEncryptionKey c) \<and>
       key_set env ''BLIND_INDEX_KEY'' (BlindIndexKey c) \<and>
       key_set env ''VERIFICATION_HMAC_KEY'' (VerificationHMACKey c) else True)"
proof -
  obtain pii bix sig where k: "decodeKey env ''PII_ENCRYPTION_KEY'' = Inr pii"
    "decodeKey env ''BLIND_INDEX_KEY'' = Inr bix" "decodeKey env ''VERIFICATION_HMAC_KEY'' = Inr sig"
    and c: "c = (from_env env)\<lparr>PIIEncryptionKey := pii, BlindIndexKey := bix, VerificationHMACKey := sig\<rparr>"
    by (rule Load_cases [OF assms])
  have p: "Prod c \<longleftrightarrow> env ''APP_ENV'' = ''production''" using from_env_Prod by (simp add: c)
  show ?thesis
    unfolding p using k decodeKey_length [OF k(1)] decodeKey_length [OF k(2)] decodeKey_length [OF k(3)]
    by (auto simp: c NewCipher_def decodeKey_iff)
qed

theorem Load_keys_witness:
  "\<exists>c. Load sample_environment = Inr c \<and> length (BlindIndexKey c) = 32"
  using Load_keys sample_loads by auto

text \<open>
  C31. What becomes of the numbers. A value that is a numeral of 64 bits is that number, anything else, malformed or
  too large, is replaced by the default. Pool sizes then wrap at 32 bits, and durations, counted in
  nanoseconds, at 64 bits: a timeout is the number of seconds asked for exactly when that is at
  most 9223372036 in absolute value, the lifetime of a connection up to 153722867 minutes, and a pool size
  exactly when it fits 32 bits. Rates and the body limit are as asked for.
\<close>

theorem numbers_wrap:
  "(if \<exists>n. reads (env k) n \<and> in_int64 n then reads (env k) (getInt env k def) \<and> in_int64 (getInt env k def)
    else getInt env k def = def) \<and>
   sint (getSeconds env k def) = wrap64 (getInt env k def * 1000000000) \<and>
   (sint (getSeconds env k def) = getInt env k def * 1000000000 \<longleftrightarrow> \<bar>getInt env k def\<bar> \<le> 9223372036) \<and>
   (let c = from_env env; maxc = getInt env ''DB_MAX_CONNS'' 25; minc = getInt env ''DB_MIN_CONNS'' 2;
        life = getInt env ''DB_MAX_CONN_LIFETIME_MINUTES'' 30
    in sint (DBMaxConns c) = wrap32 maxc \<and> (sint (DBMaxConns c) = maxc \<longleftrightarrow> - (2 ^ 31) \<le> maxc \<and> maxc < 2 ^ 31) \<and>
       sint (DBMinConns c) = wrap32 minc \<and> (sint (DBMinConns c) = minc \<longleftrightarrow> - (2 ^ 31) \<le> minc \<and> minc < 2 ^ 31) \<and>
       sint (DBMaxConnLifetime c) = wrap64 (life * 60000000000) \<and>
       (sint (DBMaxConnLifetime c) = life * 60000000000 \<longleftrightarrow> \<bar>life\<bar> \<le> 153722867) \<and>
       sint (ReadTimeout c) = wrap64 (getInt env ''READ_TIMEOUT_SECONDS'' 15 * 1000000000) \<and>
       sint (BodyLimitBytes c) = getInt env ''HTTP_BODY_LIMIT_BYTES'' 8388608 \<and>
       sint (RateGeneralPerMin c) = getInt env ''RATE_LIMIT_GENERAL_PER_MIN'' 120 \<and>
       sint (RateSubmitPerMin c) = getInt env ''RATE_LIMIT_SUBMIT_PER_MIN'' 5 \<and>
       sint (RateLookupPerMin c) = getInt env ''RATE_LIMIT_LOOKUP_PER_MIN'' 10)"
  (is "?A \<and> ?B")
proof
  show ?A by (rule getInt_reads)
  have w: "sint (word_of_int (getInt env n d) :: int64) = getInt env n d" if "in_int64 d" for n d
    using getInt_range [OF that] by (simp add: sint_word64 wrap64_exact)
  show ?B
    unfolding Let_def from_env_def getSeconds_def sint_second sint_minute second_exact Config.select_convs
      minute_exact sint_word32 wrap32_exact
    by (simp add: w)
qed

end
