(* ===== verification/Logger.thy ===== *)
theory Logger
  imports Main
begin

text \<open>
  The package \<open>internal/logger\<close>: the root logger as a value, and the order of the levels, below whose
  bound a line is dropped.
\<close>

datatype log_level = DebugLevel | InfoLevel | WarnLevel | ErrorLevel

instantiation log_level :: linorder
begin

definition level_number :: "log_level \<Rightarrow> nat" where
  "level_number l = (case l of DebugLevel \<Rightarrow> 0 | InfoLevel \<Rightarrow> 1 | WarnLevel \<Rightarrow> 2 | ErrorLevel \<Rightarrow> 3)"

definition less_eq_log_level :: "log_level \<Rightarrow> log_level \<Rightarrow> bool" where
  "l \<le> m \<longleftrightarrow> level_number l \<le> level_number m"

definition less_log_level :: "log_level \<Rightarrow> log_level \<Rightarrow> bool" where
  "l < m \<longleftrightarrow> level_number l < level_number m"

instance
  by standard (auto simp: less_eq_log_level_def less_log_level_def level_number_def split: log_level.splits)

end

datatype sink =
    JSON_stdout
  | Console_stderr string

record logger =
  sink :: sink
  min_level :: log_level
  timestamp :: bool
  base_fields :: "(string \<times> string) list"
  time_format :: string

definition NewLogger :: "bool \<Rightarrow> logger" where
  "NewLogger production =
     (let timeFieldFormat = ''2006-01-02T15:04:05.999999999Z07:00''
      in if production then
           \<lparr>sink = JSON_stdout, min_level = InfoLevel, timestamp = True,
            base_fields = [(''service'', ''dyd-api'')], time_format = timeFieldFormat\<rparr>
         else
           \<lparr>sink = Console_stderr ''3:04PM'', min_level = DebugLevel, timestamp = True, base_fields = [],
            time_format = timeFieldFormat\<rparr>)"

definition emitted :: "logger \<Rightarrow> log_level \<Rightarrow> bool" where
  "emitted lg l \<longleftrightarrow> min_level lg \<le> l"

lemma emitted_New: "emitted (NewLogger production) l \<longleftrightarrow> \<not> production \<or> l \<noteq> DebugLevel"
  by (cases l; cases production) (simp_all add: emitted_def NewLogger_def less_eq_log_level_def level_number_def)

end
