(* ===== verification/Middleware.thy ===== *)
theory Middleware
  imports Handlers Config Logger
begin

text \<open>
  The package \<open>internal/middleware\<close>: what the stack is configured with. The middleware of Fiber
  itself is a library; what this code gives it (headers, origins, keys, the paths to skip, the
  answers) and what it does around the rest of the stack (logging, recovery) is defined here.
\<close>

section \<open>Security headers and CORS\<close>

record helmet_config =
  XSSProtection :: string
  ContentTypeNosniff :: string
  XFrameOptions :: string
  ReferrerPolicy :: string
  CrossOriginOpenerPolicy :: string
  CrossOriginResourcePolicy :: string
  ContentSecurityPolicy :: string
  HSTSMaxAge :: nat
  HSTSExcludeSubdomains :: bool
  HSTSPreloadEnabled :: bool
  PermissionPolicy :: string

definition SecurityHeaders :: helmet_config where
  "SecurityHeaders =
     \<lparr>XSSProtection = ''0'', ContentTypeNosniff = ''nosniff'', XFrameOptions = ''DENY'',
      ReferrerPolicy = ''no-referrer'', CrossOriginOpenerPolicy = ''same-origin'',
      CrossOriginResourcePolicy = ''same-site'',
      ContentSecurityPolicy = ''default-src '' @ [CHR 0x27] @ ''none'' @ [CHR 0x27] @
        ''; frame-ancestors '' @ [CHR 0x27] @ ''none'' @ [CHR 0x27],
      HSTSMaxAge = 63072000, HSTSExcludeSubdomains = False, HSTSPreloadEnabled = True,
      PermissionPolicy = ''geolocation=(), microphone=(), camera=()''\<rparr>"

definition joinOrigins :: "string list \<Rightarrow> string" where
  "joinOrigins origins =
     foldl (\<lambda>out (i, x). (if 0 < i then out @ '','' else out) @ x) [] (zip [0..<length origins] origins)"

record cors_config =
  AllowOrigins :: string
  AllowMethods :: string
  AllowHeaders :: string
  AllowCredentials :: bool
  MaxAge :: nat

definition cors_settings :: "string list \<Rightarrow> cors_config" where
  "cors_settings allowedOrigins =
     (let (origins, allowCreds) =
            (if 0 < length allowedOrigins then (joinOrigins allowedOrigins, True) else (''*'', False))
      in \<lparr>AllowOrigins = origins, AllowMethods = ''GET,POST,OPTIONS'',
          AllowHeaders = ''Origin,Content-Type,Accept,X-Requested-With,CF-Turnstile-Response'',
          AllowCredentials = allowCreds, MaxAge = 600\<rparr>)"

text \<open>
  \<open>cors.New\<close> of Fiber checks the settings and panics on some: with the message, or \<open>None\<close> when it
  accepts them. Documented is that it refuses the wildcard with credentials; it also refuses
  origins that are not well formed, so what it says of other settings is left open.
\<close>

type_synonym cors_new = "cors_config \<Rightarrow> string option"

definition CORS :: "cors_new \<Rightarrow> string list \<Rightarrow> string + cors_config" where
  "CORS new allowedOrigins =
     (let cfg = cors_settings allowedOrigins
      in case new cfg of Some panic \<Rightarrow> Inl panic | None \<Rightarrow> Inr cfg)"

definition cors_documented :: "cors_new \<Rightarrow> bool" where
  "cors_documented new \<longleftrightarrow> (\<forall>cfg. AllowCredentials cfg \<and> AllowOrigins cfg = ''*'' \<longrightarrow> new cfg \<noteq> None)"

lemma CORS_Inr: "CORS new origins = Inr cc \<longleftrightarrow> new (cors_settings origins) = None \<and> cc = cors_settings origins"
  by (auto simp: CORS_def Let_def split: option.split)

section \<open>Recovery and the access log\<close>

text \<open>
  How the rest of the stack ends: the status that the response has when it returns, and whether it
  returned, returned an error, or panicked.
\<close>

datatype handler_error =
    FiberError nat string
  | OtherError string

datatype ending =
    Returned
  | Returned_error handler_error
  | Panicked string

record run =
  run_status :: nat
  ending :: ending

record log_event =
  level :: log_level
  log_fields :: "(string \<times> string) list"
  log_status :: "nat option"
  msg :: string

record call_info =
  locals_requestid :: "string option"
  call_method :: string
  call_path :: string
  call_ip :: string
  latency :: string

definition requestIDOf :: "call_info \<Rightarrow> string" where
  "requestIDOf c = (case locals_requestid c of Some v \<Rightarrow> v | None \<Rightarrow> [])"

definition access_level :: "nat \<Rightarrow> log_level" where
  "access_level st = (if 500 \<le> st then ErrorLevel else if 400 \<le> st then WarnLevel else InfoLevel)"

text \<open>The line is written after \<open>Next\<close> returned; a panic passes by.\<close>

definition AccessLog :: "call_info \<Rightarrow> run \<Rightarrow> log_event list \<times> run" where
  "AccessLog c r =
     (case ending r of
        Panicked e \<Rightarrow> ([], r)
      | _ \<Rightarrow> ([\<lparr>level = access_level (run_status r),
            log_fields = [(''request_id'', requestIDOf c), (''method'', call_method c),
              (''path'', call_path c), (''latency'', latency c), (''ip'', call_ip c)],
            log_status = Some (run_status r), msg = ''request''\<rparr>], r))"

text \<open>The recovery of Fiber hands the panic to the handler given here and returns it as an error.\<close>

definition Recover :: "call_info \<Rightarrow> run \<Rightarrow> log_event list \<times> run" where
  "Recover c r =
     (case ending r of
        Panicked e \<Rightarrow>
          ([\<lparr>level = ErrorLevel, log_fields = [(''request_id'', requestIDOf c), (''path'', call_path c), (''panic'', e)],
             log_status = None, msg = ''recovered from panic''\<rparr>], r\<lparr>ending := Returned_error (OtherError e)\<rparr>)
      | _ \<Rightarrow> ([], r))"

section \<open>Rate limiting\<close>

record 'st RateLimiterConfig =
  Max :: int64
  Expiration :: int64
  LStorage :: "'st option"
  Name :: string

text \<open>What the limiter of Fiber is given: a key for the client, the paths it lets pass, its refusal.\<close>

record 'st limiter_config =
  lim_Max :: int64
  lim_Expiration :: int64
  lim_Storage :: "'st option"
  KeyGenerator :: "string \<Rightarrow> string"
  Next :: "string \<Rightarrow> bool"
  LimitReached :: response

definition rate_limited :: response where
  "rate_limited =
     \<lparr>status = 429, body = JObject [(''error'', JString ''rate_limited''),
       (''message'', JString ''Too many requests. Please slow down and try again shortly.'')]\<rparr>"

definition RateLimiter :: "'st RateLimiterConfig \<Rightarrow> 'st limiter_config" where
  "RateLimiter cfg =
     \<lparr>lim_Max = Max cfg, lim_Expiration = Expiration cfg, lim_Storage = LStorage cfg,
      KeyGenerator = (\<lambda>ip. Name cfg @ '':'' @ ip),
      Next = (\<lambda>p. p = ''/healthz'' \<or> p = ''/readyz''),
      LimitReached = rate_limited\<rparr>"

section \<open>Origins\<close>

lemma zip_upt_Cons: "zip [0..<length (x # xs)] (x # xs) = (0, x) # map (\<lambda>(i, y). (Suc i, y)) (zip [0..<length xs] xs)"
  by (simp add: upt_conv_Cons map_Suc_upt [symmetric] zip_map1 del: upt_Suc)

lemma joinOrigins_Nil [simp]: "joinOrigins [] = []"
  by (simp add: joinOrigins_def)

lemma foldl_joined:
  "foldl (\<lambda>out (i, x). (if 0 < i then out @ '','' else out) @ x) acc (map (\<lambda>(i, y). (Suc i, y)) ps) =
     acc @ concat (map (\<lambda>(i, y). '','' @ y) ps)"
  by (induction ps arbitrary: acc) auto

lemma joinOrigins_Cons: "joinOrigins (x # xs) = x @ concat (map (\<lambda>y. '','' @ y) xs)"
proof -
  have "map (\<lambda>(i, y). '','' @ y) (zip is xs) = map (\<lambda>y. '','' @ y) xs" if "length is = length xs" for "is" :: "nat list"
    using that by (induction "is" xs rule: list_induct2) auto
  then have m: "map (\<lambda>(i, y). '','' @ y) (zip [0..<length xs] xs) = map (\<lambda>y. '','' @ y) xs" by simp
  have "(@) '','' = (#) CHR '',''" by (rule ext) simp
  then show ?thesis
    unfolding joinOrigins_def zip_upt_Cons foldl_Cons prod.case foldl_joined m by simp
qed

lemma split_joined:
  "CHR '','' \<notin> set x \<Longrightarrow> \<forall>y \<in> set xs. CHR '','' \<notin> set y \<Longrightarrow> split CHR '','' (joinOrigins (x # xs)) = x # xs"
proof (induction xs arbitrary: x)
  case Nil
  then show ?case by (simp add: joinOrigins_Cons split_no)
next
  case (Cons y ys)
  then have "split CHR '','' (joinOrigins (y # ys)) = y # ys" by simp
  then show ?case using Cons.prems(1) by (simp add: joinOrigins_Cons split_append_sep)
qed

text \<open>A part without separator, blanks around it or nothing in it.\<close>

definition clean :: "string \<Rightarrow> bool" where
  "clean t \<longleftrightarrow> t \<noteq> [] \<and> trim_space t = t \<and> CHR '','' \<notin> set t"

lemma splitCSV_clean: "t \<in> set (splitCSV s) \<Longrightarrow> clean t"
  using split_no_sep trim_space_set by (force simp: splitCSV_def clean_def split: if_splits)

lemma splitCSV_join:
  assumes "os \<noteq> []" "\<forall>t \<in> set os. clean t"
  shows "splitCSV (joinOrigins os) = os"
proof -
  obtain x xs where os: "os = x # xs" using assms(1) by (cases os) auto
  have "CHR '','' \<in> set (joinOrigins os)" if "xs \<noteq> []"
    using that by (cases xs) (auto simp: os joinOrigins_Cons)
  then have "trim_space (joinOrigins os) \<noteq> []"
    using kept [of "CHR '',''" "joinOrigins os"] assms(2)
    by (cases "xs = []") (auto simp: os joinOrigins_Cons clean_def is_space_def)
  moreover have "split CHR '','' (joinOrigins os) = os"
    using assms(2) split_joined by (simp add: os clean_def)
  moreover have "map trim_space os = os" "filter (\<lambda>t. t \<noteq> []) os = os"
    using assms(2) by (auto simp: clean_def intro: map_idI filter_eq_self)
  ultimately show ?thesis by (simp add: splitCSV_def)
qed

section \<open>Properties\<close>

text \<open>
  C36. The list of origins survives its way through the environment and the header: every origin of a parsed list is
  clean (not empty, no blanks around it, no comma), joining a list of clean origins and splitting it as
  the configuration does gives the list back, and so does splitting it at commas, as the CORS middleware does; no origin at all is the wildcard without credentials.
\<close>

theorem origins_roundtrip:
  "list_all clean (splitCSV s) \<and> splitCSV (joinOrigins (splitCSV s)) = splitCSV s \<and>
   (if splitCSV s = [] then AllowOrigins (cors_settings (splitCSV s)) = ''*'' \<and> \<not> AllowCredentials (cors_settings (splitCSV s))
    else split CHR '','' (AllowOrigins (cors_settings (splitCSV s))) = splitCSV s)"
proof (cases "splitCSV s")
  case Nil
  then show ?thesis by (simp add: splitCSV_def cors_settings_def)
next
  case (Cons x xs)
  have c: "\<forall>t \<in> set (x # xs). clean t" using splitCSV_clean [of _ s] by (simp add: Cons)
  then have "split CHR '','' (joinOrigins (x # xs)) = x # xs" by (intro split_joined) (auto simp: clean_def)
  moreover have "splitCSV (joinOrigins (x # xs)) = x # xs" by (rule splitCSV_join) (use c in simp_all)
  ultimately show ?thesis using c by (simp add: Cons cors_settings_def list_all_iff)
qed



text \<open>
  The access log writes one line for a request that does not panic, with the final status when no error is
  left to the error handler, and no configured level drops it; a worse class of status is never logged at a
  lower level. A request that panics gets no line of its own, only that of the recovery.
\<close>

theorem access_log_lines:
  "(case AccessLog c r of (evs, r') \<Rightarrow> r' = r \<and> map log_status evs =
      (case ending r of Panicked e \<Rightarrow> [] | _ \<Rightarrow> [Some (run_status r)]) \<and>
      list_all (\<lambda>ev. emitted (NewLogger production) (level ev)) evs) \<and>
   map msg (fst (AccessLog c r) @ fst (Recover c (snd (AccessLog c r)))) =
      (case ending r of Panicked e \<Rightarrow> [''recovered from panic''] | _ \<Rightarrow> [''request'']) \<and>
   access_level m \<le> access_level (m + n)"
proof -
  have "access_level m \<le> access_level (m + n)"
    by (simp add: access_level_def less_eq_log_level_def level_number_def)
  moreover have "access_level st \<noteq> DebugLevel" for st by (simp add: access_level_def)
  ultimately show ?thesis
    by (simp add: AccessLog_def Recover_def emitted_New split: ending.split)
qed

end
