(* ===== verification/Server.thy ===== *)
theory Server
  imports Service Middleware
begin

text \<open>
  The package \<open>internal/server\<close>: the configuration of the Fiber application, its layers in the order
  of registration, and the error handler. Fiber itself is a parameter: how it matches a route, which
  address it takes for the client, how it parses a body, what its limiter and its CORS middleware
  decide, and which CORS settings it refuses with a panic. \<open>dispatch\<close> is the documented way of a request through the layers.
\<close>

section \<open>The application\<close>

record ('st, 'w) Deps =
  d_Config :: Config
  d_Handler :: Handler
  d_Health :: "'w Health"
  d_LimiterStore :: "'st option"

record fiber_config =
  AppName :: string
  fc_ReadTimeout :: int64
  fc_WriteTimeout :: int64
  fc_IdleTimeout :: int64
  BodyLimit :: int64
  DisableStartupMessage :: bool
  EnableTrustedProxyCheck :: bool
  fc_TrustedProxies :: "string list"
  ProxyHeader :: string

definition ErrorHandler :: "handler_error \<Rightarrow> response" where
  "ErrorHandler err =
     (let st = (case err of FiberError c m \<Rightarrow> c | OtherError m \<Rightarrow> 500)
      in \<lparr>status = st, body = JObject [(''error'', JString ''internal_error''),
           (''message'', JString ''Something went wrong. Please try again.'')]\<rparr>)"

definition not_found :: response where
  "not_found =
     \<lparr>status = 404, body = JObject [(''error'', JString ''not_found''),
       (''message'', JString ''The requested resource does not exist.'')]\<rparr>"

datatype 'st mware =
    Recover_mw
  | RequestID_mw
  | AccessLog_mw
  | Security_mw helmet_config
  | CORS_mw cors_config
  | Limiter_mw "'st limiter_config"

datatype endpoint =
    Live_ep
  | Ready_ep
  | Geo_ep
  | Verify_ep
  | Apply_ep
  | Lookup_ep
  | Contact_ep
  | Subscribe_ep

datatype 'st layer =
    Use "'st mware"
  | Route string string "'st mware list" endpoint
  | Fallback response

record 'st app =
  fiber :: fiber_config
  layers :: "'st layer list"

definition general_limit :: "Config \<Rightarrow> 'st option \<Rightarrow> 'st limiter_config" where
  "general_limit c st = RateLimiter \<lparr>Max = RateGeneralPerMin c, Expiration = minute, LStorage = st, Name = ''general''\<rparr>"

definition submit_limit :: "Config \<Rightarrow> 'st option \<Rightarrow> 'st limiter_config" where
  "submit_limit c st = RateLimiter \<lparr>Max = RateSubmitPerMin c, Expiration = minute, LStorage = st, Name = ''submit''\<rparr>"

definition lookup_limit :: "Config \<Rightarrow> 'st option \<Rightarrow> 'st limiter_config" where
  "lookup_limit c st = RateLimiter \<lparr>Max = RateLookupPerMin c, Expiration = minute, LStorage = st, Name = ''lookup''\<rparr>"

text \<open>
  \<open>New\<close> either panics in the middle, when the CORS middleware refuses its origins, or returns the application.
\<close>

definition application :: "cors_config \<Rightarrow> ('st, 'w) Deps \<Rightarrow> 'st app" where
  "application cors d =
     (let c = d_Config d; store = d_LimiterStore d; v1 = ''/v1'';
          submitLimit = Limiter_mw (submit_limit c store); lookupLimit = Limiter_mw (lookup_limit c store)
      in \<lparr>fiber =
            \<lparr>AppName = ''dyd-api'', fc_ReadTimeout = ReadTimeout c, fc_WriteTimeout = WriteTimeout c,
             fc_IdleTimeout = IdleTimeout c, BodyLimit = BodyLimitBytes c, DisableStartupMessage = True,
             EnableTrustedProxyCheck = (0 < length (TrustedProxies c)), fc_TrustedProxies = TrustedProxies c,
             ProxyHeader = ''X-Forwarded-For''\<rparr>,
          layers =
            [Use Recover_mw, Use RequestID_mw, Use AccessLog_mw, Use (Security_mw SecurityHeaders),
             Use (CORS_mw cors),
             Use (Limiter_mw (general_limit c store)),
             Route ''GET'' ''/healthz'' [] Live_ep,
             Route ''GET'' ''/readyz'' [] Ready_ep,
             Route ''GET'' (v1 @ ''/geo'') [] Geo_ep,
             Route ''GET'' (v1 @ ''/verify'') [] Verify_ep,
             Route ''POST'' (v1 @ ''/applications'') [submitLimit] Apply_ep,
             Route ''POST'' (v1 @ ''/admit-card/lookup'') [lookupLimit] Lookup_ep,
             Route ''POST'' (v1 @ ''/contact'') [submitLimit] Contact_ep,
             Route ''POST'' (v1 @ ''/newsletter'') [submitLimit] Subscribe_ep,
             Fallback not_found]\<rparr>)"

definition NewServer :: "cors_new \<Rightarrow> ('st, 'w) Deps \<Rightarrow> string + 'st app" where
  "NewServer new d =
     (case CORS new (CORSAllowedOrigins (d_Config d)) of
        Inl panic \<Rightarrow> Inl panic
      | Inr cors \<Rightarrow> Inr (application cors d))"

definition built :: "('st, 'w) Deps \<Rightarrow> 'st app" where
  "built d = application (cors_settings (CORSAllowedOrigins (d_Config d))) d"

lemma NewServer_Inr:
  "NewServer new d = Inr app \<longleftrightarrow> new (cors_settings (CORSAllowedOrigins (d_Config d))) = None \<and> app = built d"
  by (auto simp: NewServer_def CORS_def built_def Let_def split: option.split)

section \<open>A request through the layers\<close>

record http_call =
  req_verb :: string
  req_path :: string
  query_code :: string
  header_token :: string
  raw_body :: string
  peer :: string

record ('st, 'l) fiber_lib =
  route_matches :: "string \<Rightarrow> string \<Rightarrow> http_call \<Rightarrow> bool"
  ip_of :: "fiber_config \<Rightarrow> http_call \<Rightarrow> string"
  preflight :: "cors_config \<Rightarrow> http_call \<Rightarrow> response option"
  admit :: "'st limiter_config \<Rightarrow> string \<Rightarrow> 'l \<Rightarrow> bool \<times> 'l"
  parse_application :: "http_call \<Rightarrow> ApplicationInput option"
  parse_lookup :: "http_call \<Rightarrow> AdmitCardLookup option"
  parse_contact :: "http_call \<Rightarrow> ContactInput option"
  parse_newsletter :: "http_call \<Rightarrow> NewsletterInput option"

definition bound :: "('st, 'l) fiber_lib \<Rightarrow> fiber_config \<Rightarrow> http_call \<Rightarrow> (http_call \<Rightarrow> 'a option) \<Rightarrow> 'a request" where
  "bound fl fc c parse = \<lparr>parsed_body = parse c, token_header = header_token c, client_ip = ip_of fl fc c\<rparr>"

fun api_of :: "('st, 'l) fiber_lib \<Rightarrow> fiber_config \<Rightarrow> http_call \<Rightarrow> entropy \<Rightarrow> endpoint \<Rightarrow> api_request option" where
  "api_of fl fc c rnd Apply_ep = Some (Apply (bound fl fc c (parse_application fl)) rnd)"
| "api_of fl fc c rnd Lookup_ep = Some (Lookup (bound fl fc c (parse_lookup fl)))"
| "api_of fl fc c rnd Contact_ep = Some (Contact (bound fl fc c (parse_contact fl)) rnd)"
| "api_of fl fc c rnd Subscribe_ep = Some (Newsletter (bound fl fc c (parse_newsletter fl)) rnd)"
| "api_of fl fc c rnd Verify_ep = Some (Check_code (query_code c))"
| "api_of fl fc c rnd Geo_ep = Some Geo_tree"
| "api_of fl fc c rnd Live_ep = None"
| "api_of fl fc c rnd Ready_ep = None"

text \<open>What does not change while a request is served.\<close>

record ('st, 'l, 'w) request_context =
  lib_fiber :: "('st, 'l) fiber_lib"
  deps :: "('st, 'w) Deps"
  site :: siteverify
  world_state :: 'w
  randomness :: entropy

abbreviation fc_of :: "('st, 'l, 'w) request_context \<Rightarrow> fiber_config" where
  "fc_of x \<equiv> fiber (built (deps x))"

definition run_endpoint :: "('st, 'l, 'w) request_context \<Rightarrow> http_call \<Rightarrow> endpoint \<Rightarrow> response prog" where
  "run_endpoint x c ep =
     (case api_of (lib_fiber x) (fc_of x) c (randomness x) ep of
        Some q \<Rightarrow> serve (site x) (d_Handler (deps x)) q
      | None \<Rightarrow> Done (if ep = Live_ep then Live else Ready (d_Health (deps x)) (world_state x)))"

text \<open>What a middleware answers instead of the rest of the stack, if it does.\<close>

fun pass :: "('st, 'l, 'w) request_context \<Rightarrow> http_call \<Rightarrow> 'st mware \<Rightarrow> 'l \<Rightarrow> response option \<times> 'l" where
  "pass x c (Limiter_mw cfg) s =
     (if Next cfg (req_path c) then (None, s)
      else case admit (lib_fiber x) cfg (KeyGenerator cfg (ip_of (lib_fiber x) (fc_of x) c)) s of
          (ok, s') \<Rightarrow> (if ok then None else Some (LimitReached cfg), s'))"
| "pass x c (CORS_mw cfg) s = (preflight (lib_fiber x) cfg c, s)"
| "pass x c _ s = (None, s)"

fun pass_all :: "('st, 'l, 'w) request_context \<Rightarrow> http_call \<Rightarrow> 'st mware list \<Rightarrow> 'l \<Rightarrow> response option \<times> 'l" where
  "pass_all x c [] s = (None, s)"
| "pass_all x c (m # ms) s = (case pass x c m s of (Some r, s') \<Rightarrow> (Some r, s') | (None, s') \<Rightarrow> pass_all x c ms s')"

fun dispatch :: "('st, 'l, 'w) request_context \<Rightarrow> http_call \<Rightarrow> 'st layer list \<Rightarrow> 'l \<Rightarrow> response prog \<times> 'l" where
  "dispatch x c [] s = (Done (ErrorHandler (FiberError 404 ''Not Found'')), s)"
| "dispatch x c (Use m # ls) s =
     (case pass x c m s of (Some r, s') \<Rightarrow> (Done r, s') | (None, s') \<Rightarrow> dispatch x c ls s')"
| "dispatch x c (Route verb p ms ep # ls) s =
     (if route_matches (lib_fiber x) verb p c
      then (case pass_all x c ms s of (Some r, s') \<Rightarrow> (Done r, s') | (None, s') \<Rightarrow> (run_endpoint x c ep, s'))
      else dispatch x c ls s)"
| "dispatch x c (Fallback r # ls) s = (Done r, s)"

definition answer :: "('st, 'l, 'w) request_context \<Rightarrow> http_call \<Rightarrow> 'l \<Rightarrow> response prog \<times> 'l" where
  "answer x c s = dispatch x c (layers (built (deps x))) s"

section \<open>Routing\<close>

text \<open>
  What is relied on of the routing: a request with exactly the method and path of a route matches it,
  and a match means that the paths agree up to case and slashes at the end, and that the method is
  the one of the route, or HEAD for GET.
\<close>

definition folded :: "string \<Rightarrow> string" where
  "folded p = rev (dropWhile (\<lambda>c. c = CHR ''/'') (rev (map lower_char p)))"

definition routing_ok :: "('st, 'l) fiber_lib \<Rightarrow> bool" where
  "routing_ok fl \<longleftrightarrow> (\<forall>verb p c.
     (req_verb c = verb \<and> req_path c = p \<longrightarrow> route_matches fl verb p c) \<and>
     (route_matches fl verb p c \<longrightarrow> folded (req_path c) = folded p \<and>
        (req_verb c = verb \<or> verb = ''GET'' \<and> req_verb c = ''HEAD'')))"

definition api_routes :: "((string \<times> string) \<times> endpoint) list" where
  "api_routes =
     [((''GET'', ''/healthz''), Live_ep), ((''GET'', ''/readyz''), Ready_ep), ((''GET'', ''/v1/geo''), Geo_ep),
      ((''GET'', ''/v1/verify''), Verify_ep), ((''POST'', ''/v1/applications''), Apply_ep),
      ((''POST'', ''/v1/admit-card/lookup''), Lookup_ep), ((''POST'', ''/v1/contact''), Contact_ep),
      ((''POST'', ''/v1/newsletter''), Subscribe_ep)]"

lemma folded_routes:
  "map (folded \<circ> snd \<circ> fst) api_routes = map (snd \<circ> fst) api_routes"
  by (simp add: api_routes_def folded_def lower_char_def)

lemma distinct_routes: "distinct (map (snd \<circ> fst) api_routes)"
  by (simp add: api_routes_def)

text \<open>The limiter of its own that an endpoint has.\<close>

definition own_limit :: "('st, 'w) Deps \<Rightarrow> endpoint \<Rightarrow> 'st limiter_config option" where
  "own_limit d ep =
     (if ep \<in> {Apply_ep, Contact_ep, Subscribe_ep} then Some (submit_limit (d_Config d) (d_LimiterStore d))
      else if ep = Lookup_ep then Some (lookup_limit (d_Config d) (d_LimiterStore d)) else None)"

definition route_layer :: "('st, 'w) Deps \<Rightarrow> (string \<times> string) \<times> endpoint \<Rightarrow> 'st layer" where
  "route_layer d r = (case r of ((verb, p), ep) \<Rightarrow>
     Route verb p (case own_limit d ep of None \<Rightarrow> [] | Some l \<Rightarrow> [Limiter_mw l]) ep)"

definition head_layers :: "('st, 'w) Deps \<Rightarrow> 'st layer list" where
  "head_layers d =
     [Use Recover_mw, Use RequestID_mw, Use AccessLog_mw, Use (Security_mw SecurityHeaders),
      Use (CORS_mw (cors_settings (CORSAllowedOrigins (d_Config d)))),
      Use (Limiter_mw (general_limit (d_Config d) (d_LimiterStore d)))]"

lemma layers_eq: "layers (built d) = head_layers d @ map (route_layer d) api_routes @ [Fallback not_found]"
  by (simp add: built_def application_def head_layers_def api_routes_def route_layer_def own_limit_def Let_def)

lemma limits [simp]:
  "Next (general_limit c st) p \<longleftrightarrow> p = ''/healthz'' \<or> p = ''/readyz''"
  "Next (submit_limit c st) p \<longleftrightarrow> p = ''/healthz'' \<or> p = ''/readyz''"
  "Next (lookup_limit c st) p \<longleftrightarrow> p = ''/healthz'' \<or> p = ''/readyz''"
  "KeyGenerator (general_limit c st) ip = ''general:'' @ ip"
  "KeyGenerator (submit_limit c st) ip = ''submit:'' @ ip"
  "KeyGenerator (lookup_limit c st) ip = ''lookup:'' @ ip"
  "LimitReached (general_limit c st) = rate_limited" "LimitReached (submit_limit c st) = rate_limited"
  "LimitReached (lookup_limit c st) = rate_limited"
  by (simp_all add: general_limit_def submit_limit_def lookup_limit_def RateLimiter_def)

lemma own_limits:
  assumes "own_limit d ep = Some l"
  shows "Next l p \<longleftrightarrow> p = ''/healthz'' \<or> p = ''/readyz''" "LimitReached l = rate_limited"
  using assms by (auto simp: own_limit_def split: if_splits)

text \<open>The head of the stack: a preflight answer, a refusal, or the routes.\<close>

lemma answer_head:
  "answer x c s =
     (case preflight (lib_fiber x) (cors_settings (CORSAllowedOrigins (d_Config (deps x)))) c of
        Some r \<Rightarrow> (Done r, s)
      | None \<Rightarrow> (case pass x c (Limiter_mw (general_limit (d_Config (deps x)) (d_LimiterStore (deps x)))) s of
            (Some r, s') \<Rightarrow> (Done r, s')
          | (None, s') \<Rightarrow> dispatch x c (map (route_layer (deps x)) api_routes @ [Fallback not_found]) s'))"
  unfolding answer_def layers_eq head_layers_def by (simp del: pass.simps(1) split: option.split prod.split)

lemma dispatch_skip:
  "\<forall>r \<in> set rs. \<not> route_matches (lib_fiber x) (fst (fst r)) (snd (fst r)) c \<Longrightarrow>
     dispatch x c (map (route_layer d) rs @ ls) s = dispatch x c ls s"
  by (induction rs) (auto simp: route_layer_def)

lemma dispatch_routes:
  obtains (found) verb p ep where "((verb, p), ep) \<in> set api_routes" "route_matches (lib_fiber x) verb p c"
    "dispatch x c (map (route_layer d) api_routes @ ls) s = dispatch x c (route_layer d ((verb, p), ep) # ls') s"
  | (none) "\<forall>r \<in> set api_routes. \<not> route_matches (lib_fiber x) (fst (fst r)) (snd (fst r)) c"
      "dispatch x c (map (route_layer d) api_routes @ ls) s = dispatch x c ls s"
proof (cases "\<exists>r \<in> set api_routes. route_matches (lib_fiber x) (fst (fst r)) (snd (fst r)) c")
  case True
  then obtain pre r post where s: "api_routes = pre @ r # post"
    "route_matches (lib_fiber x) (fst (fst r)) (snd (fst r)) c"
    "\<forall>q \<in> set pre. \<not> route_matches (lib_fiber x) (fst (fst q)) (snd (fst q)) c"
    by (rule split_list_first_propE)
  obtain verb p ep where r: "r = ((verb, p), ep)" by (metis prod.exhaust)
  show thesis
  proof (rule found [of verb p ep])
    show "dispatch x c (map (route_layer d) api_routes @ ls) s = dispatch x c (route_layer d ((verb, p), ep) # ls') s"
      using dispatch_skip [OF s(3), of d "map (route_layer d) (r # post) @ ls" s] s(2)
      by (simp add: s(1) r route_layer_def)
    show "((verb, p), ep) \<in> set api_routes" unfolding s(1) r by simp
  qed (use s(2) r in simp)
next
  case False
  then show thesis using none dispatch_skip [of api_routes x c d ls s] by blast
qed

lemma routing_okD:
  "routing_ok fl \<Longrightarrow> route_matches fl verb p c \<Longrightarrow>
     folded (req_path c) = folded p \<and> (req_verb c = verb \<or> verb = ''GET'' \<and> req_verb c = ''HEAD'')"
  "routing_ok fl \<Longrightarrow> req_verb c = verb \<Longrightarrow> req_path c = p \<Longrightarrow> route_matches fl verb p c"
  unfolding routing_ok_def by blast+

lemma folded_route: "((verb, p), ep) \<in> set api_routes \<Longrightarrow> folded p = p"
  by (auto simp: api_routes_def folded_def lower_char_def)

text \<open>A path of the table selects its route: no other pattern matches it.\<close>

lemma route_unique:
  assumes "routing_ok fl" "((verb, p), ep) \<in> set api_routes" "((verb', p'), ep') \<in> set api_routes"
    "route_matches fl verb' p' c" "folded (req_path c) = p"
  shows "verb' = verb \<and> p' = p \<and> ep' = ep"
proof -
  have "p' = p" using routing_okD(1) [OF assms(1,4)] folded_route assms(2,3,5) by metis
  then have e: "(snd \<circ> fst) ((verb', p'), ep') = (snd \<circ> fst) ((verb, p), ep)" by simp
  have "inj_on (snd \<circ> fst) (set api_routes)" using distinct_routes by (simp add: distinct_map)
  from inj_onD [OF this e assms(3,2)] show ?thesis by simp
qed

lemma dispatch_route:
  "route_matches (lib_fiber x) verb p c \<Longrightarrow> dispatch x c (route_layer d ((verb, p), ep) # ls) s =
     (case own_limit d ep of
        None \<Rightarrow> (run_endpoint x c ep, s)
      | Some l \<Rightarrow> (case pass x c (Limiter_mw l) s of (Some r, s') \<Rightarrow> (Done r, s') | (None, s') \<Rightarrow> (run_endpoint x c ep, s')))"
  by (simp add: route_layer_def del: pass.simps split: option.split prod.split)

text \<open>The paths that the limiters let pass are the probes.\<close>

lemma probe_folded: "folded ''/healthz'' = ''/healthz''" "folded ''/readyz'' = ''/readyz''"
  by (simp_all add: folded_def lower_char_def)

lemma probe_endpoint:
  assumes "routing_ok fl" "((verb, p), ep) \<in> set api_routes" "route_matches fl verb p c"
    "req_path c = ''/healthz'' \<or> req_path c = ''/readyz''"
  shows "ep = (if req_path c = ''/healthz'' then Live_ep else Ready_ep)"
proof -
  have "((''GET'', ''/healthz''), Live_ep) \<in> set api_routes" "((''GET'', ''/readyz''), Ready_ep) \<in> set api_routes"
    by (simp_all add: api_routes_def)
  then show ?thesis
    using assms(4) route_unique [OF assms(1) _ assms(2,3)] probe_folded by fastforce
qed

section \<open>Properties\<close>

text \<open>
  C5. Nothing reaches the database past the rate limits: if the answer to a request is a program that sends a
  statement, the general limiter admitted the client's address, the limiter of the endpoint, if it has one,
  admitted it too, and the program is the one that the service runs for some request. So what holds
  of the service holds of everything that comes in over HTTP.
\<close>

theorem statements_behind_limits:
  assumes "routing_ok (lib_fiber x)" "answer x c s = (Query pl st k, s')"
  shows "\<exists>s1 ep q. admit (lib_fiber x) (general_limit (d_Config (deps x)) (d_LimiterStore (deps x)))
        (''general:'' @ ip_of (lib_fiber x) (fc_of x) c) s = (True, s1) \<and>
      (case own_limit (deps x) ep of
         None \<Rightarrow> s' = s1
       | Some l \<Rightarrow> admit (lib_fiber x) l (KeyGenerator l (ip_of (lib_fiber x) (fc_of x) c)) s1 = (True, s')) \<and>
      api_of (lib_fiber x) (fc_of x) c (randomness x) ep = Some q \<and>
      serve (site x) (d_Handler (deps x)) q = Query pl st k"
proof -
  let ?gl = "general_limit (d_Config (deps x)) (d_LimiterStore (deps x))" and ?ip = "ip_of (lib_fiber x) (fc_of x) c"
  let ?rest = "map (route_layer (deps x)) api_routes @ [Fallback not_found]"
  obtain s1 where head: "pass x c (Limiter_mw ?gl) s = (None, s1)" "dispatch x c ?rest s1 = (Query pl st k, s')"
    using assms(2) unfolding answer_head by (auto simp del: pass.simps split: option.splits prod.splits)
  show ?thesis
  proof (cases rule: dispatch_routes [of x c "deps x" "[Fallback not_found]" s1 "[]"])
    case (found verb p ep)
    have run: "dispatch x c (route_layer (deps x) ((verb, p), ep) # []) s1 = (Query pl st k, s')"
      using found(3) head(2) by simp
    then have q: "run_endpoint x c ep = Query pl st k"
      unfolding dispatch_route [OF found(2)]
      by (auto simp del: pass.simps split: option.splits prod.splits)
    have noprobe: "\<not> (req_path c = ''/healthz'' \<or> req_path c = ''/readyz'')"
      using probe_endpoint [OF assms(1) found(1,2)] q by (auto simp: run_endpoint_def split: if_splits)
    have "admit (lib_fiber x) ?gl (''general:'' @ ?ip) s = (True, s1)"
      using head(1) noprobe by (auto split: prod.splits if_splits)
    moreover have "case own_limit (deps x) ep of None \<Rightarrow> s' = s1
       | Some l \<Rightarrow> admit (lib_fiber x) l (KeyGenerator l ?ip) s1 = (True, s')"
      using run noprobe own_limits(1) [of "deps x" ep] unfolding dispatch_route [OF found(2)]
      by (auto split: option.splits prod.splits if_splits)
    moreover obtain q where "api_of (lib_fiber x) (fc_of x) c (randomness x) ep = Some q"
      "serve (site x) (d_Handler (deps x)) q = Query pl st k"
      using q by (auto simp: run_endpoint_def split: option.splits)
    ultimately show ?thesis by blast
  next
    case none
    then show ?thesis using head(2) by simp
  qed
qed

text \<open>
  C19. The route table: a request with the method and path of a route is answered by the handler of that route, after the
  general limiter and then the limiter of the endpoint admitted the client's address; the first that
  does not answers 429. The probes are never limited and never counted.
\<close>

theorem routes_served:
  assumes "routing_ok (lib_fiber x)" "((verb, p), ep) \<in> set api_routes" "req_verb c = verb" "req_path c = p"
    "preflight (lib_fiber x) (cors_settings (CORSAllowedOrigins (d_Config (deps x)))) c = None"
  shows "answer x c s =
    (if ep \<in> {Live_ep, Ready_ep} then (run_endpoint x c ep, s)
     else case admit (lib_fiber x) (general_limit (d_Config (deps x)) (d_LimiterStore (deps x)))
         (''general:'' @ ip_of (lib_fiber x) (fc_of x) c) s of
       (ok, s1) \<Rightarrow> if \<not> ok then (Done rate_limited, s1)
         else case own_limit (deps x) ep of
             None \<Rightarrow> (run_endpoint x c ep, s1)
           | Some l \<Rightarrow> (case admit (lib_fiber x) l (KeyGenerator l (ip_of (lib_fiber x) (fc_of x) c)) s1 of
               (ok, s2) \<Rightarrow> if \<not> ok then (Done rate_limited, s2) else (run_endpoint x c ep, s2)))"
proof -
  let ?rest = "map (route_layer (deps x)) api_routes @ [Fallback not_found]"
  have m: "route_matches (lib_fiber x) verb p c" by (rule routing_okD(2) [OF assms(1,3,4)])
  have f: "folded (req_path c) = p" using folded_route [OF assms(2)] assms(4) by simp
  have routes: "dispatch x c ?rest t = dispatch x c (route_layer (deps x) ((verb, p), ep) # []) t" for t
  proof (cases rule: dispatch_routes [of x c "deps x" "[Fallback not_found]" t "[]"])
    case (found v' p' ep')
    then show ?thesis using route_unique [OF assms(1,2) found(1,2) f] by simp
  next
    case none
    then show ?thesis using assms(2) m by force
  qed
  have probe: "req_path c = ''/healthz'' \<or> req_path c = ''/readyz'' \<longleftrightarrow> ep \<in> {Live_ep, Ready_ep}"
    using assms(2,4) by (auto simp: api_routes_def)
  have own: "own_limit (deps x) ep = None" if "ep \<in> {Live_ep, Ready_ep}"
    using that by (auto simp: own_limit_def)
  show ?thesis
    unfolding answer_head assms(5) option.case routes dispatch_route [OF m]
    using probe own own_limits [of "deps x" ep]
    by (auto split: option.split prod.split)
qed

definition sample_lib :: "(unit, nat) fiber_lib" where
  "sample_lib = \<lparr>route_matches = \<lambda>verb p c. req_verb c = verb \<and> req_path c = p, ip_of = \<lambda>fc c. peer c,
     preflight = \<lambda>cfg c. None, admit = \<lambda>cfg key n. (n < 3, n + 1),
     parse_application = \<lambda>c. Some sample_application, parse_lookup = \<lambda>c. Some sample_lookup,
     parse_contact = \<lambda>c. None, parse_newsletter = \<lambda>c. None\<rparr>"

lemma sample_lib_ok: "routing_ok sample_lib"
  by (simp add: routing_ok_def sample_lib_def)

definition sample_context :: "(unit, nat, unit) request_context" where
  "sample_context = \<lparr>lib_fiber = sample_lib,
     deps = \<lparr>d_Config = from_env sample_environment, d_Handler = sample_handler,
       d_Health = NewHealth (\<lambda>_. None) None, d_LimiterStore = None\<rparr>,
     site = no_site, world_state = (), randomness = sample_entropy\<rparr>"

definition sample_call :: "string \<Rightarrow> string \<Rightarrow> http_call" where
  "sample_call verb p = \<lparr>req_verb = verb, req_path = p, query_code = [], header_token = [], raw_body = [], peer = ''203.0.113.7''\<rparr>"

theorem routes_served_witness:
  "answer sample_context (sample_call ''GET'' ''/healthz'') 7 = (Done Live, 7) \<and>
   answer sample_context (sample_call ''POST'' ''/v1/contact'') 2 = (Done rate_limited, 4)"
proof -
  have r: "routing_ok (lib_fiber sample_context)" using sample_lib_ok by (simp add: sample_context_def)
  have p: "preflight (lib_fiber sample_context) (cors_settings (CORSAllowedOrigins (d_Config (deps sample_context)))) c = None" for c
    by (simp add: sample_context_def sample_lib_def)
  have t: "((''GET'', ''/healthz''), Live_ep) \<in> set api_routes" "((''POST'', ''/v1/contact''), Contact_ep) \<in> set api_routes"
    by (simp_all add: api_routes_def)
  have l: "own_limit d Contact_ep = Some (submit_limit (d_Config d) (d_LimiterStore d))" for d :: "(unit, unit) Deps"
    by (simp add: own_limit_def)
  have a: "admit (lib_fiber sample_context) cfg key n = (n < 3, n + 1)" for cfg key n
    by (simp add: sample_context_def sample_lib_def)
  show ?thesis
    using routes_served [OF r t(1) _ _ p, of "sample_call ''GET'' ''/healthz''" 7]
      routes_served [OF r t(2) _ _ p, of "sample_call ''POST'' ''/v1/contact''" 2]
    by (simp add: sample_call_def run_endpoint_def l a)
qed

theorem statements_behind_limits_witness:
  "\<exists>s1. admit sample_lib (general_limit (from_env sample_environment) None) ''general:203.0.113.7'' 0 = (True, s1)"
proof -
  let ?c = "sample_call ''POST'' ''/v1/admit-card/lookup''"
  have r: "routing_ok (lib_fiber sample_context)" using sample_lib_ok by (simp add: sample_context_def)
  have "\<exists>pl st k. LookupAdmitCard no_site sample_handler \<lparr>parsed_body = Some sample_lookup, token_header = [], client_ip = ''203.0.113.7''\<rparr> =
      Query pl st k"
    using sample_lookup_valid
    by (simp add: LookupAdmitCard_def sample_handler_def NewHandler_def Verify_token_def NewVerifier_def FindAdmitCard_def)
  then obtain pl st k where q: "run_endpoint sample_context ?c Lookup_ep = Query pl st k"
    by (auto simp: run_endpoint_def sample_context_def sample_lib_def sample_call_def bound_def)
  have "\<exists>s'. answer sample_context ?c 0 = (Query pl st k, s')"
    unfolding q [symmetric] answer_def layers_eq
    by (simp add: head_layers_def api_routes_def route_layer_def own_limit_def sample_call_def)
      (simp add: sample_context_def sample_lib_def)
  then show ?thesis
    using statements_behind_limits [OF r, of ?c 0 pl st k]
    by (auto simp: sample_context_def sample_lib_def)
qed

end
