(* ===== verification/Database.thy ===== *)
theory Database
  imports Go_Strconv Store "HOL-Library.List_Lexorder" "HOL-Library.Char_ord"
begin

text \<open>
  The package \<open>internal/database\<close>: opening, pinging and closing the pools, and the migrations. The pool
  library is a parameter that says, for each pool it is asked for, whether parsing, creating and
  pinging succeed; the state records which pools are open. The embedded migrations are given as
  their statements, with types, defaults and predicates, and their schema is shown to be the one of the model
  of the tables.
\<close>

section \<open>Pools\<close>

record Options =
  PrimaryURL :: string
  ReplicaURL :: string
  MaxConns :: int32
  MinConns :: int32
  MaxConnLifetime :: int64

record pool_config =
  conn_string :: string
  pool_MaxConns :: int32
  pool_MinConns :: int32
  pool_MaxConnLifetime :: int64
  HealthCheckPeriod :: int64

text \<open>A pool is known by the number of the call that made it.\<close>

type_synonym pool_id = nat

record pgxpool =
  ParseConfig :: "string \<Rightarrow> string + pool_config"
  NewWithConfig :: "pool_id \<Rightarrow> pool_config \<Rightarrow> string option"
  ping_pool :: "pool_id \<Rightarrow> pool_config \<Rightarrow> string option"

record pools =
  next_pool :: pool_id
  open_pools :: "pool_id \<rightharpoonup> pool_config"
  closed_pools :: "pool_id list"

definition close_pool :: "pool_id \<Rightarrow> pools \<Rightarrow> pools" where
  "close_pool p st = st\<lparr>open_pools := (open_pools st)(p := None), closed_pools := closed_pools st @ [p]\<rparr>"

definition apply_options :: "Options \<Rightarrow> pool_config \<Rightarrow> pool_config" where
  "apply_options opts cfg =
     (let cfg = (if 0 < sint (MaxConns opts) then cfg\<lparr>pool_MaxConns := MaxConns opts\<rparr> else cfg);
          cfg = (if 0 < sint (MinConns opts) then cfg\<lparr>pool_MinConns := MinConns opts\<rparr> else cfg);
          cfg = (if 0 < sint (MaxConnLifetime opts) then cfg\<lparr>pool_MaxConnLifetime := MaxConnLifetime opts\<rparr> else cfg)
      in cfg\<lparr>HealthCheckPeriod := 30 * 1000000000\<rparr>)"

definition open_pool :: "pgxpool \<Rightarrow> string \<Rightarrow> Options \<Rightarrow> pools \<Rightarrow> (string + pool_id) \<times> pools" where
  "open_pool pgx url opts st =
     (case ParseConfig pgx url of
        Inl err \<Rightarrow> (Inl err, st)
      | Inr cfg \<Rightarrow>
          let cfg = apply_options opts cfg;
              p = next_pool st;
              st = st\<lparr>next_pool := p + 1\<rparr>
          in case NewWithConfig pgx p cfg of
               Some err \<Rightarrow> (Inl err, st)
             | None \<Rightarrow>
                 let st = st\<lparr>open_pools := (open_pools st)(p \<mapsto> cfg)\<rparr>
                 in case ping_pool pgx p cfg of
                      Some err \<Rightarrow> (Inl err, close_pool p st)
                    | None \<Rightarrow> (Inr p, st))"

datatype connect_error =
    PrimaryError string
  | ReplicaError string

record DB =
  Primary_pool :: "pool_id option"
  Replica_pool :: "pool_id option"

definition Connect :: "pgxpool \<Rightarrow> Options \<Rightarrow> pools \<Rightarrow> (connect_error + DB) \<times> pools" where
  "Connect pgx opts st =
     (case open_pool pgx (PrimaryURL opts) opts st of
        (Inl err, st) \<Rightarrow> (Inl (PrimaryError err), st)
      | (Inr primary, st) \<Rightarrow>
          let d = \<lparr>Primary_pool = Some primary, Replica_pool = Some primary\<rparr>
          in if ReplicaURL opts \<noteq> [] then
               (case open_pool pgx (ReplicaURL opts) opts st of
                  (Inl err, st) \<Rightarrow> (Inl (ReplicaError err), close_pool primary st)
                | (Inr replica, st) \<Rightarrow> (Inr (d\<lparr>Replica_pool := Some replica\<rparr>), st))
             else (Inr d, st))"

text \<open>Only the primary is asked; \<open>None\<close> is the panic on a nil pool.\<close>

definition Ping :: "(pool_id \<Rightarrow> string option) \<Rightarrow> DB \<Rightarrow> string option option" where
  "Ping answer d = map_option answer (Primary_pool d)"

definition Close :: "DB \<Rightarrow> pools \<Rightarrow> pools" where
  "Close d st =
     (let st = (case Replica_pool d of
            Some r \<Rightarrow> if Replica_pool d \<noteq> Primary_pool d then close_pool r st else st
          | None \<Rightarrow> st)
      in case Primary_pool d of Some p \<Rightarrow> close_pool p st | None \<Rightarrow> st)"

section \<open>Migrations\<close>

text \<open>Columns with their types, \<open>NOT NULL\<close> and defaults, and indexes with their predicates.\<close>

datatype sql_type = Uuid | Text_type | Boolean | Timestamptz

datatype sql_value =
    Null
  | Text string
  | Bool bool
  | Time civil

datatype col_default =
    No_default
  | Constant sql_value
  | Gen_random_uuid
  | Now

record column =
  col_name :: string
  col_type :: sql_type
  not_null :: bool
  col_default :: col_default

datatype predicate =
    Always
  | Is_not_null string
  | Is_not_empty string

record index =
  ix_table :: string
  ix_columns :: "string list"
  ix_unique :: bool
  ix_where :: predicate

datatype ddl =
    Create_extension string
  | Create_table string "column list" string
  | Create_index string index
  | Add_columns string "column list"

text \<open>
  What the statements depend on: tables with their columns, indexes by name (a primary key is one), and
  the names of the unique indexes that the rows there would violate.
\<close>

record schema =
  extensions :: "string set"
  tabs :: "string \<rightharpoonup> column list"
  indexes :: "string \<rightharpoonup> index"
  violated :: "string set"

abbreviation col_names :: "column list \<Rightarrow> string list" where
  "col_names cs \<equiv> map col_name cs"

definition add_missing :: "column list \<Rightarrow> column list \<Rightarrow> column list" where
  "add_missing cols cs = cs @ filter (\<lambda>c. col_name c \<notin> set (col_names cs)) cols"

definition primary_key :: "string \<Rightarrow> string \<Rightarrow> index" where
  "primary_key t c = \<lparr>ix_table = t, ix_columns = [c], ix_unique = True, ix_where = Always\<rparr>"

fun run_ddl :: "ddl \<Rightarrow> schema \<Rightarrow> schema option" where
  "run_ddl (Create_extension e) s = Some (s\<lparr>extensions := insert e (extensions s)\<rparr>)"
| "run_ddl (Create_table t cols pk) s =
     (if tabs s t = None
      then Some (s\<lparr>tabs := (tabs s)(t \<mapsto> cols), indexes := (indexes s)(t @ ''_pkey'' \<mapsto> primary_key t pk)\<rparr>)
      else Some s)"
| "run_ddl (Create_index n ix) s =
     (case tabs s (ix_table ix) of
        None \<Rightarrow> None
      | Some cs \<Rightarrow>
          if indexes s n \<noteq> None then Some s
          else if \<not> set (ix_columns ix) \<subseteq> set (col_names cs) \<or> (ix_unique ix \<and> n \<in> violated s) then None
          else Some (s\<lparr>indexes := (indexes s)(n \<mapsto> ix)\<rparr>))"
| "run_ddl (Add_columns t cols) s =
     (case tabs s t of
        None \<Rightarrow> None
      | Some cs \<Rightarrow> Some (s\<lparr>tabs := (tabs s)(t \<mapsto> add_missing cols cs)\<rparr>))"

fun run_all :: "ddl list \<Rightarrow> schema \<Rightarrow> schema option" where
  "run_all [] s = Some s"
| "run_all (d # ds) s = (case run_ddl d s of None \<Rightarrow> None | Some s' \<Rightarrow> run_all ds s')"

text \<open>A file goes to the server in one message, which is one transaction.\<close>

definition run_file :: "ddl list \<Rightarrow> schema \<Rightarrow> bool \<times> schema" where
  "run_file ds s = (case run_all ds s of Some s' \<Rightarrow> (True, s') | None \<Rightarrow> (False, s))"

datatype migrate_error =
    NoMigrations
  | AcquireError string
  | ReadError string
  | ApplyError string

text \<open>Whether the connection holds while a file is applied: if not, the file was applied or it was not.\<close>

datatype link = Held | Lost_before | Lost_after

fun apply_files :: "(string \<rightharpoonup> ddl list) \<Rightarrow> (string \<Rightarrow> link) \<Rightarrow> string list \<Rightarrow> schema \<Rightarrow> migrate_error option \<times> schema" where
  "apply_files fs net [] s = (None, s)"
| "apply_files fs net (name # names) s =
     (case fs name of
        None \<Rightarrow> (Some (ReadError name), s)
      | Some ds \<Rightarrow>
          (case net name of
             Lost_before \<Rightarrow> (Some (ApplyError name), s)
           | Lost_after \<Rightarrow> (Some (ApplyError name), snd (run_file ds s))
           | Held \<Rightarrow>
               (case run_file ds s of
                  (False, s') \<Rightarrow> (Some (ApplyError name), s')
                | (True, s') \<Rightarrow> apply_files fs net names s')))"

definition Migrate ::
    "(string \<times> ddl list) list \<Rightarrow> string option \<Rightarrow> (string \<Rightarrow> link) \<Rightarrow> schema \<Rightarrow> migrate_error option \<times> schema" where
  "Migrate FS acquire net s =
     (let entries = map fst FS
      in if length entries = 0 then (Some NoMigrations, s)
         else case acquire of
             Some err \<Rightarrow> (Some (AcquireError err), s)
           | None \<Rightarrow> apply_files (map_of FS) net (sort entries) s)"

section \<open>The embedded files\<close>

abbreviation uuid_pk :: "string \<Rightarrow> column" where
  "uuid_pk n \<equiv> \<lparr>col_name = n, col_type = Uuid, not_null = True, col_default = Gen_random_uuid\<rparr>"

abbreviation text_required :: "string \<Rightarrow> column" where
  "text_required n \<equiv> \<lparr>col_name = n, col_type = Text_type, not_null = True, col_default = No_default\<rparr>"

abbreviation text_default :: "string \<Rightarrow> string \<Rightarrow> column" where
  "text_default n x \<equiv> \<lparr>col_name = n, col_type = Text_type, not_null = True, col_default = Constant (Text x)\<rparr>"

abbreviation text_nullable :: "string \<Rightarrow> column" where
  "text_nullable n \<equiv> \<lparr>col_name = n, col_type = Text_type, not_null = False, col_default = No_default\<rparr>"

abbreviation bool_default :: "string \<Rightarrow> bool \<Rightarrow> column" where
  "bool_default n x \<equiv> \<lparr>col_name = n, col_type = Boolean, not_null = True, col_default = Constant (Bool x)\<rparr>"

abbreviation time_now :: "string \<Rightarrow> column" where
  "time_now n \<equiv> \<lparr>col_name = n, col_type = Timestamptz, not_null = True, col_default = Now\<rparr>"

abbreviation plain_index :: "string \<Rightarrow> string \<Rightarrow> index" where
  "plain_index t c \<equiv> \<lparr>ix_table = t, ix_columns = [c], ix_unique = False, ix_where = Always\<rparr>"

abbreviation unique_index :: "string \<Rightarrow> string \<Rightarrow> predicate \<Rightarrow> index" where
  "unique_index t c p \<equiv> \<lparr>ix_table = t, ix_columns = [c], ix_unique = True, ix_where = p\<rparr>"

definition init_sql :: "ddl list" where
  "init_sql =
     [Create_extension ''pgcrypto'',
      Create_table ''applications''
        [uuid_pk ''id'',
         text_required ''name_enc'', text_required ''phone_enc'', text_default ''email_enc'' [],
         text_default ''dob_enc'' [], text_default ''address_enc'' [], text_default ''education_enc'' [],
         text_default ''photo_url'' [],
         text_required ''division'', text_required ''district'',
         text_required ''phone_bidx'', text_default ''phone_dob_bidx'' [],
         text_default ''batch'' [], text_nullable ''roll_no'', bool_default ''admission_confirmed'' False,
         text_default ''status'' ''submitted'',
         time_now ''created_at'', time_now ''updated_at''] ''id'',
      Create_index ''ux_applications_phone_bidx'' (unique_index ''applications'' ''phone_bidx'' Always),
      Create_index ''ix_applications_phone_dob_bidx'' (plain_index ''applications'' ''phone_dob_bidx''),
      Create_index ''ix_applications_created_at'' (plain_index ''applications'' ''created_at''),
      Create_index ''ux_applications_roll_no'' (unique_index ''applications'' ''roll_no'' (Is_not_null ''roll_no'')),
      Create_table ''contact_messages''
        [uuid_pk ''id'', text_required ''name_enc'', text_default ''email_enc'' [], text_default ''phone_enc'' [],
         text_default ''subject'' [], text_required ''message_enc'', time_now ''created_at''] ''id'',
      Create_index ''ix_contact_created_at'' (plain_index ''contact_messages'' ''created_at''),
      Create_table ''newsletter_subscribers''
        [uuid_pk ''id'', text_required ''email_enc'', text_required ''email_bidx'', time_now ''created_at''] ''id'',
      Create_index ''ux_newsletter_email_bidx'' (unique_index ''newsletter_subscribers'' ''email_bidx'' Always)]"

definition intake_fields_sql :: "ddl list" where
  "intake_fields_sql =
     [Add_columns ''applications''
        [text_default ''gpa_enc'' [], text_default ''photo_enc'' [], text_default ''gender'' [],
         text_default ''passing_year'' [], text_default ''computer_skill'' [], text_default ''own_computer'' [],
         text_default ''can_attend'' []]]"

definition verify_code_sql :: "ddl list" where
  "verify_code_sql =
     [Add_columns ''applications'' [text_default ''verify_code'' []],
      Create_index ''ux_applications_verify_code''
        (unique_index ''applications'' ''verify_code'' (Is_not_empty ''verify_code''))]"

definition FS :: "(string \<times> ddl list) list" where
  "FS = [(''0001_init.sql'', init_sql), (''0002_intake_fields.sql'', intake_fields_sql),
     (''0003_verify_code.sql'', verify_code_sql)]"

text \<open>The column lists and parameters of the three INSERTs, and the columns that each statement names.\<close>

fun inserted :: "stmt \<Rightarrow> (string \<times> sql_value) list" where
  "inserted (Insert_application v) =
     [(''name_enc'', Text (v_name_enc v)), (''phone_enc'', Text (v_phone_enc v)), (''email_enc'', Text (v_email_enc v)),
      (''dob_enc'', Text (v_dob_enc v)), (''address_enc'', Text (v_address_enc v)),
      (''education_enc'', Text (v_education_enc v)), (''gpa_enc'', Text (v_gpa_enc v)),
      (''photo_enc'', Text (v_photo_enc v)), (''gender'', Text (v_gender v)),
      (''passing_year'', Text (v_passing_year v)), (''computer_skill'', Text (v_computer_skill v)),
      (''own_computer'', Text (v_own_computer v)), (''can_attend'', Text (v_can_attend v)),
      (''division'', Text (v_division v)), (''district'', Text (v_district v)),
      (''phone_bidx'', Text (v_phone_bidx v)), (''phone_dob_bidx'', Text (v_phone_dob_bidx v)),
      (''batch'', Text (v_batch v))]"
| "inserted (Insert_contact n e p s m) =
     [(''name_enc'', Text n), (''email_enc'', Text e), (''phone_enc'', Text p), (''subject'', Text s),
      (''message_enc'', Text m)]"
| "inserted (Insert_subscriber e b) = [(''email_enc'', Text e), (''email_bidx'', Text b)]"
| "inserted _ = []"

fun statement_columns :: "stmt \<Rightarrow> string \<times> string list" where
  "statement_columns (Insert_application v) = (''applications'', map fst (inserted (Insert_application v)) @ [''id''])"
| "statement_columns (Set_verify_code c i) = (''applications'', [''verify_code'', ''id''])"
| "statement_columns (Fill_verify_code c i) = (''applications'', [''verify_code'', ''id''])"
| "statement_columns (Select_admit_card b) = (''applications'',
     [''id'', ''name_enc'', ''phone_enc'', ''email_enc'', ''address_enc'', ''education_enc'', ''photo_enc'',
      ''division'', ''district'', ''batch'', ''roll_no'', ''admission_confirmed'', ''status'', ''created_at'',
      ''verify_code'', ''phone_dob_bidx''])"
| "statement_columns (Select_by_code c) = (''applications'',
     [''batch'', ''roll_no'', ''admission_confirmed'', ''status'', ''created_at'', ''verify_code''])"
| "statement_columns (Insert_contact n e p s m) =
     (''contact_messages'', map fst (inserted (Insert_contact n e p s m)))"
| "statement_columns (Insert_subscriber e b) =
     (''newsletter_subscribers'', map fst (inserted (Insert_subscriber e b)) @ [''email_bidx''])"

text \<open>
  The meaning of the schema: which columns a statement may name, the row that an INSERT makes, with the
  defaults for the other columns, and the two rows that a unique index does not allow together.
\<close>

definition supports :: "schema \<Rightarrow> stmt \<Rightarrow> bool" where
  "supports s q = (case tabs s (fst (statement_columns q)) of
     None \<Rightarrow> False | Some cs \<Rightarrow> list_all (\<lambda>c. c \<in> set (col_names cs)) (snd (statement_columns q)))"

type_synonym sql_row = "(string \<times> sql_value) list"

definition default_value :: "stmt_env \<Rightarrow> column \<Rightarrow> sql_value" where
  "default_value e c = (case col_default c of
     No_default \<Rightarrow> Null | Constant x \<Rightarrow> x | Gen_random_uuid \<Rightarrow> Text (new_uuid e) | Now \<Rightarrow> Time (now e))"

definition made_row :: "stmt_env \<Rightarrow> column list \<Rightarrow> stmt \<Rightarrow> sql_row" where
  "made_row e cs q = map (\<lambda>c. (col_name c,
     case map_of (inserted q) (col_name c) of Some x \<Rightarrow> x | None \<Rightarrow> default_value e c)) cs"

definition fits :: "column list \<Rightarrow> sql_row \<Rightarrow> bool" where
  "fits cs row \<longleftrightarrow> list_all2 (\<lambda>c (n, x). n = col_name c \<and>
     (case x of Null \<Rightarrow> \<not> not_null c | Text _ \<Rightarrow> col_type c \<in> {Uuid, Text_type}
      | Bool _ \<Rightarrow> col_type c = Boolean | Time _ \<Rightarrow> col_type c = Timestamptz)) cs row"

fun holds :: "predicate \<Rightarrow> sql_row \<Rightarrow> bool" where
  "holds Always row = True"
| "holds (Is_not_null c) row = (map_of row c \<noteq> Some Null)"
| "holds (Is_not_empty c) row = (map_of row c \<notin> {Some Null, Some (Text [])})"

definition kept_apart :: "index \<Rightarrow> sql_row \<Rightarrow> sql_row \<Rightarrow> bool" where
  "kept_apart ix row row' \<longleftrightarrow> ix_unique ix \<and> holds (ix_where ix) row \<and> holds (ix_where ix) row' \<and>
     list_all (\<lambda>c. map_of row c \<noteq> Some Null \<and> map_of row c = map_of row' c) (ix_columns ix)"

definition conflict :: "schema \<Rightarrow> string \<Rightarrow> sql_row \<Rightarrow> sql_row \<Rightarrow> bool" where
  "conflict s t row row' \<longleftrightarrow> (\<exists>ix \<in> ran (indexes s). ix_table ix = t \<and> kept_apart ix row row')"

text \<open>The rows of the model, column by column.\<close>

definition application_sql :: "application_row \<Rightarrow> sql_row" where
  "application_sql r =
     [(''id'', Text (ID r)), (''name_enc'', Text (NameEnc r)), (''phone_enc'', Text (PhoneEnc r)),
      (''email_enc'', Text (EmailEnc r)), (''dob_enc'', Text (DOBEnc r)), (''address_enc'', Text (AddressEnc r)),
      (''education_enc'', Text (EducationEnc r)), (''photo_url'', Text (PhotoURLCol r)),
      (''division'', Text (App_Division r)), (''district'', Text (App_District r)),
      (''phone_bidx'', Text (PhoneBIdx r)), (''phone_dob_bidx'', Text (PhoneDOBBIdx r)), (''batch'', Text (Batch r)),
      (''roll_no'', case RollNo r of None \<Rightarrow> Null | Some n \<Rightarrow> Text n),
      (''admission_confirmed'', Bool (AdmissionConfirmed r)), (''status'', Text (Status r)),
      (''created_at'', Time (CreatedAt r)), (''updated_at'', Time (UpdatedAt r)),
      (''gpa_enc'', Text (GPAEnc r)), (''photo_enc'', Text (PhotoEnc r)), (''gender'', Text (Gender r)),
      (''passing_year'', Text (PassingYear r)), (''computer_skill'', Text (ComputerSkill r)),
      (''own_computer'', Text (OwnComputer r)), (''can_attend'', Text (CanAttend r)),
      (''verify_code'', Text (VerifyCode r))]"

definition contact_sql :: "contact_row \<Rightarrow> sql_row" where
  "contact_sql r =
     [(''id'', Text (cm_ID r)), (''name_enc'', Text (cm_NameEnc r)), (''email_enc'', Text (cm_EmailEnc r)),
      (''phone_enc'', Text (cm_PhoneEnc r)), (''subject'', Text (cm_Subject r)),
      (''message_enc'', Text (cm_MessageEnc r)), (''created_at'', Time (cm_CreatedAt r))]"

definition subscriber_sql :: "subscriber_row \<Rightarrow> sql_row" where
  "subscriber_sql r =
     [(''id'', Text (ns_ID r)), (''email_enc'', Text (ns_EmailEnc r)), (''email_bidx'', Text (ns_EmailBIdx r)),
      (''created_at'', Time (ns_CreatedAt r))]"

definition no_schema :: schema where
  "no_schema = \<lparr>extensions = {}, tabs = Map.empty, indexes = Map.empty, violated = {}\<rparr>"

section \<open>Pools are not leaked\<close>

definition pools_ok :: "pools \<Rightarrow> bool" where
  "pools_ok st \<longleftrightarrow> (\<forall>p. next_pool st \<le> p \<longrightarrow> open_pools st p = None)"

lemma fresh_pool: "pools_ok st \<Longrightarrow> next_pool st \<le> p \<Longrightarrow> open_pools st p = None"
  by (simp add: pools_ok_def)

lemma pools_ok_next: "pools_ok st \<Longrightarrow> pools_ok (st\<lparr>next_pool := next_pool st + 1\<rparr>)"
  by (auto simp: pools_ok_def)

lemma open_pool_cases:
  assumes "open_pool pgx url opts st = (res, st')" "pools_ok st"
  obtains (failed) err where "res = Inl err" "open_pools st' = open_pools st" "pools_ok st'"
  | (opened) cfg where "res = Inr (next_pool st)" "next_pool st' = next_pool st + 1"
      "open_pools st' = (open_pools st)(next_pool st \<mapsto> apply_options opts cfg)" "pools_ok st'"
      "ParseConfig pgx url = Inr cfg" "ping_pool pgx (next_pool st) (apply_options opts cfg) = None"
      "closed_pools st' = closed_pools st"
proof (cases "ParseConfig pgx url")
  case (Inl err)
  then show thesis using failed [of err] assms by (auto simp: open_pool_def)
next
  case (Inr cfg)
  let ?cfg = "apply_options opts cfg" and ?p = "next_pool st"
  show thesis
  proof (cases "NewWithConfig pgx ?p ?cfg")
    case (Some err)
    then show thesis using failed [of err] assms Inr pools_ok_next by (auto simp: open_pool_def Let_def)
  next
    case None
    show thesis
    proof (cases "ping_pool pgx ?p ?cfg")
      case (Some err)
      then have "res = Inl err" "open_pools st' = open_pools st" "pools_ok st'"
        using None assms Inr fresh_pool [OF assms(2)]
        by (auto simp: open_pool_def close_pool_def pools_ok_def Let_def)
      then show thesis by (rule failed)
    next
      case N: None
      have "pools_ok st'" using None N assms Inr by (auto simp: open_pool_def pools_ok_def Let_def)
      then show thesis using opened [of cfg] None N assms(1) Inr by (auto simp: open_pool_def Let_def)
    qed
  qed
qed

lemma connect_shape:
  assumes "pools_ok st"
  shows "case Connect pgx opts st of
      (Inl err, st') \<Rightarrow> open_pools st' = open_pools st
    | (Inr d, st') \<Rightarrow> (\<exists>p r. Primary_pool d = Some p \<and> Replica_pool d = Some r \<and>
        (p = r \<longleftrightarrow> ReplicaURL opts = []) \<and> dom (open_pools st') = dom (open_pools st) \<union> {p, r} \<and>
        {p, r} \<inter> dom (open_pools st) = {} \<and> open_pools (Close d st') = open_pools st \<and>
        closed_pools (Close d st') = closed_pools st @ (if p = r then [p] else [r, p]))"
proof -
  obtain res st1 where o: "open_pool pgx (PrimaryURL opts) opts st = (res, st1)" by fastforce
  note fresh = fresh_pool [OF assms]
  show ?thesis using o assms
  proof (cases rule: open_pool_cases)
    case (failed err)
    then show ?thesis using o by (simp add: Connect_def)
  next
    case (opened cfg)
    note o1 = opened
    show ?thesis
    proof (cases "ReplicaURL opts = []")
      case True
      then show ?thesis using o o1 fresh by (simp add: Connect_def Close_def close_pool_def fun_upd_idem domIff)
    next
      case False
      obtain res2 st2 where o2: "open_pool pgx (ReplicaURL opts) opts st1 = (res2, st2)" by fastforce
      show ?thesis using o2 o1(4)
      proof (cases rule: open_pool_cases)
        case (failed err)
        then show ?thesis using False o o1 o2 fresh by (simp add: Connect_def close_pool_def fun_upd_idem Let_def)
      next
        case (opened cfg2)
        have "open_pools st (next_pool st + 1) = None" using fresh by simp
        then show ?thesis using False o o1 o2 opened fresh
          by (auto simp: Connect_def Close_def close_pool_def Let_def fun_eq_iff)
      qed
    qed
  qed
qed

section \<open>Migrations only add\<close>

text \<open>What a statement brings about is there.\<close>

fun established :: "ddl \<Rightarrow> schema \<Rightarrow> bool" where
  "established (Create_extension e) s = (e \<in> extensions s)"
| "established (Create_table t cols pk) s = (tabs s t \<noteq> None)"
| "established (Create_index n ix) s = (tabs s (ix_table ix) \<noteq> None \<and> indexes s n \<noteq> None)"
| "established (Add_columns t cols) s = (\<exists>cs. tabs s t = Some cs \<and> set (col_names cols) \<subseteq> set (col_names cs))"

lemma add_missing_id [simp]: "set (col_names cols) \<subseteq> set (col_names cs) \<Longrightarrow> add_missing cols cs = cs"
  by (auto simp: add_missing_def filter_empty_conv)

lemma add_missing_set [simp]:
  "col_name ` set (add_missing cols cs) = col_name ` set cs \<union> col_name ` set cols"
  by (auto simp: add_missing_def)

lemma established_id: "established d s \<Longrightarrow> run_ddl d s = Some s"
  by (cases d) (auto simp: insert_absorb fun_upd_idem)

lemma run_establishes: "run_ddl d s = Some s' \<Longrightarrow> established d s'"
  by (cases d) (auto split: option.splits if_splits)

lemma run_keeps_established: "run_ddl d s = Some s' \<Longrightarrow> established e s \<Longrightarrow> established e s'"
  by (cases d; cases e) (auto split: option.splits if_splits, blast+)

lemma run_all_keeps: "run_all ds s = Some s' \<Longrightarrow> established e s \<Longrightarrow> established e s'"
  by (induction ds s rule: run_all.induct) (auto split: option.splits intro: run_keeps_established)

lemma run_all_establishes: "run_all ds s = Some s' \<Longrightarrow> list_all (\<lambda>d. established d s') ds"
  by (induction ds s rule: run_all.induct) (auto split: option.splits dest: run_establishes run_all_keeps)

lemma run_all_established: "list_all (\<lambda>d. established d s) ds \<Longrightarrow> run_all ds s = Some s"
  by (induction ds) (auto simp: established_id)

lemma run_all_append: "run_all (xs @ ys) s = (case run_all xs s of None \<Rightarrow> None | Some s' \<Rightarrow> run_all ys s')"
  by (induction xs s rule: run_all.induct) (auto split: option.splits)

definition script :: "(string \<rightharpoonup> ddl list) \<Rightarrow> string list \<Rightarrow> ddl list" where
  "script fs names = concat (map (\<lambda>n. the (fs n)) names)"

lemma script_simps [simp]: "script fs [] = []" "script fs (n # ns) = the (fs n) @ script fs ns"
  by (simp_all add: script_def)

lemma apply_held:
  "set names \<subseteq> dom fs \<Longrightarrow>
     apply_files fs (\<lambda>_. Held) names s = (None, s') \<longleftrightarrow> run_all (script fs names) s = Some s'"
proof (induction names arbitrary: s)
  case (Cons n ns)
  then obtain ds where "fs n = Some ds" by auto
  then show ?case using Cons by (auto simp: run_file_def run_all_append split: option.split)
qed simp

text \<open>Wherever an attempt stops, what it has applied is a first part of the files.\<close>

lemma apply_part:
  "set names \<subseteq> dom fs \<Longrightarrow> run_all (script fs names) s = Some s2 \<Longrightarrow>
     \<exists>k. run_all (script fs (take k names)) s = Some (snd (apply_files fs net names s))"
proof (induction names arbitrary: s)
  case (Cons n ns)
  obtain ds where ds: "fs n = Some ds" using Cons.prems(1) by auto
  obtain s1 where s1: "run_all ds s = Some s1" "run_all (script fs ns) s1 = Some s2"
    using Cons.prems(2) ds by (auto simp: run_all_append split: option.splits)
  show ?case
  proof (cases "net n")
    case Held
    obtain k where "run_all (script fs (take k ns)) s1 = Some (snd (apply_files fs net ns s1))"
      using Cons.IH [of s1] Cons.prems(1) s1(2) by auto
    then show ?thesis using Held ds s1(1)
      by (intro exI [of _ "Suc k"]) (simp add: run_file_def run_all_append)
  next
    case Lost_before
    then show ?thesis using ds by (intro exI [of _ 0]) simp
  next
    case Lost_after
    then show ?thesis using ds s1(1) by (intro exI [of _ 1]) (simp add: run_file_def)
  qed
qed simp

lemma rerun_part:
  assumes "run_all (script fs names) s = Some s2" "run_all (script fs (take k names)) s = Some s1"
  shows "run_all (script fs names) s1 = Some s2"
proof -
  have split: "script fs names = script fs (take k names) @ script fs (drop k names)"
    by (simp add: script_def flip: concat_append map_append)
  have "run_all (script fs (drop k names)) s1 = Some s2"
    using assms unfolding split by (simp add: run_all_append)
  moreover have "run_all (script fs (take k names)) s1 = Some s1"
    using run_all_established run_all_establishes [OF assms(2)] by blast
  ultimately show ?thesis unfolding split by (simp add: run_all_append)
qed

lemma Migrate_held:
  "files \<noteq> [] \<Longrightarrow> Migrate files None (\<lambda>_. Held) s = (None, s') \<longleftrightarrow>
     run_all (script (map_of files) (sort (map fst files))) s = Some s'"
  by (simp add: Migrate_def apply_held dom_map_of_conv_image_fst)

lemma Migrate_part:
  assumes "run_all (script (map_of files) (sort (map fst files))) s = Some s2"
  obtains k where "run_all (script (map_of files) (take k (sort (map fst files)))) s = Some (snd (Migrate files acq net s))"
proof (cases "files = [] \<or> acq \<noteq> None")
  case True
  then show thesis using that [of 0] by (auto simp: Migrate_def)
next
  case False
  then show thesis
    using that apply_part [OF _ assms, of net] by (auto simp: Migrate_def dom_map_of_conv_image_fst)
qed

section \<open>The shipped schema\<close>

lemma sorted_FS: "sort (map fst FS) = map fst FS"
  by (simp add: FS_def less_char_def less_eq_char_def)

definition full_schema :: schema where
  "full_schema = snd (Migrate FS None (\<lambda>_. Held) no_schema)"

definition application_columns :: "column list" where
  "application_columns =
     [uuid_pk ''id'',
      text_required ''name_enc'', text_required ''phone_enc'', text_default ''email_enc'' [],
      text_default ''dob_enc'' [], text_default ''address_enc'' [], text_default ''education_enc'' [],
      text_default ''photo_url'' [],
      text_required ''division'', text_required ''district'',
      text_required ''phone_bidx'', text_default ''phone_dob_bidx'' [],
      text_default ''batch'' [], text_nullable ''roll_no'', bool_default ''admission_confirmed'' False,
      text_default ''status'' ''submitted'',
      time_now ''created_at'', time_now ''updated_at'',
      text_default ''gpa_enc'' [], text_default ''photo_enc'' [], text_default ''gender'' [],
      text_default ''passing_year'' [], text_default ''computer_skill'' [], text_default ''own_computer'' [],
      text_default ''can_attend'' [], text_default ''verify_code'' []]"

definition contact_columns :: "column list" where
  "contact_columns =
     [uuid_pk ''id'', text_required ''name_enc'', text_default ''email_enc'' [], text_default ''phone_enc'' [],
      text_default ''subject'' [], text_required ''message_enc'', time_now ''created_at'']"

definition subscriber_columns :: "column list" where
  "subscriber_columns =
     [uuid_pk ''id'', text_required ''email_enc'', text_required ''email_bidx'', time_now ''created_at'']"

definition index_list :: "(string \<times> index) list" where
  "index_list =
     [(''ux_applications_verify_code'', unique_index ''applications'' ''verify_code'' (Is_not_empty ''verify_code'')),
      (''ux_newsletter_email_bidx'', unique_index ''newsletter_subscribers'' ''email_bidx'' Always),
      (''newsletter_subscribers_pkey'', unique_index ''newsletter_subscribers'' ''id'' Always),
      (''ix_contact_created_at'', plain_index ''contact_messages'' ''created_at''),
      (''contact_messages_pkey'', unique_index ''contact_messages'' ''id'' Always),
      (''ux_applications_roll_no'', unique_index ''applications'' ''roll_no'' (Is_not_null ''roll_no'')),
      (''ix_applications_created_at'', plain_index ''applications'' ''created_at''),
      (''ix_applications_phone_dob_bidx'', plain_index ''applications'' ''phone_dob_bidx''),
      (''ux_applications_phone_bidx'', unique_index ''applications'' ''phone_bidx'' Always),
      (''applications_pkey'', unique_index ''applications'' ''id'' Always)]"

lemma full_schema:
  "Migrate FS None (\<lambda>_. Held) no_schema = (None, full_schema)"
  "tabs full_schema = [''contact_messages'' \<mapsto> contact_columns, ''newsletter_subscribers'' \<mapsto> subscriber_columns,
     ''applications'' \<mapsto> application_columns]"
  "indexes full_schema = map_of index_list"
  by (simp_all add: full_schema_def Migrate_def sorted_FS FS_def no_schema_def run_file_def init_sql_def
      intake_fields_sql_def verify_code_sql_def add_missing_def primary_key_def application_columns_def
      contact_columns_def subscriber_columns_def index_list_def)

lemma ran_indexes: "ran (indexes full_schema) = snd ` set index_list"
proof -
  have "distinct (map fst index_list)" by (simp add: index_list_def)
  then show ?thesis unfolding full_schema(3) by (rule ran_distinct)
qed

lemma conflict_full: "conflict full_schema t row row' \<longleftrightarrow>
    list_ex (\<lambda>(n, ix). ix_table ix = t \<and> kept_apart ix row row') index_list"
  unfolding conflict_def ran_indexes list_ex_iff by (auto simp: case_prod_unfold)

lemma conflict_applications:
  "conflict full_schema ''applications'' (application_sql r) (application_sql r') \<longleftrightarrow> clash r r'"
  unfolding conflict_full index_list_def clash_defs
  by (simp add: kept_apart_def application_sql_def split: option.split) auto

lemma conflict_others:
  "conflict full_schema ''contact_messages'' (contact_sql m) (contact_sql m') \<longleftrightarrow> cm_ID m = cm_ID m'"
  "conflict full_schema ''newsletter_subscribers'' (subscriber_sql n) (subscriber_sql n') \<longleftrightarrow> subscriber_clash n n'"
  unfolding conflict_full index_list_def subscriber_clash_def
  by (simp_all add: kept_apart_def contact_sql_def subscriber_sql_def) blast

lemma made_rows:
  "made_row e application_columns (Insert_application v) = application_sql (new_row e v)"
  "made_row e contact_columns (Insert_contact n em p su m) = contact_sql (new_contact e n em p su m)"
  "made_row e subscriber_columns (Insert_subscriber em b) = subscriber_sql (new_subscriber e em b)"
  by (simp_all add: made_row_def default_value_def application_columns_def contact_columns_def subscriber_columns_def
      application_sql_def contact_sql_def subscriber_sql_def new_row_def)

lemma rows_fit:
  "fits application_columns (application_sql r)" "fits contact_columns (contact_sql m)"
  "fits subscriber_columns (subscriber_sql n)"
  by (simp_all add: fits_def application_columns_def contact_columns_def subscriber_columns_def
      application_sql_def contact_sql_def subscriber_sql_def split: option.split)

section \<open>Properties\<close>

text \<open>
  C16. Migrations can be interrupted and repeated: if an undisturbed run of all files takes the schema to \<open>s2\<close>, then
  after any number of attempts that failed anywhere, before, between or inside files, an undisturbed
  run succeeds and ends in the same schema. In particular a second run changes nothing.
\<close>

theorem Migrate_converges:
  assumes "files \<noteq> []" "Migrate files None (\<lambda>_. Held) s = (None, s2)"
  shows "Migrate files None (\<lambda>_. Held) (fold (\<lambda>(acq, net) t. snd (Migrate files acq net t)) attempts s) = (None, s2)"
proof -
  let ?run = "run_all (script (map_of files) (sort (map fst files)))"
  have "?run s = Some s2 \<Longrightarrow> ?run (fold (\<lambda>(acq, net) t. snd (Migrate files acq net t)) attempts s) = Some s2"
  proof (induction attempts arbitrary: s)
    case (Cons a as)
    obtain acq net where a: "a = (acq, net)" by fastforce
    obtain k where "run_all (script (map_of files) (take k (sort (map fst files)))) s = Some (snd (Migrate files acq net s))"
      using Cons.prems by (rule Migrate_part)
    then have "?run (snd (Migrate files acq net s)) = Some s2" using Cons.prems rerun_part by blast
    then show ?case using Cons.IH by (simp add: a)
  qed simp
  then show ?thesis using assms by (simp add: Migrate_held)
qed

theorem Migrate_converges_witness:
  "Migrate FS None (\<lambda>_. Held)
     (fold (\<lambda>(acq, net) t. snd (Migrate FS acq net t)) [(Some ''timeout'', \<lambda>_. Held), (None, \<lambda>_. Lost_after)] no_schema) =
   (None, full_schema)"
  by (rule Migrate_converges [OF _ full_schema(1)]) (simp add: FS_def)

text \<open>
  C17. Connecting leaks nothing: when it fails, the pools that it opened are closed again; when it succeeds exactly its
  pools are new, two if there is a replica and one if not, all pinged, and \<open>Close\<close> closes each of
  them once.
\<close>

theorem Connect_pools:
  assumes "pools_ok st"
  shows "case Connect pgx opts st of
      (Inl err, st') \<Rightarrow> open_pools st' = open_pools st
    | (Inr d, st') \<Rightarrow> (\<exists>p r. Primary_pool d = Some p \<and> Replica_pool d = Some r \<and>
        (p = r \<longleftrightarrow> ReplicaURL opts = []) \<and> dom (open_pools st') = dom (open_pools st) \<union> {p, r} \<and>
        {p, r} \<inter> dom (open_pools st) = {} \<and> open_pools (Close d st') = open_pools st \<and>
        closed_pools (Close d st') = closed_pools st @ (if p = r then [p] else [r, p]))"
  by (rule connect_shape [OF assms])

theorem Connect_pools_witness:
  "\<exists>d st'. Connect \<lparr>ParseConfig = \<lambda>url. Inr \<lparr>conn_string = url, pool_MaxConns = 4, pool_MinConns = 0,
       pool_MaxConnLifetime = 0, HealthCheckPeriod = 0\<rparr>, NewWithConfig = \<lambda>p cfg. None, ping_pool = \<lambda>p cfg. None\<rparr>
     \<lparr>PrimaryURL = ''a'', ReplicaURL = ''b'', MaxConns = 25, MinConns = 2, MaxConnLifetime = 0\<rparr>
     \<lparr>next_pool = 0, open_pools = Map.empty, closed_pools = []\<rparr> = (Inr d, st') \<and>
     open_pools (Close d st') = Map.empty"
  (is "\<exists>d st'. Connect ?pgx ?opts ?st = _ \<and> _")
proof -
  have "pools_ok ?st" by (simp add: pools_ok_def)
  moreover obtain d st' where "Connect ?pgx ?opts ?st = (Inr d, st')"
    by (simp add: Connect_def open_pool_def Let_def)
  ultimately show ?thesis using Connect_pools [of ?st ?opts ?pgx] by auto
qed

text \<open>
  C34. The shipped migrations, run on an empty database, succeed, and the schema they make is the one the model of the
  tables assumes: every column that a statement names is there; each INSERT makes the row of the model, with the
  defaults of the schema for the columns it leaves out, of the right types and with no missing
  value; and two rows clash in the model exactly when a unique index, with its predicate, or a primary key keeps
  them apart. So rows without a roll number or without a code never clash on it.
\<close>

theorem Migrate_embedded:
  "\<exists>s ac cc sc. Migrate FS None (\<lambda>_. Held) no_schema = (None, s) \<and> (\<forall>q. supports s q) \<and>
    tabs s ''applications'' = Some ac \<and> tabs s ''contact_messages'' = Some cc \<and>
    tabs s ''newsletter_subscribers'' = Some sc \<and>
    (\<forall>e v. made_row e ac (Insert_application v) = application_sql (new_row e v) \<and>
       fits ac (made_row e ac (Insert_application v))) \<and>
    (\<forall>e n em p su m. made_row e cc (Insert_contact n em p su m) = contact_sql (new_contact e n em p su m) \<and>
       fits cc (made_row e cc (Insert_contact n em p su m))) \<and>
    (\<forall>e em b. made_row e sc (Insert_subscriber em b) = subscriber_sql (new_subscriber e em b) \<and>
       fits sc (made_row e sc (Insert_subscriber em b))) \<and>
    (\<forall>r r'. clash r r' \<longleftrightarrow> conflict s ''applications'' (application_sql r) (application_sql r')) \<and>
    (\<forall>m m'. cm_ID m = cm_ID m' \<longleftrightarrow> conflict s ''contact_messages'' (contact_sql m) (contact_sql m')) \<and>
    (\<forall>n n'. subscriber_clash n n' \<longleftrightarrow> conflict s ''newsletter_subscribers'' (subscriber_sql n) (subscriber_sql n'))"
proof (intro exI conjI allI)
  show "Migrate FS None (\<lambda>_. Held) no_schema = (None, full_schema)" by (rule full_schema(1))
  show "supports full_schema q" for q
    by (cases q) (simp_all add: supports_def full_schema(2) application_columns_def contact_columns_def
        subscriber_columns_def)
  show "tabs full_schema ''applications'' = Some application_columns"
    "tabs full_schema ''contact_messages'' = Some contact_columns"
    "tabs full_schema ''newsletter_subscribers'' = Some subscriber_columns"
    by (simp_all add: full_schema(2))
qed (simp_all only: made_rows rows_fit conflict_applications conflict_others)

end
