(* ===== verification/Redisstore.thy ===== *)
theory Redisstore
  imports Go_Strconv "HOL-Library.Sublist"
begin

text \<open>
  The package \<open>internal/redisstore\<close>: the adapter from a Redis client to the storage interface of
  the rate limiter. The client library is a parameter: a record of its calls over a state of the
  server. What the adapter relies on is \<open>client_ok\<close>: a server that answers is a map from keys to
  values, as the Redis documentation has it; after an error the call took place or did not.
\<close>

section \<open>The client\<close>

datatype get_reply =
    Value bytes
  | Nil
  | Get_error string

record 's Client =
  client_get :: "string \<Rightarrow> 's \<Rightarrow> get_reply \<times> 's"
  client_set :: "string \<Rightarrow> bytes \<Rightarrow> int64 \<Rightarrow> 's \<Rightarrow> string option \<times> 's"
  client_del :: "string \<Rightarrow> 's \<Rightarrow> string option \<times> 's"
  client_flush :: "'s \<Rightarrow> string option \<times> 's"
  client_ping :: "'s \<Rightarrow> string option"
  client_close :: "'s \<Rightarrow> string option \<times> 's"

record ('o, 's) redis_library =
  ParseURL :: "string \<Rightarrow> string + 'o"
  NewClient :: "'o \<Rightarrow> 's Client"

section \<open>The adapter\<close>

record 's Storage =
  client :: "'s Client"
  key_prefix :: string

text \<open>No URL is no storage and no error; a client that does not answer its first ping is closed.\<close>

definition Connect_redis ::
    "('o, 's) redis_library \<Rightarrow> string \<Rightarrow> 's \<Rightarrow> (string + 's Storage option) \<times> 's" where
  "Connect_redis rl url s =
     (if url = [] then (Inr None, s)
      else case ParseURL rl url of
          Inl err \<Rightarrow> (Inl err, s)
        | Inr opt \<Rightarrow>
            let c = NewClient rl opt
            in case client_ping c s of
                 Some err \<Rightarrow> (Inl err, snd (client_close c s))
               | None \<Rightarrow> (Inr (Some \<lparr>client = c, key_prefix = ''dyd:''\<rparr>), s))"

definition Get :: "'s Storage \<Rightarrow> string \<Rightarrow> 's \<Rightarrow> (string + bytes option) \<times> 's" where
  "Get st key s =
     (if key = [] then (Inr None, s)
      else case client_get (client st) (key_prefix st @ key) s of
          (Nil, s') \<Rightarrow> (Inr None, s')
        | (Value v, s') \<Rightarrow> (Inr (Some v), s')
        | (Get_error err, s') \<Rightarrow> (Inl err, s'))"

definition Set_key :: "'s Storage \<Rightarrow> string \<Rightarrow> bytes \<Rightarrow> int64 \<Rightarrow> 's \<Rightarrow> string option \<times> 's" where
  "Set_key st key val exp s =
     (if key = [] \<or> length val = 0 then (None, s)
      else client_set (client st) (key_prefix st @ key) val exp s)"

definition Delete :: "'s Storage \<Rightarrow> string \<Rightarrow> 's \<Rightarrow> string option \<times> 's" where
  "Delete st key s = (if key = [] then (None, s) else client_del (client st) (key_prefix st @ key) s)"

definition Reset :: "'s Storage \<Rightarrow> 's \<Rightarrow> string option \<times> 's" where
  "Reset st s = client_flush (client st) s"

definition Close_redis :: "'s Storage \<Rightarrow> 's \<Rightarrow> string option \<times> 's" where
  "Close_redis st s = client_close (client st) s"

definition Ping_redis :: "'s Storage \<Rightarrow> 's \<Rightarrow> string option" where
  "Ping_redis st s = client_ping (client st) s"

section \<open>The storage as a map\<close>

text \<open>\<open>view\<close> reads the map off the state of the server, at one moment, without the expiry of keys.\<close>

definition client_ok :: "'s Client \<Rightarrow> ('s \<Rightarrow> string \<rightharpoonup> bytes) \<Rightarrow> bool" where
  "client_ok c view \<longleftrightarrow>
     (\<forall>k s. case client_get c k s of (r, s') \<Rightarrow> view s' = view s \<and>
        (case r of Value v \<Rightarrow> view s k = Some v | Nil \<Rightarrow> view s k = None | Get_error _ \<Rightarrow> True)) \<and>
     (\<forall>k v exp s. case client_set c k v exp s of
        (err, s') \<Rightarrow> view s' = (view s)(k \<mapsto> v) \<or> (err \<noteq> None \<and> view s' = view s)) \<and>
     (\<forall>k s. case client_del c k s of
        (err, s') \<Rightarrow> view s' = (view s)(k := None) \<or> (err \<noteq> None \<and> view s' = view s))"

text \<open>The entries of this service: the keys behind its prefix, and no empty key.\<close>

definition entries :: "'s Storage \<Rightarrow> (string \<rightharpoonup> bytes) \<Rightarrow> (string \<rightharpoonup> bytes)" where
  "entries st m k = (if k = [] then None else m (key_prefix st @ k))"

lemma client_okD:
  assumes "client_ok c view"
  shows "client_get c k s = (r, s') \<Longrightarrow> view s' = view s \<and>
      (case r of Value v \<Rightarrow> view s k = Some v | Nil \<Rightarrow> view s k = None | Get_error _ \<Rightarrow> True)"
    "client_set c k v exp s = (err, s') \<Longrightarrow> view s' = (view s)(k \<mapsto> v) \<or> (err \<noteq> None \<and> view s' = view s)"
    "client_del c k s = (err, s') \<Longrightarrow> view s' = (view s)(k := None) \<or> (err \<noteq> None \<and> view s' = view s)"
proof -
  note ok = assms [unfolded client_ok_def]
  show "client_get c k s = (r, s') \<Longrightarrow> view s' = view s \<and>
      (case r of Value v \<Rightarrow> view s k = Some v | Nil \<Rightarrow> view s k = None | Get_error _ \<Rightarrow> True)"
    using ok [THEN conjunct1, THEN spec, of k, THEN spec, of s] by simp
  show "client_set c k v exp s = (err, s') \<Longrightarrow> view s' = (view s)(k \<mapsto> v) \<or> (err \<noteq> None \<and> view s' = view s)"
    using ok [THEN conjunct2, THEN conjunct1, THEN spec, of k, THEN spec, of v, THEN spec, of exp, THEN spec, of s] by simp
  show "client_del c k s = (err, s') \<Longrightarrow> view s' = (view s)(k := None) \<or> (err \<noteq> None \<and> view s' = view s)"
    using ok [THEN conjunct2, THEN conjunct2, THEN spec, of k, THEN spec, of s] by simp
qed

lemma entries_upd [simp]: "k \<noteq> [] \<Longrightarrow> entries st (m(key_prefix st @ k := x)) = (entries st m)(k := x)"
  by (auto simp: entries_def)

lemma entries_Nil [simp]: "(entries st m)([] := None) = entries st m"
  by (auto simp: entries_def)

text \<open>Everything that is not the service's.\<close>

definition foreign :: "'s Storage \<Rightarrow> (string \<rightharpoonup> bytes) \<Rightarrow> (string \<rightharpoonup> bytes)" where
  "foreign st m = m |` {x. \<not> prefix (key_prefix st) x}"

lemma foreign_upd [simp]: "foreign st (m(key_prefix st @ k := x)) = foreign st m"
  by (auto simp: foreign_def restrict_map_def)

text \<open>A client on a plain map, for the witness.\<close>

definition map_client :: "(string \<rightharpoonup> bytes) Client" where
  "map_client =
     \<lparr>client_get = \<lambda>k m. (case m k of None \<Rightarrow> Nil | Some v \<Rightarrow> Value v, m),
      client_set = \<lambda>k v exp m. (None, m(k \<mapsto> v)), client_del = \<lambda>k m. (None, m(k := None)),
      client_flush = \<lambda>m. (None, Map.empty), client_ping = \<lambda>m. None, client_close = \<lambda>m. (None, m)\<rparr>"

lemma map_client_ok: "client_ok map_client (\<lambda>m. m)"
  by (simp add: client_ok_def map_client_def split: option.split)

section \<open>Properties\<close>

text \<open>
  C32. The adapter implements the storage that the rate limiter expects, on a server that others may share:
  a \<open>Set\<close> without error updates one entry of the service, where an empty key or value changes nothing;
  a \<open>Delete\<close> without error removes one; a \<open>Get\<close> without error returns the entry, and changes nothing; and whatever
  happens, no key of others is touched and no entry but the one named.
\<close>

theorem storage_refines_map:
  assumes "client_ok (client st) view"
  shows "(case Set_key st k v exp s of (err, s') \<Rightarrow> foreign st (view s') = foreign st (view s) \<and>
      (entries st (view s') = (if k = [] \<or> v = [] then entries st (view s) else (entries st (view s))(k \<mapsto> v)) \<or>
       (err \<noteq> None \<and> entries st (view s') = entries st (view s)))) \<and>
    (case Delete st k s of (err, s') \<Rightarrow> foreign st (view s') = foreign st (view s) \<and>
      (entries st (view s') = (entries st (view s))(k := None) \<or>
       (err \<noteq> None \<and> entries st (view s') = entries st (view s)))) \<and>
    (case Get st k s of (res, s') \<Rightarrow> view s' = view s \<and>
      (case res of Inr r \<Rightarrow> r = entries st (view s) k | Inl err \<Rightarrow> True))"
proof (intro conjI)
  show "case Set_key st k v exp s of (err, s') \<Rightarrow> foreign st (view s') = foreign st (view s) \<and>
      (entries st (view s') = (if k = [] \<or> v = [] then entries st (view s) else (entries st (view s))(k \<mapsto> v)) \<or>
       (err \<noteq> None \<and> entries st (view s') = entries st (view s)))"
    using client_okD(2) [OF assms, of "key_prefix st @ k" v exp s] by (auto simp: Set_key_def)
  show "case Delete st k s of (err, s') \<Rightarrow> foreign st (view s') = foreign st (view s) \<and>
      (entries st (view s') = (entries st (view s))(k := None) \<or>
       (err \<noteq> None \<and> entries st (view s') = entries st (view s)))"
    using client_okD(3) [OF assms, of "key_prefix st @ k" s] by (auto simp: Delete_def)
  obtain r s' where g: "client_get (client st) (key_prefix st @ k) s = (r, s')" by fastforce
  show "case Get st k s of (res, s') \<Rightarrow> view s' = view s \<and>
      (case res of Inr r \<Rightarrow> r = entries st (view s) k | Inl err \<Rightarrow> True)"
    using client_okD(1) [OF assms g] by (auto simp: Get_def g entries_def split: get_reply.splits)
qed

theorem storage_refines_map_witness:
  "case Set_key \<lparr>client = map_client, key_prefix = ''dyd:''\<rparr> ''submit:1.2.3.4'' [7] 60 Map.empty of
     (err, m) \<Rightarrow> entries \<lparr>client = map_client, key_prefix = ''dyd:''\<rparr> m = [''submit:1.2.3.4'' \<mapsto> [7]]"
  using storage_refines_map [where st = "\<lparr>client = map_client, key_prefix = ''dyd:''\<rparr>" and view = "\<lambda>m. m" and
      k = "''submit:1.2.3.4''" and v = "[7]" and exp = 60 and s = Map.empty] map_client_ok
  by (simp add: Set_key_def map_client_def) (simp add: entries_def fun_eq_iff)

end
