(* ===== verification/Main_Api.thy ===== *)
theory Main_Api
  imports Server Database Redisstore
begin

text \<open>
  The command \<open>cmd/api\<close>: \<open>main\<close> builds the dependencies in order, each step may end the process, and
  then serves until a signal or a listener error. Deadlines are part of what the libraries answer; log
  lines are left out. A fatal step exits at once: what is open stays open, as deferred calls do not run. When the
  set-up of the server panics, they do. \<open>run_main\<close> is the whole process with its exit code.
\<close>

section \<open>Start-up\<close>

datatype start_error =
    ConfigFailed config_error
  | DatabaseFailed connect_error
  | MigrationFailed migrate_error
  | RedisFailed string
  | CipherFailed crypto_error
  | ServerPanicked string

record ('o, 's) platform =
  env_vars :: environment
  pgx :: pgxpool
  acquire_result :: "string option"
  migrate_link :: "string \<Rightarrow> link"
  redis_lib :: "('o, 's) redis_library"
  validator_lib :: library
  cors_lib :: cors_new

record 's outside =
  db_pools :: pools
  db_schema :: schema
  redis_state :: 's

text \<open>What a ping sees: the answers of the pools, and the state of the Redis server.\<close>

type_synonym 's probe = "(pool_id \<Rightarrow> string option) \<times> 's"

record 's running =
  run_deps :: "('s Storage, 's probe) Deps"
  run_db :: DB
  run_redis :: "'s Storage option"
  run_app :: "'s Storage app"

definition database_options :: "Config \<Rightarrow> Options" where
  "database_options cfg =
     \<lparr>PrimaryURL = DatabaseURL cfg, ReplicaURL = DatabaseReplicaURL cfg, MaxConns = DBMaxConns cfg,
      MinConns = DBMinConns cfg, MaxConnLifetime = DBMaxConnLifetime cfg\<rparr>"

text \<open>\<open>Connect\<close> never leaves the primary empty, so the panic of a nil pool does not occur.\<close>

definition db_pinger :: "DB \<Rightarrow> 's probe Pinger" where
  "db_pinger d w = (case Ping (fst w) d of Some r \<Rightarrow> r | None \<Rightarrow> Some ''nil pool'')"

definition redis_pinger :: "'s Storage option \<Rightarrow> 's probe Pinger option" where
  "redis_pinger st = (case st of None \<Rightarrow> None | Some r \<Rightarrow> Some (\<lambda>w. Ping_redis r (snd w)))"

definition wire :: "Config \<Rightarrow> library \<Rightarrow> Cipher \<Rightarrow> DB \<Rightarrow> 's Storage option \<Rightarrow> ('s Storage, 's probe) Deps" where
  "wire cfg l ciph d redisStore =
     (let bidx = NewBlindIndex (BlindIndexKey cfg);
          signer = NewSigner (VerificationHMACKey cfg);
          repo = NewRepository ciph bidx signer (CurrentBatch cfg);
          validator = NewValidator l;
          ts = NewVerifier (TurnstileSecretKey cfg) (TurnstileEnabled cfg);
          h = NewHandler repo validator ts;
          health = NewHealth (db_pinger d) (redis_pinger redisStore)
      in \<lparr>d_Config = cfg, d_Handler = h, d_Health = health, d_LimiterStore = redisStore\<rparr>)"

text \<open>The deferred calls, in reverse order: Redis first. They run when \<open>main\<close> returns or panics, not on \<open>os.Exit\<close>.\<close>

definition deferred :: "DB \<Rightarrow> 's Storage option \<Rightarrow> 's outside \<Rightarrow> 's outside" where
  "deferred d redisStore w =
     (let w = (case redisStore of
           Some st \<Rightarrow> w\<lparr>redis_state := snd (Close_redis st (redis_state w))\<rparr> | None \<Rightarrow> w)
      in w\<lparr>db_pools := Close d (db_pools w)\<rparr>)"

definition migrate_step :: "('o, 's) platform \<Rightarrow> Config \<Rightarrow> schema \<Rightarrow> migrate_error option \<times> schema" where
  "migrate_step pf cfg sc =
     (if AutoMigrate cfg then Migrate FS (acquire_result pf) (migrate_link pf) sc else (None, sc))"

definition start :: "('o, 's) platform \<Rightarrow> 's outside \<Rightarrow> (start_error + 's running) \<times> 's outside" where
  "start pf w =
     (case Load (env_vars pf) of
        Inl err \<Rightarrow> (Inl (ConfigFailed err), w)
      | Inr cfg \<Rightarrow>
     (case Connect (pgx pf) (database_options cfg) (db_pools w) of
        (Inl err, ps) \<Rightarrow> (Inl (DatabaseFailed err), w\<lparr>db_pools := ps\<rparr>)
      | (Inr d, ps) \<Rightarrow>
     (let w = w\<lparr>db_pools := ps\<rparr>
      in case migrate_step pf cfg (db_schema w) of
        (Some err, sc) \<Rightarrow> (Inl (MigrationFailed err), w\<lparr>db_schema := sc\<rparr>)
      | (None, sc) \<Rightarrow>
     (let w = w\<lparr>db_schema := sc\<rparr>
      in case Connect_redis (redis_lib pf) (RedisURL cfg) (redis_state w) of
        (Inl err, rs) \<Rightarrow> (Inl (RedisFailed err), w\<lparr>redis_state := rs\<rparr>)
      | (Inr redisStore, rs) \<Rightarrow>
     (let w = w\<lparr>redis_state := rs\<rparr>
      in case NewCipher (PIIEncryptionKey cfg) of
        Inl err \<Rightarrow> (Inl (CipherFailed err), w)
      | Inr ciph \<Rightarrow>
     (let ds = wire cfg (validator_lib pf) ciph d redisStore
      in case NewServer (cors_lib pf) ds of
        Inl panic \<Rightarrow> (Inl (ServerPanicked panic), deferred d redisStore w)
      | Inr app \<Rightarrow>
          (Inr \<lparr>run_deps = ds, run_db = d, run_redis = redisStore, run_app = app\<rparr>, w)))))))"

section \<open>Shutdown\<close>

datatype wakeup = Listen_error string | Stop_signal

datatype drain = Drained | Not_drained string

text \<open>
  The end of a running service: the exit code and what is left open. \<open>main\<close> returns after a drain, else it exits at once.
\<close>

definition finish :: "wakeup \<Rightarrow> drain \<Rightarrow> 's running \<Rightarrow> 's outside \<Rightarrow> nat \<times> 's outside" where
  "finish why dr r w =
     (case why of
        Listen_error err \<Rightarrow> (1, w)
      | Stop_signal \<Rightarrow>
          (case dr of
             Not_drained err \<Rightarrow> (1, w)
           | Drained \<Rightarrow> (0, deferred (run_db r) (run_redis r) w)))"

text \<open>The whole process: a start that fails exits 1, a panic ends the process with 2.\<close>

definition start_failure :: "start_error \<Rightarrow> nat" where
  "start_failure err = (case err of ServerPanicked panic \<Rightarrow> 2 | _ \<Rightarrow> 1)"

definition run_main :: "('o, 's) platform \<Rightarrow> wakeup \<Rightarrow> drain \<Rightarrow> 's outside \<Rightarrow> nat \<times> 's outside" where
  "run_main pf why dr w =
     (case start pf w of
        (Inl err, w') \<Rightarrow> (start_failure err, w')
      | (Inr r, w') \<Rightarrow> finish why dr r w')"

section \<open>What a started service has\<close>

lemma start_cases:
  assumes "start pf w = (Inr r, w')"
  obtains cfg d ps sc st rs ciph where "Load (env_vars pf) = Inr cfg"
    "Connect (pgx pf) (database_options cfg) (db_pools w) = (Inr d, ps)"
    "migrate_step pf cfg (db_schema w) = (None, sc)"
    "Connect_redis (redis_lib pf) (RedisURL cfg) (redis_state w) = (Inr st, rs)"
    "NewCipher (PIIEncryptionKey cfg) = Inr ciph"
    "NewServer (cors_lib pf) (wire cfg (validator_lib pf) ciph d st) = Inr (built (wire cfg (validator_lib pf) ciph d st))"
    "r = \<lparr>run_deps = wire cfg (validator_lib pf) ciph d st, run_db = d, run_redis = st,
       run_app = built (wire cfg (validator_lib pf) ciph d st)\<rparr>"
    "w' = \<lparr>db_pools = ps, db_schema = sc, redis_state = rs\<rparr>"
  using assms
  by (cases w) (auto simp: start_def Let_def NewServer_Inr split: sum.splits prod.splits option.splits)

lemma start_panics:
  assumes "start pf w = (Inl (ServerPanicked panic), w')"
  obtains cfg d ps sc st rs where "Connect (pgx pf) (database_options cfg) (db_pools w) = (Inr d, ps)"
    "w' = deferred d st \<lparr>db_pools = ps, db_schema = sc, redis_state = rs\<rparr>"
  using assms
  by (cases w) (auto simp: start_def Let_def split: sum.splits prod.splits option.splits)

lemma deferred_pools [simp]: "db_pools (deferred d st w) = Close d (db_pools w)"
  by (simp add: deferred_def Let_def split: option.split)

lemma Connect_Close:
  assumes "pools_ok st" "Connect px opts st = (Inr d, st')"
  shows "open_pools (Close d st') = open_pools st"
  using connect_shape [OF assms(1), where pgx = px and opts = opts] assms(2) by auto

lemma Load_cipher: "Load env = Inr c \<Longrightarrow> \<exists>ciph. NewCipher (PIIEncryptionKey c) = Inr ciph"
  by (erule Load_cases) (auto simp: NewCipher_def dest: decodeKey_length)

lemma Connect_redis_url: "Connect_redis rl url s = (Inr st, s') \<Longrightarrow> st = None \<longleftrightarrow> url = []"
  by (auto simp: Connect_redis_def Let_def split: if_splits sum.splits option.splits)

lemma Connect_primary: "Connect px opts st = (Inr d, st') \<Longrightarrow> \<exists>p. Primary_pool d = Some p"
  by (auto simp: Connect_def Let_def split: sum.splits prod.splits if_splits)

lemma status_Ready: "status (Ready (NewHealth d r) w) = 200 \<longleftrightarrow> reachable d r w"
  by (auto simp: Ready_def NewHealth_def reachable_def Let_def split: option.split)

definition sample_platform :: "(unit, string \<rightharpoonup> bytes) platform" where
  "sample_platform = \<lparr>env_vars = sample_environment,
     pgx = \<lparr>ParseConfig = \<lambda>url. Inr \<lparr>conn_string = url, pool_MaxConns = 4, pool_MinConns = 0,
       pool_MaxConnLifetime = 0, HealthCheckPeriod = 0\<rparr>, NewWithConfig = \<lambda>p cfg. None, ping_pool = \<lambda>p cfg. None\<rparr>,
     acquire_result = None, migrate_link = \<lambda>_. Held,
     redis_lib = \<lparr>ParseURL = \<lambda>_. Inr (), NewClient = \<lambda>_. map_client\<rparr>, validator_lib = sample_library,
     cors_lib = (\<lambda>cfg. if AllowCredentials cfg \<and> AllowOrigins cfg = ''*'' then Some ''insecure'' else None)\<rparr>"

definition sample_outside :: "(string \<rightharpoonup> bytes) outside" where
  "sample_outside = \<lparr>db_pools = \<lparr>next_pool = 0, open_pools = Map.empty, closed_pools = []\<rparr>,
     db_schema = no_schema, redis_state = Map.empty\<rparr>"

lemma sample_starts:
  obtains r w' where "start sample_platform sample_outside = (Inr r, w')"
proof -
  obtain c where c: "Load sample_environment = Inr c" using sample_loads by blast
  have url: "RedisURL c = []" "DatabaseReplicaURL c = []" "CORSAllowedOrigins c = []"
    using c by (auto elim!: Load_cases simp: from_env_def sample_environment_def splitCSV_def)
  obtain ciph where k: "NewCipher (PIIEncryptionKey c) = Inr ciph" using Load_cipher [OF c] by blast
  obtain d ps where d: "Connect (pgx sample_platform) (database_options c) (db_pools sample_outside) = (Inr d, ps)"
    using url by (simp add: Connect_def open_pool_def sample_platform_def database_options_def Let_def)
  obtain sc where m: "migrate_step sample_platform c (db_schema sample_outside) = (None, sc)"
    using full_schema(1) by (cases "AutoMigrate c") (auto simp: migrate_step_def sample_platform_def sample_outside_def)
  have "NewServer (cors_lib sample_platform) (wire c l ciph d st) = Inr (built (wire c l ciph d st))" for l and st :: "(string \<rightharpoonup> bytes) Storage option"
    using url(3) by (simp add: NewServer_Inr wire_def Let_def sample_platform_def cors_settings_def)
  then have "\<exists>r w'. start sample_platform sample_outside = (Inr r, w')"
    using c d m k url by (simp add: start_def sample_platform_def Connect_redis_def Let_def sample_outside_def)
  then show thesis using that by blast
qed

section \<open>Properties\<close>

text \<open>
  C12. A service that starts is wired as the other theories assume: the keys of the configuration are the
  repository's, and its cipher is keyed; the validator has the rules of this code; the bot check has
  the configured secret; migrations all succeeded if \<open>AUTO_MIGRATE\<close> asks for them, and else the schema is
  as it was found; Redis is used for the limiter and the readiness probe exactly when it is configured; readiness asks
  the primary pool and Redis, and not the replica; the application is the one the server theory is
  about, and no service starts with the wildcard for credentials.
\<close>

theorem start_wires:
  assumes "start pf w = (Inr r, w')"
  shows "\<exists>cfg p. Load (env_vars pf) = Inr cfg \<and> d_Config (run_deps r) = cfg \<and>
    repo_keyed (repo (d_Handler (run_deps r))) \<and>
    NewCipher (PIIEncryptionKey cfg) = Inr (cipher (repo (d_Handler (run_deps r)))) \<and>
    bidx (repo (d_Handler (run_deps r))) = NewBlindIndex (BlindIndexKey cfg) \<and>
    signer (repo (d_Handler (run_deps r))) = NewSigner (VerificationHMACKey cfg) \<and>
    validator (d_Handler (run_deps r)) = NewValidator (validator_lib pf) \<and>
    turnstile (d_Handler (run_deps r)) = NewVerifier (TurnstileSecretKey cfg) (TurnstileEnabled cfg) \<and>
    (if AutoMigrate cfg then Migrate FS (acquire_result pf) (migrate_link pf) (db_schema w) = (None, db_schema w')
     else db_schema w' = db_schema w) \<and>
    d_LimiterStore (run_deps r) = run_redis r \<and> (run_redis r = None \<longleftrightarrow> RedisURL cfg = []) \<and>
    Primary_pool (run_db r) = Some p \<and>
    (\<forall>ans s. status (Ready (d_Health (run_deps r)) (ans, s)) = 200 \<longleftrightarrow>
       ans p = None \<and> (case run_redis r of None \<Rightarrow> True | Some st \<Rightarrow> Ping_redis st s = None)) \<and>
    run_app r = built (run_deps r) \<and>
    (cors_documented (cors_lib pf) \<longrightarrow> CORSAllowedOrigins cfg \<noteq> [''*''])"
  using assms
proof (cases rule: start_cases)
  case (1 cfg d ps sc st rs ciph)
  obtain p where p: "Primary_pool d = Some p" using Connect_primary [OF 1(2)] by blast
  have "repo_keyed (NewRepository ciph b s x)" for b s x
    using 1(5) by (auto simp: repo_keyed_def NewRepository_def)
  moreover have "status (Ready (NewHealth (db_pinger d) (redis_pinger st)) (ans, s)) = 200 \<longleftrightarrow>
       ans p = None \<and> (case st of None \<Rightarrow> True | Some st \<Rightarrow> Ping_redis st s = None)" for ans s
    unfolding status_Ready by (simp add: reachable_def db_pinger_def redis_pinger_def Ping_def p split: option.split)
  moreover have "if AutoMigrate cfg then Migrate FS (acquire_result pf) (migrate_link pf) (db_schema w) = (None, sc)
     else sc = db_schema w" using 1(3) by (simp add: migrate_step_def split: if_splits)
  moreover have "CORSAllowedOrigins cfg \<noteq> [''*'']" if "cors_documented (cors_lib pf)"
  proof
    assume "CORSAllowedOrigins cfg = [''*'']"
    then have "cors_lib pf (cors_settings [''*'']) = None" using 1(6) by (simp add: NewServer_Inr wire_def Let_def)
    moreover have "AllowCredentials (cors_settings [''*''])" "AllowOrigins (cors_settings [''*'']) = ''*''"
      by (simp_all add: cors_settings_def joinOrigins_def)
    ultimately show False using that by (auto simp: cors_documented_def)
  qed
  ultimately show ?thesis
    using 1(1,5) p Connect_redis_url [OF 1(4)]
    by (simp add: 1(7,8) wire_def NewHandler_def NewRepository_def Let_def)
qed

theorem start_wires_witness:
  "\<exists>r w'. start sample_platform sample_outside = (Inr r, w') \<and> repo_keyed (repo (d_Handler (run_deps r))) \<and>
     cors_documented (cors_lib sample_platform) \<and> CORSAllowedOrigins (d_Config (run_deps r)) \<noteq> [''*'']"
proof (rule sample_starts)
  fix r w'
  assume s: "start sample_platform sample_outside = (Inr r, w')"
  have "cors_documented (cors_lib sample_platform)" by (simp add: cors_documented_def sample_platform_def)
  then show ?thesis using s start_wires [OF s] by blast
qed

text \<open>
  No start fails at the cipher: \<open>main\<close> checks its error, but a configuration that loads has a key of the right size.
\<close>

theorem cipher_never_fails: "fst (start pf w) \<noteq> Inl (CipherFailed err)"
  by (auto simp: start_def Let_def split: sum.split prod.split option.split dest!: Load_cipher)

text \<open>
  C33. The process and its pools: a start that fails exits 1, and at the database it leaves open what was open before; if
  the server panics on its configuration, the deferred calls close the pools and the exit code is 2. A clean
  shutdown exits 0 and closes every pool that the start opened; a listener that fails, or a drain that does not
  finish, exits 1 and closes nothing.
\<close>

theorem pools_over_life:
  assumes "pools_ok (db_pools w)"
  shows "case start pf w of
      (Inl failure, w') \<Rightarrow>
        run_main pf why dr w = (case failure of ServerPanicked _ \<Rightarrow> 2 | _ \<Rightarrow> 1, w') \<and>
        (case failure of
           DatabaseFailed _ \<Rightarrow> open_pools (db_pools w') = open_pools (db_pools w)
         | ServerPanicked _ \<Rightarrow> open_pools (db_pools w') = open_pools (db_pools w)
         | _ \<Rightarrow> True)
    | (Inr r, w') \<Rightarrow>
        run_main pf why dr w = finish why dr r w' \<and>
        (case finish Stop_signal Drained r w' of (rc, w'') \<Rightarrow>
           rc = 0 \<and> open_pools (db_pools w'') = open_pools (db_pools w)) \<and>
        finish Stop_signal (Not_drained err) r w' = (1, w') \<and> finish (Listen_error err) dr r w' = (1, w')"
proof -
  obtain res w' where s: "start pf w = (res, w')" by fastforce
  show ?thesis
  proof (cases res)
    case (Inr r)
    then have st: "start pf w = (Inr r, w')" using s by simp
    then show ?thesis
    proof (cases rule: start_cases)
      case (1 cfg d ps sc st rs ciph)
      have "open_pools (Close d ps) = open_pools (db_pools w)" by (rule Connect_Close [OF assms 1(2)])
      then show ?thesis
        by (simp add: run_main_def st finish_def) (simp add: 1(7,8))
    qed
  next
    case (Inl failure)
    have rc: "run_main pf why dr w = (case failure of ServerPanicked _ \<Rightarrow> 2 | _ \<Rightarrow> 1, w')"
      by (simp add: run_main_def s Inl start_failure_def)
    have "case failure of DatabaseFailed _ \<Rightarrow> open_pools (db_pools w') = open_pools (db_pools w)
         | ServerPanicked _ \<Rightarrow> open_pools (db_pools w') = open_pools (db_pools w) | _ \<Rightarrow> True"
    proof (cases failure)
      case (DatabaseFailed err)
      then obtain cfg ps where "Connect (pgx pf) (database_options cfg) (db_pools w) = (Inl err, ps)"
        "w' = w\<lparr>db_pools := ps\<rparr>"
        using s Inl by (auto simp: start_def Let_def split: sum.splits prod.splits option.splits)
      then show ?thesis
        using DatabaseFailed connect_shape [OF assms, where pgx = "pgx pf" and opts = "database_options cfg"] by auto
    next
      case (ServerPanicked panic)
      then have "start pf w = (Inl (ServerPanicked panic), w')" using s Inl by simp
      then show ?thesis
        by (rule start_panics) (simp add: ServerPanicked Connect_Close [OF assms])
    qed simp_all
    then show ?thesis using rc by (simp only: s Inl prod.case sum.case)
  qed
qed

theorem pools_over_life_witness:
  "\<exists>r w'. start sample_platform sample_outside = (Inr r, w') \<and>
     open_pools (db_pools (snd (finish Stop_signal Drained r w'))) = Map.empty"
proof (rule sample_starts)
  fix r w'
  assume s: "start sample_platform sample_outside = (Inr r, w')"
  have ok: "pools_ok (db_pools sample_outside)" "open_pools (db_pools sample_outside) = Map.empty"
    by (simp_all add: pools_ok_def sample_outside_def)
  from pools_over_life [OF ok(1), where pf = sample_platform and err = "[]" and dr = Drained and why = Stop_signal]
  have "open_pools (db_pools (snd (finish Stop_signal Drained r w'))) = Map.empty"
    unfolding s ok(2) by (auto split: prod.splits)
  then show ?thesis using s by blast
qed

end
