(* ===== verification/Spec2Isabelle.thy ===== *)
theory Spec2Isabelle
  imports Main_Api
begin

text \<open>
  A verification development for the DYD admissions API, a Go server that takes applications,
  contact messages and newsletter subscriptions, shows admit cards, and confirms verification codes.

  \<^bold>\<open>The program.\<close> \<open>cmd/api\<close> loads the configuration, opens the database pools, applies the migrations,
  connects to Redis, builds the cipher, the blind index and the signer, wires the repository, the
  handlers and the HTTP application, and serves until a signal. A request passes the middleware
  stack and the rate limits, is parsed, checked with Cloudflare, validated, and handed to the
  repository, which encrypts personal data, derives keyed hashes for lookups, and talks to
  PostgreSQL: writes go to the primary, reads to the replica.

  \<^bold>\<open>The theories\<close>, in the order in which they build on each other:

  \<^item> \<open>Prelude\<close>: bytes and characters, and the collections \<open>go_string\<close> and \<open>sql\<close>.

  \<^item> \<open>Unicode_Case\<close>, \<open>Go_Strings\<close>, \<open>Go_Time\<close>, \<open>Go_Regexp\<close>, \<open>Go_Encoding\<close>, \<open>Go_Strconv\<close>, \<open>Go_Url\<close>,
    \<open>Go_Sha256\<close>, \<open>Go_Aes_Gcm\<close>: what the code uses of Go's standard library. Strings are byte strings.
    SHA-256 with HMAC, AES-256 and GCM are definitions that compute, written after the standards.

  \<^item> \<open>Crypto\<close> (\<open>internal/crypto\<close>): \<open>Encrypt\<close>, \<open>Decrypt\<close>, \<open>Hash\<close> with \<open>normalize\<close>, \<open>Sign\<close>, \<open>Verify\<close>,
    \<open>DocCode\<close>; the lemmas show that decryption undoes encryption and accepts nothing else, and the sizes.

  \<^item> \<open>Geo\<close> (\<open>internal/data\<close>): the tree of divisions and districts and \<open>IsValidPair\<close>.

  \<^item> \<open>Validate\<close>, \<open>Models\<close> (\<open>internal/validate\<close>, \<open>internal/models\<close>): the rules for phones, dates and
    images, the payloads with their tags, the rows and the views. The library that runs the tags is a
    parameter with the hypothesis \<open>library_ok\<close>.

  \<^item> \<open>Store\<close> (\<open>migrations\<close>, and what PostgreSQL does with the statements of the repository): tables with their
    unique indexes, the seven statements, two pools, and the three fates of a statement (\<open>Up\<close>, \<open>Down\<close>,
    \<open>Lost_reply\<close>). An operation is a \<open>prog\<close>, a tree of statements and what follows each answer.
    \<open>exec\<close> runs it alone. The locale \<open>statement_store\<close> is the contract between a store and programs.

  \<^item> \<open>Repository\<close>, \<open>Repository_Spec\<close> (\<open>internal/repository\<close>): the five operations, the abstract \<open>registry\<close> that
    they implement, the invariant \<open>store_ok\<close>, and the properties of each operation on every branch.

  \<^item> \<open>Turnstile\<close> (\<open>internal/turnstile\<close>): the bot check; Cloudflare is a parameter.

  \<^item> \<open>Handlers\<close>, \<open>Handlers_Spec\<close> (\<open>internal/handlers\<close>): one definition per endpoint from the parsed request to
    the response, the order of the gates, what errors reveal, and a submission with its lookup over HTTP.

  \<^item> \<open>Service\<close>: the concurrent service, as a step relation on the databases, the requests in
    flight with their programs, and the requests answered with their responses. Statements of different requests
    interleave freely, the replica catches up at any time, an instance may stop and lose any of its requests. The locale
    \<open>served\<close> lifts an invariant of statements to every reachable state. Here are durability (an acknowledged
    id belongs to a row that encodes the application of that very request), one acknowledgement per phone, and the drain.

  \<^item> \<open>Config\<close>, \<open>Logger\<close>, \<open>Middleware\<close>, \<open>Redisstore\<close>, \<open>Database\<close>, \<open>Server\<close>, \<open>Main_Api\<close>: the packages of the
    same names and the command: loading with integers at their width, headers, origins and limits, the storage of the
    limiter as a map, pools and migrations, the layers and routes, and start-up, wiring, shutdown and exit codes.
    \<open>Database\<close> has the three migrations as DDL, with column types, defaults, primary keys and index
    predicates; \<open>Migrate_embedded\<close> shows that they make the schema that \<open>Store\<close> assumes.

  \<^bold>\<open>Hypotheses.\<close> Code that is not in the repository is an argument: the validator library, Cloudflare,
  Fiber (\<open>fiber_lib\<close>, with \<open>routing_ok\<close>, and \<open>cors_new\<close>, with \<open>cors_documented\<close>), pgx (\<open>pgxpool\<close>), the Redis client (with \<open>client_ok\<close>), and
  the environment. Each hypothesis is met by an example in a witness.

  \<^bold>\<open>Bounds.\<close> There is no fuel: programs are finite trees, of at most two statements for every request
  (\<open>serve_bounded\<close>), and all loops are structural or have a measure. \<open>requests_drain\<close> has the bound of three steps per request.

  \<^bold>\<open>Not modelled.\<close> Lines of the log as output; deadlines other than as failures of the
  calls that they cut off; the parsing of request bodies and the encoding of responses to bytes; the
  parsing of SQL text and the sort order of indexes; TLS, the reverse proxy and the container files.
\<close>

end
